(* ===== verification/Prelude.thy ===== *)
theory Prelude
  imports Main "HOL-Library.Word" "HOL-Library.Char_ord" "HOL-Library.List_Lexorder"
    "HOL-Library.Product_Lexorder" "HOL-Library.AList"
begin

text \<open>
  Shared vocabulary of the development: exceptions and the result type every fallible
  operation returns, the Python string operations the program uses, decimal rendering,
  byte strings and positions inside a buffer.

  A Python \<open>str\<close> is a HOL \<open>string\<close> whose characters are the code points 0..255
  (Latin-1); \<open>lower\<close>, \<open>upper\<close> and \<open>strip\<close> are exact on that range.  A Python
  \<open>bytes\<close> value is a list of 8-bit words.  An exception is the left side of a sum.
\<close>

named_theorems wire_simps \<open>positions and lengths of wire data\<close>

subsection \<open>Byte strings\<close>

type_synonym byte = "8 word"
type_synonym bytes = "byte list"

subsection \<open>JSON values\<close>

text \<open>
  What \<open>json.loads\<close> produces.  A float carries what the program can see of it: the
  result of \<open>int()\<close> on it (NaN and the infinities raise) and its \<open>repr\<close>.
\<close>

datatype float_trunc = Trunc int | NotANumber | Infinite

datatype json =
    JNull
  | JBool bool
  | JInt int
  | JFloat float_trunc string
  | JStr string
  | JList "json list"
  | JObj "(string \<times> json) list"

subsection \<open>Exceptions\<close>

datatype error_code =
    INTERNAL | MALFORMED_JSON | VALIDATION_ERROR | LIMIT_EXCEEDED | METHOD_NOT_ALLOWED | NOT_FOUND
  | ZONE_NOT_FOUND | ZONE_ALREADY_EXISTS | NAME_OUT_OF_ZONE
  | VERSION_CONFLICT | IDEMPOTENCY_CONFLICT | SERIAL_INVALID | SERIAL_UNDECIDABLE | ZONE_INVALID
  | CHANGESET_INVALID
  | KEY_NOT_FOUND | NO_ACTIVE_KEY | KEY_STATE_INVALID | REQUEST_NOT_FOUND
  | DNS_FORMERR | DNS_SERVFAIL | DNS_NOTIMP | DNS_REFUSED | TRANSFER_DENIED | TRANSFER_PROTOCOL

record api_error =
  ae_code :: error_code
  ae_message :: string
  ae_http_status :: int
  ae_details :: "(string \<times> json) list"

datatype exn =
    WireError string
  | UnicodeError
  | StructError
  | ValueError
  | TypeError
  | KeyError
  | OverflowError
  | IntegrityError
  | ApiError api_error
  | TransferDenied "nat option"

definition api_error :: "error_code \<Rightarrow> string \<Rightarrow> int \<Rightarrow> (string \<times> json) list \<Rightarrow> exn" where
  "api_error c msg st det =
     ApiError \<lparr>ae_code = c, ae_message = msg, ae_http_status = st, ae_details = det\<rparr>"

subsection \<open>Sequencing of fallible steps\<close>

fun bindE :: "'e + 'a \<Rightarrow> ('a \<Rightarrow> 'e + 'b) \<Rightarrow> 'e + 'b" where
  "bindE (Inl e) f = Inl e"
| "bindE (Inr x) f = f x"

lemma bindE_Inr_iff: "bindE m f = Inr y \<longleftrightarrow> (\<exists>x. m = Inr x \<and> f x = Inr y)"
  by (cases m) auto

lemma bindE_Inl_iff: "bindE m f = Inl e \<longleftrightarrow> m = Inl e \<or> (\<exists>x. m = Inr x \<and> f x = Inl e)"
  by (cases m) auto

lemma bindE_assoc: "bindE (bindE m f) g = bindE m (\<lambda>x. bindE (f x) g)"
  by (cases m) auto

lemma bindE_split:
  "P (bindE m f) \<longleftrightarrow> (\<forall>e. m = Inl e \<longrightarrow> P (Inl e)) \<and> (\<forall>x. m = Inr x \<longrightarrow> P (f x))"
  by (cases m) auto

text \<open>Running a fallible function over a list stops at the first error, as a loop does.\<close>

fun mapE :: "('a \<Rightarrow> 'e + 'b) \<Rightarrow> 'a list \<Rightarrow> 'e + 'b list" where
  "mapE f [] = Inr []"
| "mapE f (x # xs) = bindE (f x) (\<lambda>y. bindE (mapE f xs) (\<lambda>ys. Inr (y # ys)))"

lemma mapE_Inr_map: "(\<And>x. x \<in> set xs \<Longrightarrow> f x = Inr (g x)) \<Longrightarrow> mapE f xs = Inr (map g xs)"
  by (induction xs) auto

lemma mapE_InrD:
  "mapE f xs = Inr ys \<Longrightarrow> length ys = length xs \<and> (\<forall>i < length xs. f (xs ! i) = Inr (ys ! i))"
proof (induction xs arbitrary: ys)
  case (Cons x xs)
  then show ?case
    by (auto simp: bindE_Inr_iff nth_Cons split: nat.splits)
qed simp

lemma mapE_set_InrD:
  assumes "mapE f xs = Inr ys" and "y \<in> set ys"
  shows "\<exists>x \<in> set xs. f x = Inr y"
  using assms by (metis in_set_conv_nth mapE_InrD)

subsection \<open>Python strings\<close>

definition lower_char :: "char \<Rightarrow> char" where
  "lower_char c = (let n = of_char c :: nat in
     if 65 \<le> n \<and> n \<le> 90 \<or> 192 \<le> n \<and> n \<le> 222 \<and> n \<noteq> 215 then char_of (n + 32) else c)"

definition upper_char :: "char \<Rightarrow> string" where
  "upper_char c = (let n = of_char c :: nat in
     if 97 \<le> n \<and> n \<le> 122 \<or> 224 \<le> n \<and> n \<le> 254 \<and> n \<noteq> 247 then [char_of (n - 32)]
     else if n = 223 then ''SS'' else [c])"

definition py_lower :: "string \<Rightarrow> string" where
  "py_lower s = map lower_char s"

definition py_upper :: "string \<Rightarrow> string" where
  "py_upper s = concat (map upper_char s)"

definition is_space :: "char \<Rightarrow> bool" where
  "is_space c = (let n = of_char c :: nat in
     9 \<le> n \<and> n \<le> 13 \<or> 28 \<le> n \<and> n \<le> 32 \<or> n = 133 \<or> n = 160)"

definition py_strip :: "string \<Rightarrow> string" where
  "py_strip s = rev (dropWhile is_space (rev (dropWhile is_space s)))"

definition rstrip_dot :: "string \<Rightarrow> string" where
  "rstrip_dot s = rev (dropWhile (\<lambda>c. c = CHR ''.'') (rev s))"

definition ends_with :: "'a list \<Rightarrow> 'a list \<Rightarrow> bool" where
  "ends_with s t = (length t \<le> length s \<and> drop (length s - length t) s = t)"

lemma ends_with_iff: "ends_with s t \<longleftrightarrow> (\<exists>p. s = p @ t)"
proof
  assume "ends_with s t"
  then have "s = take (length s - length t) s @ t"
    by (metis append_take_drop_id ends_with_def)
  then show "\<exists>p. s = p @ t" by blast
qed (auto simp: ends_with_def)

lemma ends_with_append [simp]: "ends_with (p @ t) t"
  by (auto simp: ends_with_iff)

lemma ends_with_refl [simp]: "ends_with s s"
  by (simp add: ends_with_def)

lemma ends_with_trans: "ends_with a b \<Longrightarrow> ends_with b c \<Longrightarrow> ends_with a c"
  by (auto simp: ends_with_iff)

fun starts_with :: "'a list \<Rightarrow> 'a list \<Rightarrow> bool" where
  "starts_with s [] = True"
| "starts_with [] (t # ts) = False"
| "starts_with (c # s) (t # ts) = (c = t \<and> starts_with s ts)"

text \<open>Python's \<open>t in s\<close> on strings.\<close>

fun contains_str :: "'a list \<Rightarrow> 'a list \<Rightarrow> bool" where
  "contains_str [] t = (t = [])"
| "contains_str (c # s) t = (starts_with (c # s) t \<or> contains_str s t)"

fun split_on :: "'a \<Rightarrow> 'a list \<Rightarrow> 'a list list" where
  "split_on c [] = [[]]"
| "split_on c (x # xs) =
     (if x = c then [] # split_on c xs
      else (case split_on c xs of [] \<Rightarrow> [[x]] | y # ys \<Rightarrow> (x # y) # ys))"

fun join_on :: "'a list \<Rightarrow> 'a list list \<Rightarrow> 'a list" where
  "join_on sep [] = []"
| "join_on sep [x] = x"
| "join_on sep (x # y # zs) = x @ sep @ join_on sep (y # zs)"

lemma split_on_ne [simp]: "split_on c s \<noteq> []"
  by (induction s) (auto split: list.splits)

lemma split_on_no_sep: "l \<in> set (split_on c s) \<Longrightarrow> c \<notin> set l"
proof (induction s arbitrary: l)
  case (Cons x xs)
  then show ?case by (cases "split_on c xs") (auto split: if_splits)
qed simp

lemma split_on_single: "c \<notin> set l \<Longrightarrow> split_on c l = [l]"
  by (induction l) auto

lemma split_on_append_sep: "c \<notin> set l \<Longrightarrow> split_on c (l @ c # s) = l # split_on c s"
  by (induction l) auto

lemma split_join:
  assumes "ls \<noteq> []" and "\<forall>l \<in> set ls. c \<notin> set l"
  shows "split_on c (join_on [c] ls) = ls"
  using assms by (induction "[c]" ls rule: join_on.induct) (auto simp: split_on_single split_on_append_sep)

lemma join_on_head: "join_on sep ((x # l) # ls) = x # join_on sep (l # ls)"
  by (cases ls) auto

lemma join_on_Nil_head: "ls \<noteq> [] \<Longrightarrow> join_on sep ([] # ls) = sep @ join_on sep ls"
  by (cases ls) auto

lemma join_split: "join_on [c] (split_on c s) = s"
proof (induction s)
  case (Cons x xs)
  then show ?case
    by (cases "split_on c xs") (auto simp: join_on_head join_on_Nil_head split: list.splits)
qed simp

lemma length_join_on:
  "ls \<noteq> [] \<Longrightarrow> length (join_on [c] ls) + 1 = (\<Sum>l \<leftarrow> ls. length l + 1)"
  by (induction "[c]" ls rule: join_on.induct) auto

subsection \<open>Decimal and hexadecimal rendering\<close>

definition digit_char :: "nat \<Rightarrow> char" where
  "digit_char d = char_of (48 + d)"

fun dec_nat :: "nat \<Rightarrow> string" where
  "dec_nat n = (if n < 10 then [digit_char n] else dec_nat (n div 10) @ [digit_char (n mod 10)])"

declare dec_nat.simps [simp del]

definition dec_int :: "int \<Rightarrow> string" where
  "dec_int i = (if i < 0 then CHR ''-'' # dec_nat (nat (- i)) else dec_nat (nat i))"

definition hex_char :: "nat \<Rightarrow> char" where
  "hex_char d = (if d < 10 then char_of (48 + d) else char_of (87 + d))"

subsection \<open>Positions in a buffer\<close>

definition slice :: "'a list \<Rightarrow> nat \<Rightarrow> nat \<Rightarrow> 'a list" where
  "slice buf a b = take (b - a) (drop a buf)"

definition holds_at :: "'a list \<Rightarrow> nat \<Rightarrow> 'a list \<Rightarrow> bool" where
  "holds_at buf off xs \<longleftrightarrow> off + length xs \<le> length buf \<and> take (length xs) (drop off buf) = xs"

lemma holds_at_iff: "holds_at buf off xs \<longleftrightarrow> (\<exists>p s. buf = p @ xs @ s \<and> length p = off)"
proof
  assume *: "holds_at buf off xs"
  let ?p = "take off buf" and ?s = "drop (length xs) (drop off buf)"
  have "drop off buf = xs @ ?s"
    using * by (metis append_take_drop_id holds_at_def)
  then have "buf = ?p @ xs @ ?s" by (metis append_take_drop_id)
  moreover have "length ?p = off" using * by (simp add: holds_at_def)
  ultimately show "\<exists>p s. buf = p @ xs @ s \<and> length p = off" by blast
qed (auto simp: holds_at_def)

lemma holds_at_append [wire_simps]:
  "holds_at buf off (xs @ ys) \<longleftrightarrow> holds_at buf off xs \<and> holds_at buf (off + length xs) ys"
proof
  assume "holds_at buf off (xs @ ys)"
  then obtain p s where b: "buf = p @ xs @ ys @ s" "length p = off"
    by (auto simp: holds_at_iff)
  then have "buf = p @ xs @ (ys @ s)" "buf = (p @ xs) @ ys @ s" "length (p @ xs) = off + length xs"
    by auto
  with b(2) show "holds_at buf off xs \<and> holds_at buf (off + length xs) ys"
    unfolding holds_at_iff by blast
next
  assume "holds_at buf off xs \<and> holds_at buf (off + length xs) ys"
  then show "holds_at buf off (xs @ ys)"
    by (auto simp: holds_at_def take_add add.commute)
qed

lemma holds_at_Cons:
  "holds_at buf off (x # xs) \<longleftrightarrow> off < length buf \<and> buf ! off = x \<and> holds_at buf (Suc off) xs"
  using holds_at_append [of buf off "[x]" xs]
  by (auto simp: holds_at_def take_Suc_conv_app_nth)

lemma holds_at_Nil [simp]: "holds_at buf off [] \<longleftrightarrow> off \<le> length buf"
  by (simp add: holds_at_def)

lemma holds_at_le: "holds_at buf off xs \<Longrightarrow> off + length xs \<le> length buf"
  by (simp add: holds_at_def)

lemma holds_at_slice: "holds_at buf off xs \<Longrightarrow> slice buf off (off + length xs) = xs"
  by (simp add: holds_at_def slice_def)

lemma holds_at_slice': "holds_at buf off xs \<Longrightarrow> n = off + length xs \<Longrightarrow> slice buf off n = xs"
  by (simp add: holds_at_slice)

lemma holds_at_mid: "length p = off \<Longrightarrow> holds_at (p @ xs @ s) off xs"
  by (auto simp: holds_at_iff)

lemma length_slice [wire_simps]: "b \<le> length buf \<Longrightarrow> length (slice buf a b) = b - a"
  by (simp add: slice_def)

end
