(* ===== verification/Wire_Names.thy ===== *)
theory Wire_Names
  imports Prelude
begin

text \<open>
  \<open>app/dnswire.py\<close>, names and integers: \<open>struct\<close> packing of 16- and 32-bit
  big-endian fields, \<open>encode_name\<close> and \<open>decode_name\<close>.  The decoder is the
  source's loop, state for state; its termination is proved for every buffer.
\<close>

unbundle bit_operations_syntax

subsection \<open>struct.pack and struct.unpack\<close>

definition be16 :: "nat \<Rightarrow> bytes" where
  "be16 n = [word_of_nat (n div 256), word_of_nat n]"

definition be32 :: "nat \<Rightarrow> bytes" where
  "be32 n = be16 (n div 65536) @ be16 n"

definition pack16 :: "nat \<Rightarrow> exn + bytes" where
  "pack16 n = (if n < 65536 then Inr (be16 n) else Inl StructError)"

definition pack32 :: "nat \<Rightarrow> exn + bytes" where
  "pack32 n = (if n < 4294967296 then Inr (be32 n) else Inl StructError)"

definition val16 :: "byte \<Rightarrow> byte \<Rightarrow> nat" where
  "val16 a b = unat a * 256 + unat b"

definition val32 :: "byte \<Rightarrow> byte \<Rightarrow> byte \<Rightarrow> byte \<Rightarrow> nat" where
  "val32 a b c d = val16 a b * 65536 + val16 c d"

definition unpack16 :: "bytes \<Rightarrow> exn + nat" where
  "unpack16 bs = (case bs of [a, b] \<Rightarrow> Inr (val16 a b) | _ \<Rightarrow> Inl StructError)"

definition unpack32 :: "bytes \<Rightarrow> exn + nat" where
  "unpack32 bs = (case bs of [a, b, c, d] \<Rightarrow> Inr (val32 a b c d) | _ \<Rightarrow> Inl StructError)"

lemma length_be16 [simp]: "length (be16 n) = 2" and length_be32 [simp]: "length (be32 n) = 4"
  by (simp_all add: be16_def be32_def)

lemma unat_byte [simp]: "unat (word_of_nat n :: byte) = n mod 256"
  by (simp add: unat_of_nat)

lemma unat_byte_lt [simp]: "unat (b :: byte) < 256"
proof -
  have "unat b < 2 ^ LENGTH(8)" by (rule unsigned_less)
  then show ?thesis by simp
qed

lemma val16_lt: "val16 a b < 65536"
  using unat_byte_lt [of a] unat_byte_lt [of b] unfolding val16_def by linarith

lemma val32_lt: "val32 a b c d < 4294967296"
  using val16_lt [of a b] val16_lt [of c d] unfolding val32_def by linarith

lemma val16_be16: "n < 65536 \<Longrightarrow> val16 (word_of_nat (n div 256)) (word_of_nat n) = n"
  by (simp add: val16_def)

lemma unpack16_be16 [simp]: "n < 65536 \<Longrightarrow> unpack16 (be16 n) = Inr n"
  by (simp add: unpack16_def be16_def val16_be16)

lemma unpack32_be32 [simp]: "n < 4294967296 \<Longrightarrow> unpack32 (be32 n) = Inr n"
proof -
  assume n: "n < 4294967296"
  have "val16 (word_of_nat (n div 256)) (word_of_nat n) = n mod 65536"
    using mod_mult2_eq [of n 256 256] by (simp add: val16_def mult.commute)
  moreover have "val16 (word_of_nat (n div 65536 div 256)) (word_of_nat (n div 65536)) = n div 65536"
    using n by (intro val16_be16) simp
  ultimately show ?thesis by (simp add: unpack32_def be32_def be16_def val32_def)
qed

lemma unpack16_len: "length bs = 2 \<Longrightarrow> \<exists>n. unpack16 bs = Inr n \<and> n < 65536"
  by (auto simp: unpack16_def val16_lt numeral_2_eq_2 length_Suc_conv)

lemma pack16_Inr_iff [simp]: "pack16 n = Inr b \<longleftrightarrow> n < 65536 \<and> b = be16 n"
  and pack32_Inr_iff [simp]: "pack32 n = Inr b' \<longleftrightarrow> n < 4294967296 \<and> b' = be32 n"
  by (auto simp: pack16_def pack32_def)

lemma be16_inject: "m < 65536 \<Longrightarrow> n < 65536 \<Longrightarrow> be16 m = be16 n \<longleftrightarrow> m = n"
  by (metis sum.inject(2) unpack16_be16)

subsection \<open>ASCII\<close>

definition char_byte :: "char \<Rightarrow> byte" where
  "char_byte c = word_of_nat (of_char c)"

definition byte_char :: "byte \<Rightarrow> char" where
  "byte_char b = char_of (unat b)"

definition is_ascii :: "char \<Rightarrow> bool" where
  "is_ascii c = ((of_char c :: nat) < 128)"

text \<open>\<open>str.encode("ascii", errors="strict")\<close> and \<open>bytes.decode("ascii", errors="strict")\<close>.\<close>

definition encode_ascii :: "string \<Rightarrow> exn + bytes" where
  "encode_ascii s = (if \<forall>c \<in> set s. is_ascii c then Inr (map char_byte s) else Inl UnicodeError)"

definition decode_ascii :: "bytes \<Rightarrow> exn + string" where
  "decode_ascii bs = (if \<forall>b \<in> set bs. unat b < 128 then Inr (map byte_char bs) else Inl UnicodeError)"

text \<open>\<open>bytes.lower()\<close> touches A to Z only.\<close>

definition lower_byte :: "byte \<Rightarrow> byte" where
  "lower_byte b = (if 65 \<le> unat b \<and> unat b \<le> 90 then b + 32 else b)"

lemma of_char_lt [simp]: "(of_char c :: nat) < 256"
  using nat_of_char_less_256 [of c] by simp

lemma unat_char_byte [simp]: "unat (char_byte c) = of_char c"
  by (simp add: char_byte_def)

lemma byte_char_byte [simp]: "byte_char (char_byte c) = c"
  by (simp add: byte_char_def)

lemma char_byte_char [simp]: "char_byte (byte_char b) = b"
proof -
  have "of_char (char_of (unat b) :: char) = unat b"
    using unat_byte_lt [of b] by (simp add: of_char_of)
  then show ?thesis by (simp add: char_byte_def byte_char_def)
qed

lemma lower_byte_char:
  assumes "is_ascii c"
  shows "lower_byte (char_byte c) = char_byte (lower_char c)"
proof (cases "65 \<le> (of_char c :: nat) \<and> (of_char c :: nat) \<le> 90")
  case True
  then have "of_char (char_of (of_char c + 32 :: nat) :: char) = (of_char c + 32 :: nat)"
    by (simp add: of_char_of)
  with True show ?thesis
    by (simp add: lower_byte_def lower_char_def Let_def) (simp add: char_byte_def)
next
  case False
  with assms show ?thesis
    by (auto simp: lower_byte_def lower_char_def Let_def is_ascii_def)
qed

lemma lower_char_idem [simp]: "lower_char (lower_char c) = lower_char c"
proof (cases "65 \<le> (of_char c :: nat) \<and> (of_char c :: nat) \<le> 90
    \<or> 192 \<le> (of_char c :: nat) \<and> (of_char c :: nat) \<le> 222 \<and> (of_char c :: nat) \<noteq> 215")
  case True
  then have "of_char (char_of (of_char c + 32 :: nat) :: char) = (of_char c + 32 :: nat)"
    by (auto simp: of_char_of)
  with True show ?thesis by (auto simp: lower_char_def Let_def)
qed (auto simp: lower_char_def Let_def)

lemma lower_char_ascii: "is_ascii c \<Longrightarrow> is_ascii (lower_char c)"
  by (auto simp: is_ascii_def lower_char_def Let_def of_char_of)

lemma py_lower_idem [simp]: "py_lower (py_lower s) = py_lower s"
  by (simp add: py_lower_def)

lemma py_lower_eq_Nil [simp]: "py_lower s = [] \<longleftrightarrow> s = []"
  by (simp add: py_lower_def)

lemma length_py_lower [simp]: "length (py_lower s) = length s"
  by (simp add: py_lower_def)

subsection \<open>encode_name\<close>

fun encode_labels :: "string list \<Rightarrow> exn + bytes" where
  "encode_labels [] = Inr []"
| "encode_labels (label # rest) =
     (if label = [] then Inl (WireError ''empty label'')
      else bindE (encode_ascii label) (\<lambda>raw.
        let lab = map lower_byte raw in
        if 63 < length lab then Inl (WireError ''label too long'')
        else bindE (encode_labels rest) (\<lambda>out. Inr (word_of_nat (length lab) # lab @ out))))"

definition encode_name :: "string \<Rightarrow> exn + bytes" where
  "encode_name name =
     (if name = [] \<or> name = ''.'' then Inr [0]
      else bindE (encode_labels (split_on CHR ''.'' (rstrip_dot name))) (\<lambda>out. Inr (out @ [0])))"

subsection \<open>decode_name\<close>

definition pointer_value :: "byte \<Rightarrow> byte \<Rightarrow> nat" where
  "pointer_value n b = push_bit 8 (unat (n AND 0x3F)) OR unat b"

lemma unat_and_63: "unat ((n :: byte) AND 0x3F) < 64"
proof -
  have "(0x3F :: byte) = mask 6" by (simp add: mask_eq_exp_minus_1)
  then have "unat (n AND 0x3F) = take_bit 6 (unat n)"
    by (simp only: take_bit_eq_mask [symmetric] unsigned_take_bit_eq)
  then show ?thesis by (simp add: take_bit_eq_mod)
qed

lemma pointer_value_lt: "pointer_value n b < 16384"
proof -
  have a: "push_bit 8 (unat (n AND 0x3F)) < 2 ^ 14"
    using unat_and_63 [of n] by (simp add: push_bit_eq_mult)
  have b: "unat b < 2 ^ 14" by (rule less_trans [OF unat_byte_lt]) simp
  have "take_bit 14 (pointer_value n b) = pointer_value n b"
    using a b by (simp add: pointer_value_def take_bit_nat_eq_self)
  then show ?thesis using take_bit_nat_less_exp [of 14 "pointer_value n b"] by simp
qed

lemma fresh_pointer_measure:
  assumes "ptr < 16384" and "ptr \<notin> set seen"
  shows "16384 - card (set (ptr # seen) \<inter> {..<16384}) < 16384 - card (set seen \<inter> {..<16384 :: nat})"
proof -
  have "card (insert ptr (set seen \<inter> {..<16384})) \<le> card {..<16384 :: nat}"
    using assms by (intro card_mono) auto
  moreover have "set (ptr # seen) \<inter> {..<16384} = insert ptr (set seen \<inter> {..<16384})"
    using assms by auto
  ultimately show ?thesis using assms by simp
qed

text \<open>
  The \<open>while True\<close> loop.  \<open>jump\<close> is \<open>Some next_off\<close> once a pointer was followed
  (the source's \<open>jumped\<close> and \<open>next_off\<close>); \<open>seen\<close> holds the pointers followed.
\<close>

function decode_loop :: "bytes \<Rightarrow> nat \<Rightarrow> nat list \<Rightarrow> nat option \<Rightarrow> string list \<Rightarrow> exn + string list \<times> nat"
where
  "decode_loop buf cur seen jump labels =
     (if length buf \<le> cur then Inl (WireError ''name overruns message'')
      else let n = buf ! cur in
        if n = 0 then Inr (labels, case jump of None \<Rightarrow> cur + 1 | Some off \<Rightarrow> off)
        else if n AND 0xC0 = 0xC0 then
          (if length buf \<le> cur + 1 then Inl (WireError ''truncated pointer'')
           else let ptr = pointer_value n (buf ! (cur + 1)) in
             if ptr \<in> set seen \<or> cur \<le> ptr then Inl (WireError ''bad compression pointer'')
             else decode_loop buf ptr (ptr # seen)
               (case jump of None \<Rightarrow> Some (cur + 2) | Some off \<Rightarrow> Some off) labels)
        else if n AND 0xC0 \<noteq> 0 then Inl (WireError ''reserved label bits'')
        else if length buf < cur + 1 + unat n then Inl (WireError ''label overruns message'')
        else bindE (decode_ascii (slice buf (cur + 1) (cur + 1 + unat n))) (\<lambda>l.
          decode_loop buf (cur + 1 + unat n) seen jump (labels @ [py_lower l])))"
  by pat_completeness auto

termination
proof (relation "measures [\<lambda>(buf, cur, seen, jump, labels). 16384 - card (set seen \<inter> {..<16384}),
    \<lambda>(buf, cur, seen, jump, labels). length buf - cur]", goal_cases)
  case 1
  show ?case by simp
next
  case (2 buf cur seen jump labels n ptr)
  then have "ptr < 16384" "ptr \<notin> set seen" by (auto simp: pointer_value_lt)
  then show ?case using fresh_pointer_measure [of ptr seen] by (simp only: in_measures) simp
next
  case (3 buf cur seen jump labels n l)
  then show ?case by simp
qed

declare decode_loop.simps [simp del]

definition decode_name :: "bytes \<Rightarrow> nat \<Rightarrow> exn + string \<times> nat" where
  "decode_name buf off =
     bindE (decode_loop buf off [] None []) (\<lambda>(labels, next_off).
       Inr (join_on ''.'' labels @ ''.'', next_off))"

subsection \<open>Decoding what was encoded\<close>

definition label_wire :: "string \<Rightarrow> bytes" where
  "label_wire l = word_of_nat (length l) # map (\<lambda>c. char_byte (lower_char c)) l"

definition label_ok :: "string \<Rightarrow> bool" where
  "label_ok l \<longleftrightarrow> l \<noteq> [] \<and> length l \<le> 63 \<and> (\<forall>c \<in> set l. is_ascii c)"

lemma length_label_wire [simp]: "length (label_wire l) = length l + 1"
  by (simp add: label_wire_def)

lemma encode_labels_Inr_iff:
  "encode_labels ls = Inr w \<longleftrightarrow> (\<forall>l \<in> set ls. label_ok l) \<and> w = concat (map label_wire ls)"
proof (induction ls arbitrary: w)
  case (Cons l ls)
  have m: "\<forall>c \<in> set l. is_ascii c \<Longrightarrow>
      map (lower_byte \<circ> char_byte) l = map (\<lambda>c. char_byte (lower_char c)) l"
    by (simp add: lower_byte_char)
  show ?case
    using Cons.IH m
    by (auto simp: bindE_Inr_iff Let_def encode_ascii_def label_ok_def label_wire_def split: if_splits)
qed auto

lemma small_byte_no_flags: "n < 64 \<Longrightarrow> (word_of_nat n :: byte) AND 0xC0 = 0"
proof -
  assume "n < 64"
  then have "take_bit 6 (word_of_nat n :: byte) = word_of_nat n"
    by (simp add: take_bit_of_nat take_bit_nat_eq_self)
  then have "(word_of_nat n :: byte) AND 0xC0 = (word_of_nat n AND mask 6) AND 0xC0"
    by (simp only: take_bit_eq_mask [symmetric])
  also have "\<dots> = word_of_nat n AND (mask 6 AND 0xC0)" by (rule and.assoc)
  also have "mask 6 AND (0xC0 :: byte) = 0" by (simp add: mask_eq_exp_minus_1)
  finally show ?thesis by simp
qed

lemma decode_ascii_label:
  assumes "\<forall>c \<in> set l. is_ascii c"
  shows "decode_ascii (map (\<lambda>c. char_byte (lower_char c)) l) = Inr (py_lower l)"
proof -
  have "\<forall>c \<in> set l. (of_char (lower_char c) :: nat) < 128"
    using assms lower_char_ascii by (auto simp: is_ascii_def)
  then show ?thesis by (simp add: decode_ascii_def py_lower_def comp_def)
qed

lemma decode_loop_end:
  assumes "holds_at buf cur [0]"
  shows "decode_loop buf cur seen jump acc =
    Inr (acc, case jump of None \<Rightarrow> cur + 1 | Some off \<Rightarrow> off)"
  using assms by (subst decode_loop.simps) (auto simp: holds_at_Cons Let_def)

lemma decode_loop_label:
  assumes at: "holds_at buf cur (label_wire l)" and ok: "label_ok l"
  shows "decode_loop buf cur seen jump acc =
    decode_loop buf (cur + length (label_wire l)) seen jump (acc @ [py_lower l])"
proof -
  let ?n = "word_of_nat (length l) :: byte"
  have hd: "cur < length buf" "buf ! cur = ?n"
    and tl: "holds_at buf (cur + 1) (map (\<lambda>c. char_byte (lower_char c)) l)"
    using at by (auto simp: label_wire_def holds_at_Cons)
  have n: "unat ?n = length l" and len: "0 < length l" "length l < 64"
    using ok by (auto simp: label_ok_def)
  have nz: "?n \<noteq> 0" using n len by (metis less_numeral_extra(3) unsigned_0)
  have no: "?n AND 0xC0 = 0" by (rule small_byte_no_flags [OF len(2)])
  have sl: "slice buf (cur + 1) (cur + 1 + length l) = map (\<lambda>c. char_byte (lower_char c)) l"
    using tl by (rule holds_at_slice') simp
  have bound: "cur + 1 + length l \<le> length buf" using holds_at_le [OF tl] by simp
  have dec: "decode_ascii (slice buf (cur + 1) (cur + 1 + length l)) = Inr (py_lower l)"
    unfolding sl using ok by (intro decode_ascii_label) (simp add: label_ok_def)
  show ?thesis
    using hd nz no n bound dec by (subst decode_loop.simps) (simp add: Let_def)
qed

lemma decode_loop_labels:
  assumes "holds_at buf cur (concat (map label_wire ls) @ [0])" and "\<forall>l \<in> set ls. label_ok l"
  shows "decode_loop buf cur seen jump acc = Inr (acc @ map py_lower ls,
    case jump of None \<Rightarrow> cur + length (concat (map label_wire ls)) + 1 | Some off \<Rightarrow> off)"
  using assms
proof (induction ls arbitrary: cur acc)
  case Nil
  then show ?case by (simp add: decode_loop_end split: option.split)
next
  case (Cons l ls)
  then have at: "holds_at buf cur (label_wire l)"
    and rest: "holds_at buf (cur + length (label_wire l)) (concat (map label_wire ls) @ [0])"
    by (simp_all add: holds_at_append add.assoc)
  have "decode_loop buf cur seen jump acc =
      decode_loop buf (cur + length (label_wire l)) seen jump (acc @ [py_lower l])"
    using at Cons.prems(2) by (intro decode_loop_label) simp_all
  also have "\<dots> = Inr ((acc @ [py_lower l]) @ map py_lower ls,
      case jump of None \<Rightarrow> cur + length (label_wire l) + length (concat (map label_wire ls)) + 1
      | Some off \<Rightarrow> off)"
    using rest Cons.prems(2) by (intro Cons.IH) simp_all
  finally show ?case by (simp add: add.assoc split: option.splits)
qed

text \<open>The presentation name a wire name stands for.\<close>

definition wire_name_of :: "string \<Rightarrow> string" where
  "wire_name_of name = (if name = [] \<or> name = ''.'' then ''.'' else py_lower (rstrip_dot name) @ ''.'')"

lemma lower_char_dot [simp]: "lower_char (CHR ''.'') = CHR ''.''"
  by (simp add: lower_char_def Let_def)

lemma lower_char_eq_dot: "lower_char c = CHR ''.'' \<longleftrightarrow> c = CHR ''.''"
proof
  assume "lower_char c = CHR ''.''"
  then have "(of_char (lower_char c) :: nat) = 46" by simp
  then have "(of_char c :: nat) = 46"
    by (auto simp: lower_char_def Let_def of_char_of split: if_splits)
  then have "(of_char c :: nat) = of_char (CHR ''.'')" by simp
  then show "c = CHR ''.''" by (simp only: of_char_eq_iff)
qed simp

lemma map_split_on:
  assumes "\<And>x. f x = d \<longleftrightarrow> x = c"
  shows "map (map f) (split_on c s) = split_on d (map f s)"
proof (induction s)
  case (Cons x xs)
  obtain y ys where y: "split_on c xs = y # ys" by (meson neq_Nil_conv split_on_ne)
  show ?case using Cons.IH [symmetric] by (simp add: assms y)
qed simp

lemma py_lower_split: "map py_lower (split_on CHR ''.'' s) = split_on CHR ''.'' (py_lower s)"
proof -
  have "py_lower = map lower_char" by (simp add: py_lower_def fun_eq_iff)
  then show ?thesis using map_split_on [OF lower_char_eq_dot] by simp
qed

lemma decode_encode_name:
  assumes enc: "encode_name name = Inr w" and at: "holds_at buf off w"
  shows "decode_name buf off = Inr (wire_name_of name, off + length w)"
proof (cases "name = [] \<or> name = ''.''")
  case True
  with enc at show ?thesis
    by (auto simp: encode_name_def decode_name_def decode_loop_end wire_name_of_def)
next
  case False
  define ls where "ls = split_on CHR ''.'' (rstrip_dot name)"
  from enc False have ok: "\<forall>l \<in> set ls. label_ok l" and w: "w = concat (map label_wire ls) @ [0]"
    by (auto simp: encode_name_def bindE_Inr_iff encode_labels_Inr_iff ls_def)
  have "decode_loop buf off [] None [] = Inr (map py_lower ls, off + length w)"
    using decode_loop_labels [OF at [unfolded w] ok, of "[]" None "[]"] by (simp add: w)
  moreover have "join_on ''.'' (map py_lower ls) = py_lower (rstrip_dot name)"
    by (simp add: ls_def py_lower_split join_split)
  ultimately show ?thesis using False by (simp add: decode_name_def wire_name_of_def)
qed

subsection \<open>What a successful decode guarantees\<close>

lemma decode_ascii_Inr: "decode_ascii bs = Inr s \<Longrightarrow> \<forall>c \<in> set s. is_ascii c"
  by (auto simp: decode_ascii_def is_ascii_def byte_char_def of_char_of split: if_splits)

lemma py_lower_ascii: "\<forall>c \<in> set s. is_ascii c \<Longrightarrow> \<forall>c \<in> set (py_lower s). is_ascii c"
  by (auto simp: py_lower_def lower_char_ascii)

lemma no_flags_small: "(n :: byte) AND 0xC0 = 0 \<Longrightarrow> unat n < 64"
proof -
  assume 0: "n AND 0xC0 = 0"
  have "(0x3F OR 0xC0 :: byte) = - 1" by simp
  then have "n = n AND (0x3F OR 0xC0)" by (simp only: and.right_neutral)
  also have "\<dots> = (n AND 0x3F) OR (n AND 0xC0)" by (rule bit.conj_disj_distrib)
  finally have "n = n AND 0x3F" using 0 by simp
  then show ?thesis using unat_and_63 [of n] by simp
qed

lemma length_decode_ascii: "decode_ascii bs = Inr s \<Longrightarrow> length s = length bs"
  by (auto simp: decode_ascii_def split: if_splits)

lemma py_lower_append: "py_lower (a @ b) = py_lower a @ py_lower b"
  by (simp add: py_lower_def)

lemma py_lower_dot: "py_lower ''.'' = ''.''"
  by (simp add: py_lower_def)

lemma py_lower_join: "py_lower (join_on ''.'' ls) = join_on ''.'' (map py_lower ls)"
  by (induction "''.''" ls rule: join_on.induct) (simp_all add: py_lower_def)

text \<open>Induction over the iterations of a decode that succeeds.\<close>

lemma decode_loop_success_induct [consumes 1, case_names fin ptr lab]:
  assumes "decode_loop buf cur seen jump acc = Inr r"
    and fin: "\<And>cur jump acc. cur < length buf \<Longrightarrow>
      P cur jump acc (acc, case jump of None \<Rightarrow> cur + 1 | Some off \<Rightarrow> off)"
    and ptr: "\<And>cur p jump acc r. cur + 1 < length buf \<Longrightarrow> p < cur \<Longrightarrow>
      P p (case jump of None \<Rightarrow> Some (cur + 2) | Some off \<Rightarrow> Some off) acc r \<Longrightarrow> P cur jump acc r"
    and lab: "\<And>cur l jump acc r. l \<noteq> [] \<Longrightarrow> length l < 64 \<Longrightarrow> cur + 1 + length l \<le> length buf \<Longrightarrow>
      \<forall>c \<in> set l. is_ascii c \<Longrightarrow> P (cur + 1 + length l) jump (acc @ [py_lower l]) r \<Longrightarrow>
      P cur jump acc r"
  shows "P cur jump acc r"
  using assms
proof (induction buf cur seen jump acc rule: decode_loop.induct)
  case (1 buf cur seen jump acc)
  note fin = "1.prems"(2) and ptr = "1.prems"(3) and lab = "1.prems"(4)
    and eq = "1.prems"(1) [unfolded decode_loop.simps [of buf cur] Let_def]
  show ?case
  proof (cases "buf ! cur = 0")
    case True
    with eq show ?thesis by (auto split: if_splits intro!: fin)
  next
    case nz: False
    show ?thesis
    proof (cases "buf ! cur AND 0xC0 = 0xC0")
      case True
      let ?p = "pointer_value (buf ! cur) (buf ! (cur + 1))"
      from eq nz True have *: "\<not> length buf \<le> cur" "\<not> length buf \<le> cur + 1"
          "\<not> (?p \<in> set seen \<or> cur \<le> ?p)"
        and rec: "decode_loop buf ?p (?p # seen)
          (case jump of None \<Rightarrow> Some (cur + 2) | Some off \<Rightarrow> Some off) acc = Inr r"
        by (auto split: if_splits)
      show ?thesis
        by (rule ptr [OF _ _ "1.IH"(1) [OF *(1) refl nz True *(2) refl *(3) rec fin ptr lab]]) (use * in auto)
    next
      case False
      let ?n = "unat (buf ! cur)"
      from eq nz False obtain l where *: "\<not> length buf \<le> cur" "\<not> buf ! cur AND 0xC0 \<noteq> 0"
          "\<not> length buf < cur + 1 + ?n"
        and dec: "decode_ascii (slice buf (cur + 1) (cur + 1 + ?n)) = Inr l"
        and rec: "decode_loop buf (cur + 1 + ?n) seen jump (acc @ [py_lower l]) = Inr r"
        by (auto simp: bindE_Inr_iff split: if_splits)
      have len: "length l = ?n"
        using length_decode_ascii [OF dec] *(3) by (simp add: length_slice)
      have "l \<noteq> []" using nz len by (metis length_0_conv unat_eq_zero)
      moreover have "length l < 64" using no_flags_small [of "buf ! cur"] * len by simp
      moreover have "cur + 1 + length l \<le> length buf" using *(3) len by linarith
      ultimately show ?thesis
        by (rule lab [OF _ _ _ decode_ascii_Inr [OF dec]])
          (simp only: len "1.IH"(2) [OF *(1) refl nz False *(2) *(3) rec fin ptr lab])
    qed
  qed
qed

lemma decode_loop_bounds:
  assumes "decode_loop buf cur seen jump acc = Inr r"
  shows "case jump of None \<Rightarrow> cur < snd r \<and> snd r \<le> length buf | Some off \<Rightarrow> snd r = off"
  using assms by (induction rule: decode_loop_success_induct) (auto split: option.splits)

definition lower_label :: "string \<Rightarrow> bool" where
  "lower_label l \<longleftrightarrow> label_ok l \<and> py_lower l = l"

lemma lower_label_lower:
  "l \<noteq> [] \<Longrightarrow> length l < 64 \<Longrightarrow> \<forall>c \<in> set l. is_ascii c \<Longrightarrow> lower_label (py_lower l)"
  using py_lower_ascii [of l] by (simp add: lower_label_def label_ok_def)

lemma decode_loop_labels_ok:
  assumes "decode_loop buf cur seen jump acc = Inr r" and "list_all lower_label acc"
  shows "list_all lower_label (fst r)"
  using assms
  by (induction rule: decode_loop_success_induct) (simp_all add: lower_label_lower)

lemma decode_name_bounds:
  assumes "decode_name buf off = Inr (nm, nxt)"
  shows "off < nxt" and "nxt \<le> length buf" and "ends_with nm ''.''" and "py_lower nm = nm"
proof -
  from assms obtain ls where ls: "decode_loop buf off [] None [] = Inr (ls, nxt)"
    and nm: "nm = join_on ''.'' ls @ ''.''"
    by (auto simp: decode_name_def bindE_Inr_iff)
  show "off < nxt" "nxt \<le> length buf" using decode_loop_bounds [OF ls] by auto
  show "ends_with nm ''.''" using nm by simp
  have "list_all lower_label ls" using decode_loop_labels_ok [OF ls] by simp
  then have "\<forall>l \<in> set ls. py_lower l = l" by (auto simp: list_all_iff lower_label_def)
  then have "map py_lower ls = ls" by (simp add: map_idI)
  then show "py_lower nm = nm" by (simp add: nm py_lower_append py_lower_join py_lower_dot)
qed

subsection \<open>The name codec as an interface\<close>

text \<open>
  Every record parser of the program calls the name decoder first and then reads fixed-width
  fields at the offset it returns.  What those parsers need of names is this contract.
\<close>

locale name_codec =
  fixes enc :: "string \<Rightarrow> exn + bytes"
    and dec :: "bytes \<Rightarrow> nat \<Rightarrow> exn + string \<times> nat"
    and norm :: "string \<Rightarrow> string"
  assumes dec_enc: "enc n = Inr w \<Longrightarrow> holds_at buf off w \<Longrightarrow> dec buf off = Inr (norm n, off + length w)"
    and dec_progress: "dec buf off = Inr (n, nxt) \<Longrightarrow> off < nxt \<and> nxt \<le> length buf"
begin

text \<open>A record is a name, ten bytes of fixed fields and its RDATA.\<close>

lemma record_layout:
  assumes "enc n = Inr w" and "holds_at buf off (w @ fxd @ rdata)"
  shows "dec buf off = Inr (norm n, off + length w)"
    and "slice buf (off + length w) (off + length w + length fxd) = fxd"
    and "slice buf (off + length w + length fxd) (off + length w + length fxd + length rdata) = rdata"
    and "off + length w + length fxd + length rdata \<le> length buf"
proof -
  have at: "holds_at buf off w" "holds_at buf (off + length w) fxd"
    "holds_at buf (off + length w + length fxd) rdata"
    using assms(2) by (simp_all add: holds_at_append)
  show "dec buf off = Inr (norm n, off + length w)" by (rule dec_enc [OF assms(1) at(1)])
  show "slice buf (off + length w) (off + length w + length fxd) = fxd"
    by (rule holds_at_slice [OF at(2)])
  show "slice buf (off + length w + length fxd) (off + length w + length fxd + length rdata) = rdata"
    by (rule holds_at_slice [OF at(3)])
  show "off + length w + length fxd + length rdata \<le> length buf" by (rule holds_at_le [OF at(3)])
qed

text \<open>A wire name is never empty, so consecutive records make progress.\<close>

lemma enc_nonempty: "enc n = Inr w \<Longrightarrow> w \<noteq> []"
  using dec_enc [of n w w 0] dec_progress [of w 0] by (auto simp: holds_at_def)

lemma enc_norm_unique: "enc n = Inr w \<Longrightarrow> enc n' = Inr w \<Longrightarrow> norm n = norm n'"
  using dec_enc [of n w w 0] dec_enc [of n' w w 0] by (simp add: holds_at_def)

end

interpretation names: name_codec encode_name decode_name wire_name_of
  by unfold_locales (auto simp: decode_encode_name dest: decode_name_bounds)

end
