(* ===== verification/Message.thy ===== *)
theory Message
  imports Wire_Names
begin

text \<open>
  \<open>app/dnswire.py\<close>, messages: record and header building, the TSIG record, the query
  parser and the plain response builders.  Integer fields of the wire are natural numbers;
  a field that does not fit its width makes \<open>struct.pack\<close> raise.
\<close>

unbundle bit_operations_syntax

subsection \<open>Constants\<close>

abbreviation (input) TYPE_A :: nat where "TYPE_A \<equiv> 1"
abbreviation (input) TYPE_NS :: nat where "TYPE_NS \<equiv> 2"
abbreviation (input) TYPE_CNAME :: nat where "TYPE_CNAME \<equiv> 5"
abbreviation (input) TYPE_SOA :: nat where "TYPE_SOA \<equiv> 6"
abbreviation (input) TYPE_MX :: nat where "TYPE_MX \<equiv> 15"
abbreviation (input) TYPE_TXT :: nat where "TYPE_TXT \<equiv> 16"
abbreviation (input) TYPE_AAAA :: nat where "TYPE_AAAA \<equiv> 28"
abbreviation (input) TYPE_IXFR :: nat where "TYPE_IXFR \<equiv> 251"
abbreviation (input) TYPE_AXFR :: nat where "TYPE_AXFR \<equiv> 252"
abbreviation (input) TYPE_ANY :: nat where "TYPE_ANY \<equiv> 255"
abbreviation (input) TYPE_TSIG :: nat where "TYPE_TSIG \<equiv> 250"
abbreviation (input) CLASS_IN :: nat where "CLASS_IN \<equiv> 1"
abbreviation (input) CLASS_ANY :: nat where "CLASS_ANY \<equiv> 255"
abbreviation (input) RCODE_NOERROR :: nat where "RCODE_NOERROR \<equiv> 0"
abbreviation (input) RCODE_FORMERR :: nat where "RCODE_FORMERR \<equiv> 1"
abbreviation (input) RCODE_SERVFAIL :: nat where "RCODE_SERVFAIL \<equiv> 2"
abbreviation (input) RCODE_NXDOMAIN :: nat where "RCODE_NXDOMAIN \<equiv> 3"
abbreviation (input) RCODE_NOTIMP :: nat where "RCODE_NOTIMP \<equiv> 4"
abbreviation (input) RCODE_REFUSED :: nat where "RCODE_REFUSED \<equiv> 5"
abbreviation (input) TSIG_BADSIG :: nat where "TSIG_BADSIG \<equiv> 16"
abbreviation (input) TSIG_BADKEY :: nat where "TSIG_BADKEY \<equiv> 17"
abbreviation (input) TSIG_BADTIME :: nat where "TSIG_BADTIME \<equiv> 18"
abbreviation (input) FLAG_QR :: nat where "FLAG_QR \<equiv> 0x8000"
abbreviation (input) FLAG_AA :: nat where "FLAG_AA \<equiv> 0x0400"
abbreviation (input) FLAG_TC :: nat where "FLAG_TC \<equiv> 0x0200"

definition ALGORITHM_WIRE :: bytes where
  "ALGORITHM_WIRE = [11, 104, 109, 97, 99, 45, 115, 104, 97, 50, 53, 54, 0]"

definition TYPES_BY_VALUE :: "nat \<Rightarrow> string option" where
  "TYPES_BY_VALUE = map_of [(TYPE_A, ''A''), (TYPE_NS, ''NS''), (TYPE_CNAME, ''CNAME''),
     (TYPE_SOA, ''SOA''), (TYPE_MX, ''MX''), (TYPE_TXT, ''TXT''), (TYPE_AAAA, ''AAAA''),
     (TYPE_IXFR, ''IXFR''), (TYPE_AXFR, ''AXFR'')]"

definition TYPES_BY_NAME :: "string \<Rightarrow> nat option" where
  "TYPES_BY_NAME = map_of [(''A'', TYPE_A), (''NS'', TYPE_NS), (''CNAME'', TYPE_CNAME),
     (''SOA'', TYPE_SOA), (''MX'', TYPE_MX), (''TXT'', TYPE_TXT), (''AAAA'', TYPE_AAAA),
     (''IXFR'', TYPE_IXFR), (''AXFR'', TYPE_AXFR)]"

definition SUPPORTED_TYPES :: "string list" where
  "SUPPORTED_TYPES = [''SOA'', ''NS'', ''A'', ''AAAA'', ''CNAME'', ''TXT'', ''MX'']"

subsection \<open>Multi-field struct formats\<close>

text \<open>\<open>">HHIH"\<close>, \<open>">HIH"\<close> and \<open>">HHHHHH"\<close>.\<close>

definition HHIH :: "nat \<Rightarrow> nat \<Rightarrow> nat \<Rightarrow> nat \<Rightarrow> bytes" where
  "HHIH a b c d = be16 a @ be16 b @ be32 c @ be16 d"

definition pack_HHIH :: "nat \<Rightarrow> nat \<Rightarrow> nat \<Rightarrow> nat \<Rightarrow> exn + bytes" where
  "pack_HHIH a b c d =
     (if a < 65536 \<and> b < 65536 \<and> c < 4294967296 \<and> d < 65536 then Inr (HHIH a b c d) else Inl StructError)"

definition unpack_HHIH :: "bytes \<Rightarrow> exn + nat \<times> nat \<times> nat \<times> nat" where
  "unpack_HHIH bs =
     (case bs of
        [a, b, c, d, e, f, g, h, i, j] \<Rightarrow> Inr (val16 a b, val16 c d, val32 e f g h, val16 i j)
      | _ \<Rightarrow> Inl StructError)"

definition HIH :: "nat \<Rightarrow> nat \<Rightarrow> nat \<Rightarrow> bytes" where
  "HIH a b c = be16 a @ be32 b @ be16 c"

definition pack_HIH :: "nat \<Rightarrow> nat \<Rightarrow> nat \<Rightarrow> exn + bytes" where
  "pack_HIH a b c = (if a < 65536 \<and> b < 4294967296 \<and> c < 65536 then Inr (HIH a b c) else Inl StructError)"

definition unpack_HIH :: "bytes \<Rightarrow> exn + nat \<times> nat \<times> nat" where
  "unpack_HIH bs =
     (case bs of [a, b, c, d, e, f, g, h] \<Rightarrow> Inr (val16 a b, val32 c d e f, val16 g h) | _ \<Rightarrow> Inl StructError)"

definition unpack_HHH :: "bytes \<Rightarrow> exn + nat \<times> nat \<times> nat" where
  "unpack_HHH bs =
     (case bs of [a, b, c, d, e, f] \<Rightarrow> Inr (val16 a b, val16 c d, val16 e f) | _ \<Rightarrow> Inl StructError)"

definition pack_HH :: "nat \<Rightarrow> nat \<Rightarrow> exn + bytes" where
  "pack_HH a b = (if a < 65536 \<and> b < 65536 then Inr (be16 a @ be16 b) else Inl StructError)"

definition pack_HHH :: "nat \<Rightarrow> nat \<Rightarrow> nat \<Rightarrow> exn + bytes" where
  "pack_HHH a b c =
     (if a < 65536 \<and> b < 65536 \<and> c < 65536 then Inr (be16 a @ be16 b @ be16 c) else Inl StructError)"

definition unpack_HH :: "bytes \<Rightarrow> exn + nat \<times> nat" where
  "unpack_HH bs = (case bs of [a, b, c, d] \<Rightarrow> Inr (val16 a b, val16 c d) | _ \<Rightarrow> Inl StructError)"

definition header_wire :: "nat \<Rightarrow> nat \<Rightarrow> nat \<Rightarrow> nat \<Rightarrow> nat \<Rightarrow> nat \<Rightarrow> bytes" where
  "header_wire a b c d e f = be16 a @ be16 b @ be16 c @ be16 d @ be16 e @ be16 f"

definition unpack_header :: "bytes \<Rightarrow> exn + nat \<times> nat \<times> nat \<times> nat \<times> nat \<times> nat" where
  "unpack_header bs =
     (case bs of
        [a, b, c, d, e, f, g, h, i, j, k, l] \<Rightarrow>
          Inr (val16 a b, val16 c d, val16 e f, val16 g h, val16 i j, val16 k l)
      | _ \<Rightarrow> Inl StructError)"

lemma val32_be32:
  assumes "n < 4294967296"
  shows "val32 (word_of_nat (n div 65536 div 256)) (word_of_nat (n div 65536))
    (word_of_nat (n div 256)) (word_of_nat n) = n"
  using unpack32_be32 [OF assms] by (simp add: unpack32_def be32_def be16_def)

lemma unpack_HHIH_HHIH:
  "a < 65536 \<Longrightarrow> b < 65536 \<Longrightarrow> c < 4294967296 \<Longrightarrow> d < 65536 \<Longrightarrow>
    unpack_HHIH (HHIH a b c d) = Inr (a, b, c, d)"
  by (simp add: unpack_HHIH_def HHIH_def be32_def be16_def val16_be16 val32_be32)

lemma unpack_HIH_HIH:
  "a < 65536 \<Longrightarrow> b < 4294967296 \<Longrightarrow> c < 65536 \<Longrightarrow> unpack_HIH (HIH a b c) = Inr (a, b, c)"
  by (simp add: unpack_HIH_def HIH_def be32_def be16_def val16_be16 val32_be32)

lemma unpack_HHH_be16:
  "a < 65536 \<Longrightarrow> b < 65536 \<Longrightarrow> c < 65536 \<Longrightarrow> unpack_HHH (be16 a @ be16 b @ be16 c) = Inr (a, b, c)"
  by (simp add: unpack_HHH_def be16_def val16_be16)

lemma unpack_HH_be16: "a < 65536 \<Longrightarrow> b < 65536 \<Longrightarrow> unpack_HH (be16 a @ be16 b) = Inr (a, b)"
  by (simp add: unpack_HH_def be16_def val16_be16)

lemma unpack_header_wire:
  "a < 65536 \<Longrightarrow> b < 65536 \<Longrightarrow> c < 65536 \<Longrightarrow> d < 65536 \<Longrightarrow> e < 65536 \<Longrightarrow> f < 65536 \<Longrightarrow>
    unpack_header (header_wire a b c d e f) = Inr (a, b, c, d, e, f)"
  by (simp add: unpack_header_def header_wire_def be16_def val16_be16)

lemma length_HHIH [simp]: "length (HHIH a b c d) = 10"
  and length_HIH [simp]: "length (HIH a b c) = 8"
  and length_header_wire [simp]: "length (header_wire a b c d e f) = 12"
  by (simp_all add: HHIH_def HIH_def header_wire_def)

subsection \<open>Record and header building\<close>

definition wire_u32 :: "int \<Rightarrow> exn + nat" where
  "wire_u32 v = (if 0 \<le> v \<and> v \<le> 0xFFFFFFFF then Inr (nat v) else Inl (WireError ''u32 out of range''))"

definition pack_rr :: "string \<Rightarrow> nat \<Rightarrow> nat \<Rightarrow> int \<Rightarrow> bytes \<Rightarrow> exn + bytes" where
  "pack_rr name rtype rclass ttl rdata =
     bindE (encode_name name) (\<lambda>n.
     bindE (wire_u32 ttl) (\<lambda>t.
     bindE (pack_HHIH rtype rclass t (length rdata)) (\<lambda>h. Inr (n @ h @ rdata))))"

definition build_header :: "nat \<Rightarrow> nat \<Rightarrow> nat \<Rightarrow> nat \<Rightarrow> nat \<Rightarrow> nat \<Rightarrow> exn + bytes" where
  "build_header qid flags qd an ns ar =
     (if qid < 65536 \<and> flags < 65536 \<and> qd < 65536 \<and> an < 65536 \<and> ns < 65536 \<and> ar < 65536
      then Inr (header_wire qid flags qd an ns ar) else Inl StructError)"

definition patch_arcount :: "bytes \<Rightarrow> nat \<Rightarrow> exn + bytes" where
  "patch_arcount msg arcount = bindE (pack16 arcount) (\<lambda>c. Inr (take 10 msg @ c @ drop 12 msg))"

subsection \<open>The TSIG record\<close>

definition tsig_rdata :: "bytes \<Rightarrow> nat \<Rightarrow> nat \<Rightarrow> bytes \<Rightarrow> nat \<Rightarrow> nat \<Rightarrow> bytes \<Rightarrow> exn + bytes" where
  "tsig_rdata alg_wire when fudge mac orig_id error other =
     bindE (pack_HIH (take_bit 16 (drop_bit 32 when)) (take_bit 32 when) fudge) (\<lambda>tm.
     bindE (pack16 (length mac)) (\<lambda>ml.
     bindE (pack_HHH orig_id error (length other)) (\<lambda>tl.
       Inr (alg_wire @ tm @ ml @ mac @ tl @ other))))"

definition tsig_variables :: "string \<Rightarrow> bytes \<Rightarrow> nat \<Rightarrow> nat \<Rightarrow> nat \<Rightarrow> bytes \<Rightarrow> exn + bytes" where
  "tsig_variables key_name alg_wire when fudge error other =
     bindE (pack_HIH (take_bit 16 (drop_bit 32 when)) (take_bit 32 when) fudge) (\<lambda>tm.
     bindE (pack16 error) (\<lambda>er.
     bindE (pack16 (length other)) (\<lambda>ol.
     let rdata_no_mac = alg_wire @ tm @ er @ ol @ other in
     bindE (encode_name key_name) (\<lambda>n.
     bindE (pack_HHIH TYPE_TSIG CLASS_ANY 0 (length rdata_no_mac)) (\<lambda>h.
       Inr (n @ h @ rdata_no_mac))))))"

definition append_tsig ::
  "bytes \<Rightarrow> string \<Rightarrow> nat \<Rightarrow> nat \<Rightarrow> bytes \<Rightarrow> nat \<Rightarrow> nat \<Rightarrow> nat option \<Rightarrow> bytes \<Rightarrow> exn + bytes" where
  "append_tsig msg key_name when fudge mac orig_id error arcount_before other =
     bindE (case arcount_before of Some n \<Rightarrow> Inr n | None \<Rightarrow> unpack16 (slice msg 10 12)) (\<lambda>arc.
     bindE (tsig_rdata ALGORITHM_WIRE when fudge mac orig_id error other) (\<lambda>rdata.
     bindE (encode_name key_name) (\<lambda>n.
     bindE (pack_HHIH TYPE_TSIG CLASS_ANY 0 (length rdata)) (\<lambda>h.
     bindE (patch_arcount msg (arc + 1)) (\<lambda>head.
       Inr (head @ n @ h @ rdata))))))"

record tsig_rr =
  t_name :: string
  t_algorithm :: string
  t_time :: nat
  t_fudge :: nat
  t_mac :: bytes
  t_orig_id :: nat
  t_error :: nat
  t_other :: bytes

definition parse_tsig_rdata :: "string \<Rightarrow> bytes \<Rightarrow> nat \<Rightarrow> nat \<Rightarrow> exn + tsig_rr" where
  "parse_tsig_rdata tname buf off0 rdlen =
     (let endp = off0 + rdlen in
      bindE (decode_name buf off0) (\<lambda>(alg, off).
      if endp < off + 8 then Inl (WireError ''TSIG time truncated'')
      else bindE (unpack_HIH (slice buf off (off + 8))) (\<lambda>(hi, lo, fudge).
      let when = push_bit 32 hi OR lo; off = off + 8 in
      if endp < off + 2 then Inl (WireError ''TSIG mac size truncated'')
      else bindE (unpack16 (slice buf off (off + 2))) (\<lambda>maclen.
      let off = off + 2 in
      if endp < off + maclen + 6 then Inl (WireError ''TSIG mac/tail truncated'')
      else let mac = slice buf off (off + maclen); off = off + maclen in
      bindE (unpack_HHH (slice buf off (off + 6))) (\<lambda>(orig_id, error, otherlen).
      let off = off + 6 in
      if off + otherlen \<noteq> endp then Inl (WireError ''TSIG other length mismatch'')
      else Inr \<lparr>t_name = tname, t_algorithm = alg, t_time = when, t_fudge = fudge, t_mac = mac,
        t_orig_id = orig_id, t_error = error, t_other = slice buf off (off + otherlen)\<rparr>)))))"

subsection \<open>parse_query\<close>

record query =
  q_id :: nat
  q_flags :: nat
  q_qname :: string
  q_qtype :: nat
  q_qclass :: nat
  q_raw_question :: bytes
  q_tsig :: "tsig_rr option"
  q_tsig_offset :: "nat option"
  q_arcount :: nat
  q_raw :: bytes
  q_client_soa_serial :: "int option"

text \<open>The serial of an SOA in the authority section; a \<open>WireError\<close> there is ignored.\<close>

definition authority_serial :: "bytes \<Rightarrow> nat \<Rightarrow> nat \<Rightarrow> int option \<Rightarrow> exn + int option" where
  "authority_serial buf rstart rdlen cs =
     (case bindE (decode_name buf rstart) (\<lambda>(_, p).
           bindE (decode_name buf p) (\<lambda>(_, p).
           if p + 20 \<le> rstart + rdlen
           then bindE (unpack32 (slice buf p (p + 4))) (\<lambda>s. Inr (Some (int s)))
           else Inr cs)) of
        Inl (WireError _) \<Rightarrow> Inr cs
      | r \<Rightarrow> r)"

text \<open>\<open>_skip_rr\<close>, which has no caller.\<close>

definition skip_rr :: "bytes \<Rightarrow> nat \<Rightarrow> exn + nat" where
  "skip_rr buf off =
     bindE (decode_name buf off) (\<lambda>(_, off).
     if length buf < off + 10 then Inl (WireError ''RR header truncated'')
     else bindE (unpack16 (slice buf (off + 8) (off + 10))) (\<lambda>rdlen.
     if length buf < off + 10 + rdlen then Inl (WireError ''RRDATA truncated'')
     else Inr (off + 10 + rdlen)))"

fun parse_authority :: "bytes \<Rightarrow> nat \<Rightarrow> nat \<Rightarrow> int option \<Rightarrow> exn + nat \<times> int option" where
  "parse_authority buf 0 off cs = Inr (off, cs)"
| "parse_authority buf (Suc k) off cs =
     bindE (decode_name buf off) (\<lambda>(_, off2).
     if length buf < off2 + 10 then Inl (WireError ''authority RR truncated'')
     else bindE (unpack_HHIH (slice buf off2 (off2 + 10))) (\<lambda>(rtype, rclass, ttl, rdlen).
     let rstart = off2 + 10 in
     if length buf < rstart + rdlen then Inl (WireError ''authority RDATA truncated'')
     else bindE (if rtype = TYPE_SOA \<and> 22 \<le> rdlen then authority_serial buf rstart rdlen cs else Inr cs)
       (\<lambda>cs'. parse_authority buf k (rstart + rdlen) cs')))"

fun parse_additional ::
  "bytes \<Rightarrow> nat \<Rightarrow> nat \<Rightarrow> (tsig_rr \<times> nat) option \<Rightarrow> exn + nat \<times> (tsig_rr \<times> nat) option" where
  "parse_additional buf 0 off tsig = Inr (off, tsig)"
| "parse_additional buf (Suc k) off tsig =
     bindE (decode_name buf off) (\<lambda>(tname, off2).
     if length buf < off2 + 10 then Inl (WireError ''additional RR truncated'')
     else bindE (unpack_HHIH (slice buf off2 (off2 + 10))) (\<lambda>(rtype, rclass, ttl, rdlen).
     let rstart = off2 + 10 in
     if length buf < rstart + rdlen then Inl (WireError ''additional RDATA truncated'')
     else bindE
       (if rtype = TYPE_TSIG then
          (if tsig \<noteq> None then Inl (WireError ''duplicate TSIG'')
           else bindE (parse_tsig_rdata tname buf rstart rdlen) (\<lambda>t. Inr (Some (t, off))))
        else Inr tsig)
       (\<lambda>tsig'. parse_additional buf k (rstart + rdlen) tsig')))"

definition parse_query :: "bytes \<Rightarrow> exn + query" where
  "parse_query buf =
     (if length buf < 12 then Inl (WireError ''message shorter than header'')
      else bindE (unpack_header (slice buf 0 12)) (\<lambda>(qid, flags, qd, an, ns, ar).
      if flags AND FLAG_QR \<noteq> 0 then Inl (WireError ''query QR bit set'')
      else if qd \<noteq> 1 \<or> an \<noteq> 0
        then Inl (WireError ''query must have exactly one question and no answers'')
      else bindE (decode_name buf 12) (\<lambda>(qname, off).
      if length buf < off + 4 then Inl (WireError ''question tail truncated'')
      else bindE (unpack_HH (slice buf off (off + 4))) (\<lambda>(qtype, qclass).
      let question_end = off + 4 in
      bindE (parse_authority buf ns question_end None) (\<lambda>(off, client_soa_serial).
      bindE (parse_additional buf ar off None) (\<lambda>(off, tsig).
      if off \<noteq> length buf then Inl (WireError ''trailing garbage'')
      else Inr \<lparr>q_id = qid, q_flags = flags, q_qname = qname, q_qtype = qtype, q_qclass = qclass,
        q_raw_question = slice buf 12 question_end, q_tsig = map_option fst tsig,
        q_tsig_offset = map_option snd tsig, q_arcount = ar, q_raw = buf,
        q_client_soa_serial = client_soa_serial\<rparr>))))))"

subsection \<open>Responses\<close>

text \<open>
  \<open>now\<close> and \<open>now'\<close> are the two clock readings of a BADTIME response: the first goes
  into the other-data, the second into the time-signed field.
\<close>

definition make_error_response :: "nat \<Rightarrow> nat \<Rightarrow> query \<Rightarrow> nat \<Rightarrow> nat option \<Rightarrow> exn + bytes" where
  "make_error_response now now' q rcode tsig_error =
     (let flags = (FLAG_QR OR FLAG_AA) OR rcode in
      bindE (build_header (q_id q) flags 1 0 0 (if tsig_error \<noteq> None then 1 else 0)) (\<lambda>h.
      let msg = h @ q_raw_question q in
      case tsig_error of None \<Rightarrow> Inr msg
      | Some terr \<Rightarrow>
        (case q_tsig q of None \<Rightarrow> Inr msg
         | Some t \<Rightarrow>
           let other = (if terr = TSIG_BADTIME
             then be16 (take_bit 16 (drop_bit 32 now)) @ be32 (take_bit 32 now) else []) in
           append_tsig msg (t_name t) now' 300 [] (q_id q) terr (Some 0) other)))"

definition make_simple_response ::
  "nat \<Rightarrow> bytes \<Rightarrow> nat \<Rightarrow> bytes list \<Rightarrow> bool \<Rightarrow> bool \<Rightarrow> exn + bytes" where
  "make_simple_response qid question rcode answers aa tc =
     (let flags = FLAG_QR OR rcode;
          flags = (if aa then flags OR FLAG_AA else flags);
          flags = (if tc then flags OR FLAG_TC else flags);
          ancount = (if tc then 0 else length answers) in
      bindE (build_header qid flags 1 ancount 0 0) (\<lambda>h.
        Inr (h @ question @ (if tc then [] else concat answers))))"

subsection \<open>Lemmas: layout of messages\<close>

lemma or_push_bit_eq_add:
  assumes "lo < 2 ^ n"
  shows "push_bit n hi OR lo = push_bit n hi + (lo :: nat)"
proof -
  have "lo = take_bit n lo" using assms by (simp add: take_bit_nat_eq_self)
  then have "\<not> bit (push_bit n hi) i \<or> \<not> bit lo i" for i
    by (metis bit_push_bit_iff bit_take_bit_iff leD)
  then show ?thesis by (simp add: disjunctive_add)
qed

lemma time48_split:
  "push_bit 32 (take_bit 16 (drop_bit 32 when)) OR take_bit 32 when = take_bit 48 (when :: nat)"
proof -
  have "push_bit 32 (take_bit 16 (drop_bit 32 when)) OR take_bit 32 when =
      push_bit 32 (take_bit 16 (drop_bit 32 when)) + take_bit 32 when"
    by (rule or_push_bit_eq_add) (rule take_bit_nat_less_exp)
  also have "\<dots> = take_bit 48 when"
    using mod_mult2_eq [of "when" "2 ^ 32" "2 ^ 16"]
    by (simp add: take_bit_eq_mod drop_bit_eq_div push_bit_eq_mult mult.commute)
  finally show ?thesis .
qed

lemma take_bit16_lt: "take_bit 16 (n :: nat) < 65536"
  using take_bit_nat_less_exp [of 16 n] by simp

lemma take_bit32_lt: "take_bit 32 (n :: nat) < 4294967296"
  using take_bit_nat_less_exp [of 32 n] by simp

lemma pack_HIH_time [simp]:
  "pack_HIH (take_bit 16 (drop_bit 32 w)) (take_bit 32 w) fudge =
    (if fudge < 65536 then Inr (HIH (take_bit 16 (drop_bit 32 w)) (take_bit 32 w) fudge) else Inl StructError)"
  using take_bit16_lt take_bit32_lt by (simp add: pack_HIH_def)

lemma patch_arcount_header:
  "arc < 65536 \<Longrightarrow> patch_arcount (header_wire a b c d e f @ rest) arc = Inr (header_wire a b c d e arc @ rest)"
  by (simp add: patch_arcount_def pack16_def header_wire_def be16_def)

lemma pack_rr_Inr_iff:
  "pack_rr name rtype rclass ttl rdata = Inr w \<longleftrightarrow>
    (\<exists>n. encode_name name = Inr n \<and> 0 \<le> ttl \<and> ttl \<le> 4294967295 \<and> rtype < 65536 \<and> rclass < 65536
      \<and> length rdata < 65536 \<and> w = n @ HHIH rtype rclass (nat ttl) (length rdata) @ rdata)"
  by (auto simp: pack_rr_def bindE_Inr_iff wire_u32_def pack_HHIH_def split: if_splits)

lemma build_header_Inr_iff:
  "build_header a b c d e f = Inr h \<longleftrightarrow>
    a < 65536 \<and> b < 65536 \<and> c < 65536 \<and> d < 65536 \<and> e < 65536 \<and> f < 65536 \<and> h = header_wire a b c d e f"
  by (auto simp: build_header_def)

end
