(* ===== verification/Py_Values.thy ===== *)
theory Py_Values
  imports Wire_Names
begin

text \<open>
  The Python conversions the program applies to request values: \<open>int()\<close>, \<open>str()\<close>,
  \<open>repr()\<close>, \<open>dict.get\<close>; the text \<open>json.dumps\<close> gives canonical RDATA; and
  \<open>ipaddress.IPv4Address\<close> and \<open>IPv6Address\<close> (Python 3.11).
\<close>

subsection \<open>int()\<close>

definition is_digit :: "char \<Rightarrow> bool" where
  "is_digit c = (let n = of_char c :: nat in 48 \<le> n \<and> n \<le> 57)"

definition digit_val :: "char \<Rightarrow> nat" where
  "digit_val c = of_char c - 48"

text \<open>Digits with single underscores between them.\<close>

fun digits_us :: "string \<Rightarrow> string option" where
  "digits_us [] = None"
| "digits_us [c] = (if is_digit c then Some [c] else None)"
| "digits_us (c # d # s) =
     (if \<not> is_digit c then None
      else if d = CHR ''_'' then map_option ((#) c) (digits_us s)
      else map_option ((#) c) (digits_us (d # s)))"

fun dec_value :: "nat \<Rightarrow> string \<Rightarrow> nat" where
  "dec_value acc [] = acc"
| "dec_value acc (c # s) = dec_value (10 * acc + digit_val c) s"

text \<open>
  \<open>int()\<close> turns Latin-1 white space outside ASCII into blanks only when the string is not
  ASCII, and then strips the C locale's white space.
\<close>

definition int_space :: "bool \<Rightarrow> char \<Rightarrow> bool" where
  "int_space ascii c =
     (let n = of_char c :: nat in 9 \<le> n \<and> n \<le> 13 \<or> n = 32 \<or> \<not> ascii \<and> (n = 133 \<or> n = 160))"

definition int_strip :: "string \<Rightarrow> string" where
  "int_strip s =
     (let p = int_space (\<forall>c \<in> set s. is_ascii c) in rev (dropWhile p (rev (dropWhile p s))))"

definition int_of_str :: "string \<Rightarrow> exn + int" where
  "int_of_str s =
     (let t = int_strip s;
          (neg, body) = (case t of
             [] \<Rightarrow> (False, [])
           | c # r \<Rightarrow> if c = CHR ''-'' then (True, r) else if c = CHR ''+'' then (False, r) else (False, t)) in
      case digits_us body of
        None \<Rightarrow> Inl ValueError
      | Some ds \<Rightarrow>
        if 4300 < length ds then Inl ValueError
        else Inr (if neg then - int (dec_value 0 ds) else int (dec_value 0 ds)))"

fun py_int :: "json \<Rightarrow> exn + int" where
  "py_int JNull = Inl TypeError"
| "py_int (JBool b) = Inr (if b then 1 else 0)"
| "py_int (JInt i) = Inr i"
| "py_int (JFloat (Trunc i) r) = Inr i"
| "py_int (JFloat NotANumber r) = Inl ValueError"
| "py_int (JFloat Infinite r) = Inl OverflowError"
| "py_int (JStr s) = int_of_str s"
| "py_int (JList xs) = Inl TypeError"
| "py_int (JObj kvs) = Inl TypeError"

text \<open>\<open>try: int(v) except (TypeError, ValueError): ...\<close>; other exceptions pass through.\<close>

definition try_int :: "json \<Rightarrow> exn \<Rightarrow> exn + int" where
  "try_int v e = (case py_int v of
       Inl TypeError \<Rightarrow> Inl e | Inl ValueError \<Rightarrow> Inl e | r \<Rightarrow> r)"

subsection \<open>str() and repr()\<close>

definition hex2 :: "nat \<Rightarrow> string" where
  "hex2 n = [hex_char (n div 16), hex_char (n mod 16)]"

definition repr_char :: "char \<Rightarrow> char \<Rightarrow> string" where
  "repr_char q c = (let n = of_char c :: nat in
     if c = q \<or> n = 92 then [char_of (92 :: nat), c]
     else if n = 9 then [char_of (92 :: nat), CHR ''t'']
     else if n = 10 then [char_of (92 :: nat), CHR ''n'']
     else if n = 13 then [char_of (92 :: nat), CHR ''r'']
     else if n < 32 \<or> 127 \<le> n \<and> n \<le> 160 \<or> n = 173 then char_of (92 :: nat) # CHR ''x'' # hex2 n
     else [c])"

definition repr_str :: "string \<Rightarrow> string" where
  "repr_str s =
     (let sq = char_of (39 :: nat); dq = char_of (34 :: nat);
          q = (if sq \<in> set s \<and> dq \<notin> set s then dq else sq) in
      q # concat (map (repr_char q) s) @ [q])"

fun py_repr :: "json \<Rightarrow> string" where
  "py_repr JNull = ''None''"
| "py_repr (JBool b) = (if b then ''True'' else ''False'')"
| "py_repr (JInt i) = dec_int i"
| "py_repr (JFloat t r) = r"
| "py_repr (JStr s) = repr_str s"
| "py_repr (JList xs) = ''['' @ join_on '', '' (map py_repr xs) @ '']''"
| "py_repr (JObj kvs) = ''{'' @ join_on '', '' (map (\<lambda>(k, v). repr_str k @ '': '' @ py_repr v) kvs) @ ''}''"

fun py_str :: "json \<Rightarrow> string" where
  "py_str (JStr s) = s"
| "py_str v = py_repr v"

text \<open>\<open>d.get(k, default)\<close> on a JSON object.\<close>

definition obj_get :: "(string \<times> json) list \<Rightarrow> string \<Rightarrow> json \<Rightarrow> json" where
  "obj_get kvs k dflt = (case map_of kvs k of None \<Rightarrow> dflt | Some v \<Rightarrow> v)"

subsection \<open>Canonical RDATA and its JSON text\<close>

record soa_data =
  s_mname :: string
  s_rname :: string
  s_serial :: int
  s_refresh :: int
  s_retry :: int
  s_expire :: int
  s_minimum :: int

text \<open>
  One constructor per shape of the canonical JSON object: A and AAAA share
  \<open>{"address"}\<close>, NS and CNAME share \<open>{"target"}\<close>.
\<close>

datatype rdata =
    Address string
  | Target string
  | Mx int string
  | Text string
  | Soa soa_data

definition json_char :: "char \<Rightarrow> string" where
  "json_char c = (let n = of_char c :: nat; bs = char_of (92 :: nat) in
     if n = 34 \<or> n = 92 then [bs, c]
     else if n = 10 then [bs, CHR ''n''] else if n = 13 then [bs, CHR ''r'']
     else if n = 9 then [bs, CHR ''t''] else if n = 12 then [bs, CHR ''f'']
     else if n = 8 then [bs, CHR ''b'']
     else if n < 32 \<or> 126 < n then [bs, CHR ''u'', CHR ''0'', CHR ''0''] @ hex2 n
     else [c])"

definition json_str :: "string \<Rightarrow> string" where
  "json_str s = char_of (34 :: nat) # concat (map json_char s) @ [char_of (34 :: nat)]"

definition json_field :: "string \<Rightarrow> string \<Rightarrow> string" where
  "json_field k v = json_str k @ '':'' @ v"

definition json_obj :: "string list \<Rightarrow> string" where
  "json_obj fs = ''{'' @ join_on '','' fs @ ''}''"

fun rdata_text :: "rdata \<Rightarrow> string" where
  "rdata_text (Address a) = json_obj [json_field ''address'' (json_str a)]"
| "rdata_text (Target t) = json_obj [json_field ''target'' (json_str t)]"
| "rdata_text (Mx p e) =
     json_obj [json_field ''exchange'' (json_str e), json_field ''preference'' (dec_int p)]"
| "rdata_text (Text t) = json_obj [json_field ''text'' (json_str t)]"
| "rdata_text (Soa s) =
     json_obj [json_field ''expire'' (dec_int (s_expire s)), json_field ''minimum'' (dec_int (s_minimum s)),
       json_field ''mname'' (json_str (s_mname s)), json_field ''refresh'' (dec_int (s_refresh s)),
       json_field ''retry'' (dec_int (s_retry s)), json_field ''rname'' (json_str (s_rname s)),
       json_field ''serial'' (dec_int (s_serial s))]"

subsubsection \<open>The text determines the value\<close>


lemma nat_of_char_less: "(of_char c :: nat) < 256"
  by (metis of_char_mod_256 mod_less_divisor zero_less_numeral)

lemma char_eq_nat: "c = d \<longleftrightarrow> (of_char c :: nat) = of_char d"
  by simp

lemma of_hex_char: "a < 16 \<Longrightarrow> (of_char (hex_char a) :: nat) = (if a < 10 then 48 + a else 87 + a)"
  by (simp add: hex_char_def)

lemma hex_char_inj: "a < 16 \<Longrightarrow> b < 16 \<Longrightarrow> hex_char a = hex_char b \<longleftrightarrow> a = b"
  by (auto simp del: of_char_eq_iff simp add: char_eq_nat of_hex_char split: if_splits)

lemma hex2_inj: "a < 256 \<Longrightarrow> b < 256 \<Longrightarrow> hex2 a = hex2 b \<Longrightarrow> a = b"
  apply (simp add: hex2_def hex_char_inj)
  by (metis div_mult_mod_eq)

text \<open>Escaping is a prefix code: the encoded characters can be read back one by one.\<close>

lemma json_char_cases:
  obtains (plain) "json_char c = [c]" "(of_char c :: nat) \<noteq> 92" "(of_char c :: nat) \<noteq> 34"
  | (short) e where "json_char c = [CHR 0x5C, e]" "e \<noteq> CHR ''u''"
      "(of_char e :: nat) = (let n = of_char c in if n = 34 \<or> n = 92 then n else if n = 10 then 110
         else if n = 13 then 114 else if n = 9 then 116 else if n = 12 then 102 else 98)"
      "(of_char c :: nat) \<in> {34, 92, 10, 13, 9, 12, 8}"
  | (long) "json_char c = [CHR 0x5C, CHR ''u'', CHR ''0'', CHR ''0''] @ hex2 (of_char c)"
proof -
  let ?n = "of_char c :: nat"
  have bs: "char_of (92 :: nat) = CHR 0x5C" by (simp add: char_of_def bit_0)
  consider "?n \<in> {34, 92, 10, 13, 9, 12, 8}" | "?n \<notin> {34, 92, 10, 13, 9, 12, 8}" "?n < 32 \<or> 126 < ?n"
    | "?n \<notin> {34, 92, 10, 13, 9, 12, 8}" "\<not> (?n < 32 \<or> 126 < ?n)" by blast
  then show ?thesis
  proof cases
    case 1
    let ?e = "json_char c ! 1"
    have "c \<noteq> CHR ''u''" using 1 by auto
    then show ?thesis using 1
      by (intro short [of ?e]) (auto simp: json_char_def Let_def bs)
  next
    case 2
    then show ?thesis by (intro long) (auto simp: json_char_def Let_def bs)
  next
    case 3
    then show ?thesis by (intro plain) (auto simp: json_char_def Let_def bs)
  qed
qed

lemma json_char_prefix: "json_char c @ x = json_char d @ y \<Longrightarrow> c = d \<and> x = y"
  apply (rule json_char_cases [of c]; rule json_char_cases [of d])
  subgoal by (simp)
  subgoal by (auto)
  subgoal by (auto)
  subgoal by (auto)
  subgoal by (auto simp: char_eq_nat Let_def simp del: of_char_eq_iff split: if_splits)
  subgoal by (auto)
  subgoal by (auto)
  subgoal by (auto)
  subgoal using hex2_inj [OF nat_of_char_less nat_of_char_less, of c d]
    by (simp add: hex2_def)
  done

lemma json_char_quote: "json_char c @ x \<noteq> CHR 0x22 # y"
  by (rule json_char_cases [of c]) auto

lemma json_body_prefix:
  "concat (map json_char s) @ CHR 0x22 # x = concat (map json_char t) @ CHR 0x22 # y \<Longrightarrow> s = t \<and> x = y"
proof (induction s arbitrary: t)
  case Nil
  then show ?case
    using json_char_quote [symmetric] by (cases t) auto
next
  case (Cons c s)
  show ?case
  proof (cases t)
    case Nil
    then show ?thesis using Cons.prems json_char_quote by simp
  next
    case (Cons d t')
    then show ?thesis
      using Cons.prems Cons.IH [of t'] json_char_prefix [of c _ d] by simp
  qed
qed

lemma quote_char: "char_of (34 :: nat) = CHR 0x22"
  by (simp add: char_of_def bit_0)

lemma json_str_prefix: "json_str s @ x = json_str t @ y \<longleftrightarrow> s = t \<and> x = y"
  using json_body_prefix [of s x t y] by (auto simp: json_str_def quote_char)

lemma json_str_inj: "json_str s = json_str t \<longleftrightarrow> s = t"
  using json_str_prefix [of s "[]" t "[]"] by simp

text \<open>A decimal ends where its digits end.\<close>

lemma of_digit_char: "d < 10 \<Longrightarrow> (of_char (digit_char d) :: nat) = 48 + d"
  by (simp add: digit_char_def)

lemma digit_val_digit_char: "d < 10 \<Longrightarrow> digit_val (digit_char d) = d"
  by (simp add: digit_val_def of_digit_char)

lemma is_digit_digit_char: "d < 10 \<Longrightarrow> is_digit (digit_char d)"
  by (simp add: is_digit_def of_digit_char)

lemma dec_value_append: "dec_value acc (s @ t) = dec_value (dec_value acc s) t"
  by (induction s arbitrary: acc) auto

lemma dec_nat_digits: "c \<in> set (dec_nat n) \<Longrightarrow> is_digit c"
proof (induction n rule: dec_nat.induct)
  case (1 n)
  then show ?case
    by (cases "n < 10") (auto simp: dec_nat.simps [of n] is_digit_digit_char)
qed

lemma dec_value_dec_nat: "dec_value 0 (dec_nat n) = n"
proof (induction n rule: dec_nat.induct)
  case (1 n)
  then show ?case
    by (cases "n < 10") (auto simp: dec_nat.simps [of n] dec_value_append digit_val_digit_char)
qed

lemma dec_nat_inj: "dec_nat m = dec_nat n \<longleftrightarrow> m = n"
  by (metis dec_value_dec_nat)

lemma dec_nat_ne: "dec_nat n \<noteq> []"
  by (subst dec_nat.simps) auto

lemma minus_not_digit: "\<not> is_digit CHR ''-''"
  by (simp add: is_digit_def)

lemma dec_int_inj: "dec_int i = dec_int j \<longleftrightarrow> i = j"
proof -
  have m: "dec_nat n \<noteq> CHR ''-'' # s" for n s
    using dec_nat_digits [of _ n] minus_not_digit by force
  show ?thesis
    using m m [symmetric] by (auto simp: dec_int_def dec_nat_inj split: if_splits)
qed

definition int_char :: "char \<Rightarrow> bool" where
  "int_char c = (is_digit c \<or> c = CHR ''-'')"

lemma dec_int_prefix:
  assumes "dec_int i @ c # x = dec_int j @ d # y" and "\<not> int_char c" and "\<not> int_char d"
  shows "i = j \<and> c = d \<and> x = y"
proof -
  have all: "\<forall>c \<in> set (dec_int i). int_char c" for i
    using dec_nat_digits by (auto simp: dec_int_def int_char_def)
  have "\<not> int_char c \<Longrightarrow> takeWhile int_char (dec_int i @ c # x) = dec_int i" for i c x
    using all [of i] by (simp add: takeWhile_append)
  with assms have "dec_int i = dec_int j" by metis
  with assms(1) show ?thesis by (simp add: dec_int_inj)
qed

lemma rdata_text_inj: "rdata_text a = rdata_text b \<longleftrightarrow> a = b"
proof
  assume e: "rdata_text a = rdata_text b"
  have sep: "\<not> int_char CHR '',''" "\<not> int_char CHR ''}''"
    by (simp_all add: int_char_def is_digit_def)
  have k: "json_str k @ x = json_str l @ y \<longleftrightarrow> k = l \<and> x = y" for k l x y by (rule json_str_prefix)
  note p = dec_int_prefix [OF _ sep(1) sep(1)] dec_int_prefix [OF _ sep(2) sep(2)]
  show "a = b"
    using e
    by (cases a; cases b)
      (auto simp: json_obj_def json_field_def k json_str_inj dec_int_inj dest!: p intro!: soa_data.equality)
qed simp

text \<open>Rows are ordered by their canonical text; the text determines the value.\<close>

instantiation rdata :: linorder
begin

definition less_eq_rdata :: "rdata \<Rightarrow> rdata \<Rightarrow> bool" where
  "less_eq_rdata a b \<longleftrightarrow> rdata_text a \<le> rdata_text b"

definition less_rdata :: "rdata \<Rightarrow> rdata \<Rightarrow> bool" where
  "less_rdata a b \<longleftrightarrow> rdata_text a < rdata_text b"

instance
  by intro_classes (auto simp: less_eq_rdata_def less_rdata_def less_le rdata_text_inj)

end

subsection \<open>ipaddress.IPv4Address\<close>

definition parse_octet :: "string \<Rightarrow> nat option" where
  "parse_octet s =
     (if s = [] \<or> \<not> (\<forall>c \<in> set s. is_digit c) \<or> 3 < length s \<or> s \<noteq> ''0'' \<and> hd s = CHR ''0'' then None
      else let n = dec_value 0 s in if 255 < n then None else Some n)"

definition parse_ipv4 :: "string \<Rightarrow> nat list option" where
  "parse_ipv4 s =
     (if s = [] \<or> CHR ''/'' \<in> set s then None
      else case split_on CHR ''.'' s of
        [a, b, c, d] \<Rightarrow>
          (case (parse_octet a, parse_octet b, parse_octet c, parse_octet d) of
             (Some w, Some x, Some y, Some z) \<Rightarrow> Some [w, x, y, z]
           | _ \<Rightarrow> None)
      | _ \<Rightarrow> None)"

definition ipv4_str :: "nat list \<Rightarrow> string" where
  "ipv4_str os = join_on ''.'' (map dec_nat os)"

subsection \<open>ipaddress.IPv6Address\<close>

definition is_hex_digit :: "char \<Rightarrow> bool" where
  "is_hex_digit c = (let n = of_char c :: nat in
     48 \<le> n \<and> n \<le> 57 \<or> 65 \<le> n \<and> n \<le> 70 \<or> 97 \<le> n \<and> n \<le> 102)"

definition hex_val :: "char \<Rightarrow> nat" where
  "hex_val c = (let n = of_char c :: nat in if n \<le> 57 then n - 48 else if n \<le> 70 then n - 55 else n - 87)"

definition parse_hextet :: "string \<Rightarrow> nat option" where
  "parse_hextet s =
     (if s = [] \<or> \<not> (\<forall>c \<in> set s. is_hex_digit c) \<or> 4 < length s then None
      else Some (foldl (\<lambda>acc c. 16 * acc + hex_val c) 0 s))"

fun parse_hextets :: "string list \<Rightarrow> nat list option" where
  "parse_hextets [] = Some []"
| "parse_hextets (s # ss) =
     (case parse_hextet s of None \<Rightarrow> None | Some n \<Rightarrow> map_option ((#) n) (parse_hextets ss))"

fun hex_nat :: "nat \<Rightarrow> string" where
  "hex_nat n = (if n < 16 then [hex_char n] else hex_nat (n div 16) @ [hex_char (n mod 16)])"

declare hex_nat.simps [simp del]

text \<open>The inner positions of empty parts; two of them is an error.\<close>

definition empty_parts :: "string list \<Rightarrow> nat list" where
  "empty_parts parts = filter (\<lambda>i. parts ! i = []) [1..<length parts - 1]"

definition ipv6_hextets :: "string list \<Rightarrow> nat list option" where
  "ipv6_hextets parts =
     (case empty_parts parts of
        [] \<Rightarrow> if length parts \<noteq> 8 then None else parse_hextets parts
      | [k] \<Rightarrow>
        let hi0 = k; lo0 = length parts - k - 1;
            hi = (if hd parts = [] then hi0 - 1 else hi0);
            lo = (if last parts = [] then lo0 - 1 else lo0) in
        if hd parts = [] \<and> hi \<noteq> 0 \<or> last parts = [] \<and> lo \<noteq> 0 \<or> 8 - (hi + lo) < 1 then None
        else (case (parse_hextets (take hi parts), parse_hextets (drop (length parts - lo) parts)) of
           (Some h, Some l) \<Rightarrow> Some (h @ replicate (8 - (hi + lo)) 0 @ l)
         | _ \<Rightarrow> None)
      | _ \<Rightarrow> None)"

definition ipv6_from_string :: "string \<Rightarrow> nat list option" where
  "ipv6_from_string s =
     (let parts = split_on CHR '':'' s in
      if s = [] \<or> length parts < 3 then None
      else case
        (if CHR ''.'' \<in> set (last parts) then
           (case parse_ipv4 (last parts) of
              Some [a, b, c, d] \<Rightarrow> Some (butlast parts @ [hex_nat (256 * a + b), hex_nat (256 * c + d)])
            | _ \<Rightarrow> None)
         else Some parts) of
        None \<Rightarrow> None
      | Some ps \<Rightarrow> if 9 < length ps then None else ipv6_hextets ps)"

text \<open>An address and its scope id.\<close>

definition parse_ipv6 :: "string \<Rightarrow> (nat list \<times> string option) option" where
  "parse_ipv6 s =
     (if CHR ''/'' \<in> set s then None
      else let addr = takeWhile (\<lambda>c. c \<noteq> CHR ''%'') s; rest = dropWhile (\<lambda>c. c \<noteq> CHR ''%'') s in
        case rest of
          [] \<Rightarrow> map_option (\<lambda>h. (h, None)) (ipv6_from_string addr)
        | _ # scope \<Rightarrow>
          if scope = [] \<or> CHR ''%'' \<in> set scope then None
          else map_option (\<lambda>h. (h, Some scope)) (ipv6_from_string addr))"

text \<open>\<open>_compress_hextets\<close>: the first longest run of zero hextets.\<close>

fun best_run :: "nat list \<Rightarrow> nat \<Rightarrow> nat option \<Rightarrow> nat \<Rightarrow> nat \<Rightarrow> nat \<Rightarrow> nat \<times> nat" where
  "best_run [] idx cur len bstart blen = (bstart, blen)"
| "best_run (h # hs) idx cur len bstart blen =
     (if h = 0 then
        let start = (case cur of None \<Rightarrow> idx | Some s \<Rightarrow> s); len' = len + 1 in
        if blen < len' then best_run hs (idx + 1) (Some start) len' start len'
        else best_run hs (idx + 1) (Some start) len' bstart blen
      else best_run hs (idx + 1) None 0 bstart blen)"

definition ipv6_str :: "nat list \<Rightarrow> string" where
  "ipv6_str hs =
     (let (start, len) = best_run hs 0 None 0 0 0; strs = map hex_nat hs in
      if 1 < len then
        let tl = (if start + len = length hs then [[]] else []);
            mid = take start strs @ [[]] @ drop (start + len) strs @ tl;
            full = (if start = 0 then [] # mid else mid) in
        join_on '':'' full
      else join_on '':'' strs)"

definition ipv6_compressed :: "nat list \<times> string option \<Rightarrow> string" where
  "ipv6_compressed a = (case a of (hs, None) \<Rightarrow> ipv6_str hs | (hs, Some sc) \<Rightarrow> ipv6_str hs @ ''%'' @ sc)"

end
