(* ===== verification/Canonical.thy ===== *)
theory Canonical
  imports Message Py_Values
begin

text \<open>
  \<open>app/canonical.py\<close> and \<open>encode_rdata\<close> of \<open>app/dnswire.py\<close>: canonical owner names
  and RDATA with their wire form.  The limits are the defaults of \<open>app/config.py\<close>.
\<close>

subsection \<open>Limits\<close>

definition MAX_RECORDS_PER_ZONE :: nat where "MAX_RECORDS_PER_ZONE = 10000"
definition MAX_CHANGES_PER_PUBLISH :: nat where "MAX_CHANGES_PER_PUBLISH = 1000"
definition MAX_NAME_LEN :: nat where "MAX_NAME_LEN = 255"
definition MAX_LABEL_LEN :: nat where "MAX_LABEL_LEN = 63"
definition MAX_RDATA_LEN :: nat where "MAX_RDATA_LEN = 65535"
definition MAX_UDP_PAYLOAD :: nat where "MAX_UDP_PAYLOAD = 512"
definition MAX_TCP_MESSAGE :: nat where "MAX_TCP_MESSAGE = 65535"

text \<open>\<open>_int\<close>, of the value of an environment variable.\<close>

definition config_int :: "string option \<Rightarrow> int \<Rightarrow> exn + int" where
  "config_int raw dflt =
     (case raw of None \<Rightarrow> Inr dflt | Some s \<Rightarrow> if s = [] then Inr dflt else int_of_str s)"

lemmas limit_defs = MAX_RECORDS_PER_ZONE_def MAX_CHANGES_PER_PUBLISH_def MAX_NAME_LEN_def
  MAX_LABEL_LEN_def MAX_RDATA_LEN_def MAX_UDP_PAYLOAD_def MAX_TCP_MESSAGE_def

definition limit_detail :: "nat \<Rightarrow> (string \<times> json) list" where
  "limit_detail n = [(''limit'', JInt (int n))]"

subsection \<open>Names\<close>

definition label_char :: "char \<Rightarrow> bool" where
  "label_char c = (let n = of_char c :: nat in
     97 \<le> n \<and> n \<le> 122 \<or> 48 \<le> n \<and> n \<le> 57 \<or> n = 95 \<or> n = 45)"

text \<open>
  \<open>_LABEL_RE.match\<close>: one to 63 label characters, then \<open>$\<close>, which in Python matches at the
  end and also just before a final newline.
\<close>

definition label_re_match :: "string \<Rightarrow> bool" where
  "label_re_match lab =
     (let body = takeWhile label_char lab; rest = dropWhile label_char lab in
      1 \<le> length body \<and> length body \<le> 63 \<and> (rest = [] \<or> rest = [char_of (10 :: nat)]))"

fun check_labels :: "string list \<Rightarrow> nat \<Rightarrow> exn + nat" where
  "check_labels [] wire_len = Inr wire_len"
| "check_labels (lab # rest) wire_len =
     (if MAX_LABEL_LEN < length lab then
        Inl (api_error LIMIT_EXCEEDED
          (''label too long ('' @ dec_nat (length lab) @ '' > '' @ dec_nat MAX_LABEL_LEN @ '' octets)'')
          413 (limit_detail MAX_LABEL_LEN))
      else if \<not> label_re_match lab then
        Inl (api_error VALIDATION_ERROR (''invalid label: '' @ repr_str lab) 400 [])
      else check_labels rest (wire_len + 1 + length lab))"

definition check_name :: "string \<Rightarrow> exn + string" where
  "check_name abs_name =
     bindE (check_labels (if abs_name \<noteq> ''.'' then split_on CHR ''.'' (butlast abs_name) else []) 1)
       (\<lambda>wire_len.
        if MAX_NAME_LEN < wire_len then
          Inl (api_error LIMIT_EXCEEDED
            (''name wire length '' @ dec_nat wire_len @ '' exceeds '' @ dec_nat MAX_NAME_LEN)
            413 (limit_detail MAX_NAME_LEN))
        else Inr abs_name)"

text \<open>The argument is the string of a request; a value that is not one is rejected alike.\<close>

definition canonical_zone :: "json \<Rightarrow> exn + string" where
  "canonical_zone name =
     (case name of
        JStr s \<Rightarrow>
          if s = [] then Inl (api_error VALIDATION_ERROR ''zone name required'' 400 [])
          else let raw = py_strip (py_lower s) in
            if \<not> ends_with raw ''.'' then
              Inl (api_error VALIDATION_ERROR (''zone name must be absolute (end with '' @ repr_str ''.'' @ '')'') 400 [])
            else check_name raw
      | _ \<Rightarrow> Inl (api_error VALIDATION_ERROR ''zone name required'' 400 []))"

definition canonical_zone_arg :: "string \<Rightarrow> exn + string" where
  "canonical_zone_arg s =
     (if py_strip s = [] then Inl (api_error VALIDATION_ERROR ''zone name required'' 400 [])
      else let raw = py_strip (py_lower s) in
        check_name (if ends_with raw ''.'' then raw else raw @ ''.''))"

definition canonical_name :: "json \<Rightarrow> string \<Rightarrow> exn + string" where
  "canonical_name raw zone =
     (case raw of
        JStr s \<Rightarrow>
          if s = [] then Inl (api_error VALIDATION_ERROR ''record name required'' 400 [])
          else let name = py_strip (py_lower s) in
            if name = ''@'' then Inr zone
            else if name = [] \<or> name = ''.''
              then Inl (api_error VALIDATION_ERROR ''root name not allowed in a zone'' 400 [])
            else let name = (if ends_with name ''.'' then name else name @ ''.'' @ zone) in
              if \<not> ends_with name zone then
                Inl (api_error NAME_OUT_OF_ZONE (repr_str s @ '' is outside zone '' @ zone) 422
                  [(''name'', JStr s), (''zone'', JStr zone)])
              else if name \<noteq> zone \<and> \<not> ends_with name (''.'' @ zone) then
                Inl (api_error NAME_OUT_OF_ZONE (repr_str s @ '' is not within zone '' @ zone) 422 [])
              else check_name name
      | _ \<Rightarrow> Inl (api_error VALIDATION_ERROR ''record name required'' 400 []))"

definition name_labels :: "string \<Rightarrow> string list" where
  "name_labels name = (if name \<noteq> ''.'' then split_on CHR ''.'' (butlast name) else [])"

text \<open>\<open>n[-len(z):]\<close> with \<open>len(z) = 0\<close> is the whole list.\<close>

definition is_subname :: "string \<Rightarrow> string \<Rightarrow> bool" where
  "is_subname name zone =
     (let n = name_labels name; z = name_labels zone in
      length z \<le> length n \<and> (if z = [] then n else drop (length n - length z) n) = z)"

definition canonical_target :: "json \<Rightarrow> string \<Rightarrow> exn + string" where
  "canonical_target raw zone =
     (case raw of
        JStr s \<Rightarrow>
          if s = [] then Inl (api_error VALIDATION_ERROR ''target name required'' 400 [])
          else let t = py_strip (py_lower s) in
            check_name (if ends_with t ''.'' then t else t @ ''.'' @ zone)
      | _ \<Rightarrow> Inl (api_error VALIDATION_ERROR ''target name required'' 400 []))"

definition check_ttl :: "json \<Rightarrow> exn + int" where
  "check_ttl v =
     bindE (try_int v (api_error VALIDATION_ERROR ''ttl must be an integer'' 400 [])) (\<lambda>ttl.
       if \<not> (0 \<le> ttl \<and> ttl \<le> 0xFFFFFFFF)
       then Inl (api_error VALIDATION_ERROR ''ttl must be 0..4294967295'' 400 []) else Inr ttl)"

definition canon_u32 :: "json \<Rightarrow> string \<Rightarrow> exn + int" where
  "canon_u32 v field =
     bindE (try_int v (api_error VALIDATION_ERROR (field @ '' must be an integer'') 400 [])) (\<lambda>n.
       if \<not> (0 \<le> n \<and> n \<le> 0xFFFFFFFF)
       then Inl (api_error (if contains_str field ''serial'' then SERIAL_INVALID else VALIDATION_ERROR)
         (field @ '' must be 0..4294967295'') 400 [])
       else Inr n)"

subsection \<open>RDATA wire encoding\<close>

text \<open>UTF-8 of code points below 256.\<close>

definition utf8_char :: "char \<Rightarrow> bytes" where
  "utf8_char c = (let n = of_char c :: nat in
     if n < 128 then [word_of_nat n] else [word_of_nat (192 + n div 64), word_of_nat (128 + n mod 64)])"

definition encode_utf8 :: "string \<Rightarrow> bytes" where
  "encode_utf8 s = concat (map utf8_char s)"

function txt_chunks :: "bytes \<Rightarrow> bytes" where
  "txt_chunks text =
     (if text = [] then []
      else let chunk = take 255 text in (word_of_nat (length chunk) # chunk) @ txt_chunks (drop 255 text))"
  by pat_completeness auto
termination by (relation "measure length") auto

declare txt_chunks.simps [simp del]

text \<open>\<open>int(p)\<close> of a part, and \<open>bytes(...)\<close> of the parts: a value outside 0..255 raises.\<close>

fun octet_bytes :: "string list \<Rightarrow> exn + bytes" where
  "octet_bytes [] = Inr []"
| "octet_bytes (p # ps) =
     bindE (int_of_str p) (\<lambda>n.
     if 0 \<le> n \<and> n \<le> 255 then bindE (octet_bytes ps) (\<lambda>b. Inr (word_of_nat (nat n) # b))
     else Inl ValueError)"

definition encode_rdata :: "string \<Rightarrow> rdata \<Rightarrow> exn + bytes" where
  "encode_rdata rtype rd =
     (if rtype = ''A'' then
        (case rd of Address a \<Rightarrow>
           let parts = split_on CHR ''.'' a in
           if length parts \<noteq> 4 then Inl (WireError ''bad IPv4'') else octet_bytes parts
         | _ \<Rightarrow> Inl KeyError)
      else if rtype = ''AAAA'' then
        (case rd of Address a \<Rightarrow>
           (case parse_ipv6 a of None \<Rightarrow> Inl ValueError | Some (hs, _) \<Rightarrow> Inr (concat (map be16 hs)))
         | _ \<Rightarrow> Inl KeyError)
      else if rtype = ''NS'' \<or> rtype = ''CNAME'' then
        (case rd of Target t \<Rightarrow> encode_name t | _ \<Rightarrow> Inl KeyError)
      else if rtype = ''MX'' then
        (case rd of Mx pref ex \<Rightarrow>
           if \<not> (0 \<le> pref \<and> pref \<le> 0xFFFF) then Inl (WireError ''MX preference out of range'')
           else bindE (encode_name ex) (\<lambda>n. Inr (be16 (nat pref) @ n))
         | _ \<Rightarrow> Inl KeyError)
      else if rtype = ''TXT'' then
        (case rd of Text t \<Rightarrow>
           let out = txt_chunks (encode_utf8 t) in Inr (if out = [] then [0] else out)
         | _ \<Rightarrow> Inl KeyError)
      else if rtype = ''SOA'' then
        (case rd of Soa s \<Rightarrow>
           bindE (encode_name (s_mname s)) (\<lambda>m.
           bindE (encode_name (s_rname s)) (\<lambda>r.
           bindE (mapE wire_u32 [s_serial s, s_refresh s, s_retry s, s_expire s, s_minimum s]) (\<lambda>ns.
             Inr (m @ r @ concat (map be32 ns)))))
         | _ \<Rightarrow> Inl KeyError)
      else Inl (WireError (''unsupported type '' @ repr_str rtype)))"

definition rdata_wire_len :: "string \<Rightarrow> rdata \<Rightarrow> exn + nat" where
  "rdata_wire_len rtype rd = bindE (encode_rdata rtype rd) (\<lambda>w. Inr (length w))"

subsection \<open>canonical_rdata\<close>

definition canon_value :: "string \<Rightarrow> (string \<times> json) list \<Rightarrow> string \<Rightarrow> exn + rdata" where
  "canon_value rtype value zone =
     (if rtype = ''A'' then
        (let addr = py_str (obj_get value ''address'' (JStr [])) in
         case parse_ipv4 addr of
           None \<Rightarrow> Inl (api_error VALIDATION_ERROR (''bad IPv4 address: '' @ repr_str addr) 400 [])
         | Some os \<Rightarrow> Inr (Address (ipv4_str os)))
      else if rtype = ''AAAA'' then
        (let addr = py_str (obj_get value ''address'' (JStr [])) in
         case parse_ipv6 addr of
           None \<Rightarrow> Inl (api_error VALIDATION_ERROR (''bad IPv6 address: '' @ repr_str addr) 400 [])
         | Some ip \<Rightarrow> Inr (Address (py_lower (ipv6_compressed ip))))
      else if rtype = ''NS'' \<or> rtype = ''CNAME'' then
        bindE (canonical_target (obj_get value ''target'' (JStr [])) zone) (\<lambda>t. Inr (Target t))
      else if rtype = ''MX'' then
        bindE (canonical_target (obj_get value ''exchange'' (JStr [])) zone) (\<lambda>ex.
        bindE (try_int (obj_get value ''preference'' JNull)
            (api_error VALIDATION_ERROR ''MX preference must be int'' 400 [])) (\<lambda>pref.
          if \<not> (0 \<le> pref \<and> pref \<le> 0xFFFF)
          then Inl (api_error VALIDATION_ERROR ''MX preference must be 0..65535'' 400 [])
          else Inr (Mx pref ex)))
      else if rtype = ''TXT'' then
        (case obj_get value ''text'' (JStr []) of
           JStr text \<Rightarrow>
             if MAX_RDATA_LEN < length (encode_utf8 text)
             then Inl (api_error LIMIT_EXCEEDED ''TXT rdata too large'' 413 [])
             else Inr (Text text)
         | _ \<Rightarrow> Inl (api_error VALIDATION_ERROR ''TXT text must be string'' 400 []))
      else if rtype = ''SOA'' then
        bindE (canonical_target (obj_get value ''mname'' (JStr [])) zone) (\<lambda>m.
        bindE (canonical_target (obj_get value ''rname'' (JStr [])) zone) (\<lambda>r.
        bindE (canon_u32 (obj_get value ''serial'' JNull) ''SOA serial'') (\<lambda>se.
        bindE (canon_u32 (obj_get value ''refresh'' JNull) ''refresh'') (\<lambda>rf.
        bindE (canon_u32 (obj_get value ''retry'' JNull) ''retry'') (\<lambda>rt.
        bindE (canon_u32 (obj_get value ''expire'' JNull) ''expire'') (\<lambda>ex.
        bindE (canon_u32 (obj_get value ''minimum'' JNull) ''minimum'') (\<lambda>mi.
          Inr (Soa \<lparr>s_mname = m, s_rname = r, s_serial = se, s_refresh = rf, s_retry = rt,
            s_expire = ex, s_minimum = mi\<rparr>))))))))
      else Inl (api_error VALIDATION_ERROR (''unsupported type '' @ rtype) 400 []))"

text \<open>\<open>except dnswire.WireError as exc: raise ApiError(VALIDATION_ERROR, ...)\<close>.\<close>

definition wire_to_api :: "string \<Rightarrow> exn + 'a \<Rightarrow> exn + 'a" where
  "wire_to_api rtype r =
     (case r of
        Inl (WireError m) \<Rightarrow> Inl (api_error VALIDATION_ERROR (''bad '' @ rtype @ '' rdata: '' @ m) 400 [])
      | _ \<Rightarrow> r)"

definition canonical_rdata :: "string \<Rightarrow> json \<Rightarrow> string \<Rightarrow> exn + rdata \<times> bytes" where
  "canonical_rdata rtype value zone =
     (case value of
        JObj kvs \<Rightarrow>
          bindE (wire_to_api rtype
             (bindE (canon_value rtype kvs zone) (\<lambda>canon.
              bindE (encode_rdata rtype canon) (\<lambda>wire. Inr (canon, wire))))) (\<lambda>(canon, wire).
          if MAX_RDATA_LEN < length wire then
            Inl (api_error LIMIT_EXCEEDED
              (rtype @ '' rdata length '' @ dec_nat (length wire) @ '' exceeds limit'') 413 [])
          else Inr (canon, wire))
      | _ \<Rightarrow> Inl (api_error VALIDATION_ERROR (rtype @ '' rdata must be an object'') 400 []))"

definition rr_fits_message :: "string \<Rightarrow> string \<Rightarrow> bytes \<Rightarrow> exn + unit" where
  "rr_fits_message name rtype rdata_wire =
     bindE (encode_name name) (\<lambda>n.
     let rr_len = length n + 10 + length rdata_wire; hard_limit = MAX_TCP_MESSAGE - 700 in
     if hard_limit < rr_len then
       Inl (api_error LIMIT_EXCEEDED
         (rtype @ '' RR would not fit a signed DNS message ('' @ dec_nat rr_len @ '' bytes)'') 413
         [(''rrLength'', JInt (int rr_len)), (''limit'', JInt (int hard_limit))])
     else Inr ())"

end
