(* ===== verification/Serial_Arith.thy ===== *)
theory Serial_Arith
  imports Prelude
begin

text \<open>
  \<open>app/serial.py\<close>: RFC 1982 comparison of 32-bit serial numbers.  Serials are Python
  integers; \<open>compare\<close> masks them to 32 bits first.
\<close>

unbundle bit_operations_syntax

datatype serial_relation = EQUAL | GREATER | LESS | UNDECIDABLE

definition MOD32 :: int where "MOD32 = push_bit 32 1"
definition HALF32 :: int where "HALF32 = push_bit 31 1"

definition compare :: "int \<Rightarrow> int \<Rightarrow> serial_relation" where
  "compare s1 s2 =
     (let a = s1 AND 0xFFFFFFFF; b = s2 AND 0xFFFFFFFF in
      if a = b then EQUAL
      else let delta = (b - a) mod MOD32 in
        if 0 < delta \<and> delta < HALF32 then GREATER
        else if HALF32 < delta \<and> delta < MOD32 then LESS
        else UNDECIDABLE)"

definition is_forward :: "int \<Rightarrow> int \<Rightarrow> bool \<times> string option" where
  "is_forward base nxt =
     (let rel = compare base nxt in
      if rel = GREATER then (True, None)
      else if rel = EQUAL then (False, Some ''nextSerial must be greater than baseSerial'')
      else if rel = UNDECIDABLE
        then (False, Some ''serial distance is exactly 2^31 (undecidable per RFC 1982)'')
      else (False, Some ''nextSerial is behind baseSerial in serial-number arithmetic''))"

lemma mask32: "(s :: int) AND 0xFFFFFFFF = s mod 2 ^ 32"
proof -
  have m: "(0xFFFFFFFF :: int) = mask 32" by (simp add: mask_eq_exp_minus_1)
  show ?thesis unfolding m by (simp only: take_bit_eq_mask [symmetric] take_bit_eq_mod)
qed

lemma MOD32_eq [simp]: "MOD32 = 2 ^ 32" and HALF32_eq [simp]: "HALF32 = 2 ^ 31"
  by (simp_all add: MOD32_def HALF32_def)

text \<open>One residue decides the relation.\<close>

lemma compare_delta:
  "compare s1 s2 =
     (let d = (s2 - s1) mod 2 ^ 32 in
      if d = 0 then EQUAL else if d < 2 ^ 31 then GREATER else if d = 2 ^ 31 then UNDECIDABLE else LESS)"
proof -
  have d: "(s2 mod 2 ^ 32 - s1 mod 2 ^ 32) mod 2 ^ 32 = (s2 - s1) mod (2 ^ 32 :: int)"
    by (rule mod_diff_eq)
  have e: "s1 mod 2 ^ 32 = s2 mod 2 ^ 32 \<longleftrightarrow> (s2 - s1) mod (2 ^ 32 :: int) = 0"
    by (metis mod_eq_dvd_iff mod_eq_0_iff_dvd)
  have nn: "0 \<le> (s2 - s1) mod (2 ^ 32 :: int)" "(s2 - s1) mod (2 ^ 32 :: int) < 2 ^ 32" by auto
  show ?thesis
    unfolding compare_def Let_def mask32 d MOD32_eq HALF32_eq e using nn by auto
qed

lemma compare_GREATER_iff:
  "compare s1 s2 = GREATER \<longleftrightarrow> 0 < (s2 - s1) mod 2 ^ 32 \<and> (s2 - s1) mod 2 ^ 32 < 2 ^ 31"
proof -
  have "0 \<le> (s2 - s1) mod (2 ^ 32 :: int)" by simp
  then show ?thesis unfolding compare_delta Let_def by auto
qed

lemma compare_EQUAL_iff: "compare s1 s2 = EQUAL \<longleftrightarrow> s1 mod 2 ^ 32 = s2 mod 2 ^ 32"
  unfolding compare_delta Let_def by (auto simp: mod_eq_dvd_iff mod_eq_0_iff_dvd dvd_diff_commute)

lemma is_forward_iff: "fst (is_forward b n) \<longleftrightarrow> compare b n = GREATER"
  by (simp add: is_forward_def Let_def)

end
