(* ===== verification/Store.thy ===== *)
theory Store
  imports Canonical Serial_Arith
begin

text \<open>
  The database of \<open>migrations/0001_init.sql\<close> and the zone operations of
  \<open>app/storage.py\<close>.  A table is the list of its rows in insertion order; a statement
  is a list function.  An operation takes the committed database and returns its result
  with the database it leaves committed (\<open>BEGIN IMMEDIATE\<close> serialises operations).
  The TEXT column \<open>rdata\<close> holds canonical JSON; a row keeps the value, which the text
  determines (\<open>rdata_text_inj\<close>), and values are ordered as their texts.  Timestamps are parameters.
\<close>

subsection \<open>Tables\<close>

record zone_row =
  z_name :: string
  z_current_serial :: int
  z_current_version :: int
  z_retain_versions :: int
  z_record_count :: int
  z_rrset_count :: int
  z_created_at :: int
  z_updated_at :: int

record version_row =
  v_zone :: string
  v_version_id :: int
  v_serial :: int
  v_request_id :: string
  v_created_at :: int

record record_row =
  r_zone :: string
  r_version_id :: int
  r_name :: string
  r_rtype :: string
  r_ttl :: int
  r_rdata :: rdata
  r_rdata_wire :: bytes

datatype change_op = DEL | ADD

record change_row =
  c_zone :: string
  c_version_id :: int
  c_seq :: int
  c_op :: change_op
  c_name :: string
  c_rtype :: string
  c_ttl :: int
  c_rdata :: rdata
  c_rdata_wire :: bytes

text \<open>
  The columns \<open>version_id\<close> and \<open>serial\<close> are set in COMMITTED rows only, the error
  columns in FAILED rows only; the status carries them.
\<close>

datatype request_status = COMMITTED int int | FAILED api_error

record request_row =
  p_zone :: string
  p_request_id :: string
  p_fingerprint :: string
  p_status :: request_status
  p_base_serial :: int
  p_next_serial :: int
  p_created_at :: int

datatype key_state = ACTIVE | RETIRING | REVOKED

record key_row =
  k_zone :: string
  k_key_id :: string
  k_gen :: int
  k_key_name :: string
  k_secret :: bytes
  k_state :: key_state
  k_created_at :: int
  k_expires_at :: "int option"
  k_revoked_at :: "int option"

datatype ref_state = OPEN | REF_DONE

record ref_row =
  f_ref_id :: string
  f_zone :: string
  f_instance_id :: string
  f_version_id :: int
  f_min_version :: int
  f_key_gen :: int
  f_started_at :: int
  f_last_seen :: int
  f_state :: ref_state

datatype task_state = PENDING | RUNNING | TASK_DONE

record task_row =
  t_task_id :: nat
  t_zone :: string
  t_state :: task_state
  t_token :: "string option"
  t_leased_at :: "int option"
  t_lease_expires :: "int option"
  t_attempts :: int
  t_last_error :: "string option"
  t_created_at :: int
  t_finished_at :: "int option"

record db =
  zones :: "zone_row list"
  versions :: "version_row list"
  records :: "record_row list"
  changes :: "change_row list"
  publish_requests :: "request_row list"
  keys :: "key_row list"
  transfer_refs :: "ref_row list"
  cleanup_tasks :: "task_row list"
  next_task_id :: nat

definition empty_db :: db where
  "empty_db = \<lparr>zones = [], versions = [], records = [], changes = [], publish_requests = [],
     keys = [], transfer_refs = [], cleanup_tasks = [], next_task_id = 1\<rparr>"

subsection \<open>Keyed inserts\<close>

text \<open>An INSERT into a table with a primary key or a unique index raises on a duplicate.\<close>

definition insert_unique :: "('r \<Rightarrow> 'k) \<Rightarrow> 'r \<Rightarrow> 'r list \<Rightarrow> exn + 'r list" where
  "insert_unique key r tab = (if key r \<in> set (map key tab) then Inl IntegrityError else Inr (tab @ [r]))"

fun insert_all :: "('r \<Rightarrow> 'k) \<Rightarrow> 'r list \<Rightarrow> 'r list \<Rightarrow> exn + 'r list" where
  "insert_all key [] tab = Inr tab"
| "insert_all key (r # rs) tab = bindE (insert_unique key r tab) (insert_all key rs)"

definition record_key :: "record_row \<Rightarrow> string \<times> int \<times> string \<times> string \<times> rdata" where
  "record_key r = (r_zone r, r_version_id r, r_name r, r_rtype r, r_rdata r)"

definition version_key :: "version_row \<Rightarrow> string \<times> int" where
  "version_key v = (v_zone v, v_version_id v)"

definition version_serial_key :: "version_row \<Rightarrow> string \<times> int" where
  "version_serial_key v = (v_zone v, v_serial v)"

definition request_key :: "request_row \<Rightarrow> string \<times> string" where
  "request_key p = (p_zone p, p_request_id p)"

definition key_key :: "key_row \<Rightarrow> string \<times> string" where
  "key_key k = (k_zone k, k_key_id k)"

definition change_key :: "change_row \<Rightarrow> string \<times> int \<times> int" where
  "change_key c = (c_zone c, c_version_id c, c_seq c)"

definition insert_version :: "version_row \<Rightarrow> version_row list \<Rightarrow> exn + version_row list" where
  "insert_version v tab =
     (if version_serial_key v \<in> set (map version_serial_key tab) then Inl IntegrityError
      else insert_unique version_key v tab)"

definition enqueue_cleanup :: "int \<Rightarrow> string \<Rightarrow> db \<Rightarrow> db" where
  "enqueue_cleanup ts zone d =
     d\<lparr>cleanup_tasks := cleanup_tasks d @
         [\<lparr>t_task_id = next_task_id d, t_zone = zone, t_state = PENDING, t_token = None,
           t_leased_at = None, t_lease_expires = None, t_attempts = 0, t_last_error = None,
           t_created_at = ts, t_finished_at = None\<rparr>],
       next_task_id := next_task_id d + 1\<rparr>"

subsection \<open>Selects\<close>

definition find_zone :: "db \<Rightarrow> string \<Rightarrow> zone_row option" where
  "find_zone d zone = find (\<lambda>z. z_name z = zone) (zones d)"

definition records_of :: "db \<Rightarrow> string \<Rightarrow> int \<Rightarrow> record_row list" where
  "records_of d zone vid = filter (\<lambda>r. r_zone r = zone \<and> r_version_id r = vid) (records d)"

definition changes_of :: "db \<Rightarrow> string \<Rightarrow> int \<Rightarrow> change_row list" where
  "changes_of d zone vid = filter (\<lambda>c. c_zone c = zone \<and> c_version_id c = vid) (changes d)"

definition zone_not_found :: "string \<Rightarrow> exn" where
  "zone_not_found zone = api_error ZONE_NOT_FOUND (''zone '' @ zone @ '' not found'') 404 []"

definition list_zones :: "db \<Rightarrow> zone_row list" where
  "list_zones d = sort_key z_name (zones d)"

definition get_zone_row :: "string \<Rightarrow> db \<Rightarrow> exn + zone_row" where
  "get_zone_row zone d = (case find_zone d zone of None \<Rightarrow> Inl (zone_not_found zone) | Some z \<Rightarrow> Inr z)"

definition is_apex_soa :: "string \<Rightarrow> record_row \<Rightarrow> bool" where
  "is_apex_soa zone r = (r_name r = zone \<and> r_rtype r = ''SOA'')"

definition find_soa :: "db \<Rightarrow> string \<Rightarrow> int \<Rightarrow> record_row option" where
  "find_soa d zone vid = find (is_apex_soa zone) (records_of d zone vid)"

definition get_soa :: "string \<Rightarrow> int \<Rightarrow> db \<Rightarrow> exn + record_row" where
  "get_soa zone vid d =
     (case find_soa d zone vid of
        None \<Rightarrow> Inl (api_error INTERNAL ''SOA missing in snapshot'' 400 [])
      | Some r \<Rightarrow> Inr r)"

definition version_by_serial :: "db \<Rightarrow> string \<Rightarrow> int \<Rightarrow> version_row option" where
  "version_by_serial d zone serial = find (\<lambda>v. v_zone v = zone \<and> v_serial v = serial) (versions d)"

text \<open>\<open>ORDER BY name,rtype,rdata\<close> and \<open>ORDER BY seq\<close>.\<close>

definition iter_snapshot :: "db \<Rightarrow> string \<Rightarrow> int \<Rightarrow> record_row list" where
  "iter_snapshot d zone vid =
     sort_key (\<lambda>r. (r_name r, r_rtype r, r_rdata r)) (records_of d zone vid)"

definition iter_changes :: "db \<Rightarrow> string \<Rightarrow> int \<Rightarrow> change_row list" where
  "iter_changes d zone vid = sort_key c_seq (changes_of d zone vid)"

text \<open>Longest enclosing zone, the first of equal length in table order.\<close>

definition better_zone :: "string \<Rightarrow> zone_row option \<Rightarrow> zone_row \<Rightarrow> zone_row option" where
  "better_zone name best z =
     (let zn = z_name z in
      if name = zn \<or> ends_with name (''.'' @ zn) then
        (case best of None \<Rightarrow> Some z
         | Some b \<Rightarrow> if length (z_name b) < length zn then Some z else best)
      else best)"

definition find_zone_by_name :: "string \<Rightarrow> db \<Rightarrow> zone_row option" where
  "find_zone_by_name name d = foldl (better_zone (py_lower name)) None (zones d)"

subsection \<open>create_zone\<close>

text \<open>\<open>soa["serial"] = serial\<close> on a copy of the request's SOA object.\<close>

definition obj_set :: "string \<Rightarrow> json \<Rightarrow> (string \<times> json) list \<Rightarrow> (string \<times> json) list" where
  "obj_set k v kvs = AList.update k v kvs"

fun ns_rows :: "string \<Rightarrow> json list \<Rightarrow> string list \<Rightarrow> exn + (string \<times> int \<times> rdata \<times> bytes) list" where
  "ns_rows zone [] seen = Inr []"
| "ns_rows zone (target # rest) seen =
     bindE (canonical_target target zone) (\<lambda>t.
     if t \<in> set seen then ns_rows zone rest seen
     else bindE (canonical_rdata ''NS'' (JObj [(''target'', JStr t)]) zone) (\<lambda>(rj, rw).
       bindE (ns_rows zone rest (t # seen)) (\<lambda>rows. Inr ((''NS'', 3600, rj, rw) # rows))))"

definition zone_exists_error :: "string \<Rightarrow> exn" where
  "zone_exists_error zone = api_error ZONE_ALREADY_EXISTS (''zone '' @ zone @ '' already exists'') 409 []"

definition create_rows :: "string \<Rightarrow> int \<Rightarrow> (string \<times> json) list \<Rightarrow> json list
    \<Rightarrow> exn + (string \<times> int \<times> rdata \<times> bytes) list" where
  "create_rows zone serial soa ns_targets =
     bindE (canonical_rdata ''SOA'' (JObj (obj_set ''serial'' (JInt serial) soa)) zone) (\<lambda>(sj, sw).
     bindE (py_int (obj_get (obj_set ''serial'' (JInt serial) soa) ''_ttl'' (JInt 3600))) (\<lambda>ttl.
     bindE (ns_rows zone ns_targets []) (\<lambda>rows. Inr ((''SOA'', ttl, sj, sw) # rows))))"

definition create_row :: "string \<Rightarrow> string \<times> int \<times> rdata \<times> bytes \<Rightarrow> record_row" where
  "create_row zone row = (case row of (rtype, ttl, rj, rw) \<Rightarrow>
     \<lparr>r_zone = zone, r_version_id = 0, r_name = zone, r_rtype = rtype, r_ttl = ttl, r_rdata = rj,
       r_rdata_wire = rw\<rparr>)"

text \<open>
  The transaction.  An \<open>IntegrityError\<close> of an insert rolls back; the zone is looked up
  again, and the error is INTERNAL when it is not there (its message ends with SQLite's text,
  which is left out).
\<close>

definition create_zone ::
  "int \<Rightarrow> string \<Rightarrow> int \<Rightarrow> (string \<times> json) list \<Rightarrow> json list \<Rightarrow> int \<Rightarrow> db \<Rightarrow> (exn + unit) \<times> db" where
  "create_zone ts zone serial soa ns_targets retain d =
     (case create_rows zone serial soa ns_targets of
        Inl e \<Rightarrow> (Inl e, d)
      | Inr rr_rows \<Rightarrow>
        if find_zone d zone \<noteq> None then (Inl (zone_exists_error zone), d)
        else case
          bindE (insert_version \<lparr>v_zone = zone, v_version_id = 0, v_serial = serial,
              v_request_id = ''__create__'', v_created_at = ts\<rparr> (versions d)) (\<lambda>vs.
          bindE (insert_all record_key (map (create_row zone) rr_rows) (records d)) (\<lambda>rs.
            Inr (d\<lparr>zones := zones d @ [\<lparr>z_name = zone, z_current_serial = serial, z_current_version = 0,
                  z_retain_versions = retain, z_record_count = int (length rr_rows), z_rrset_count = 2,
                  z_created_at = ts, z_updated_at = ts\<rparr>],
                versions := vs, records := rs\<rparr>))) of
          Inl e \<Rightarrow>
            (Inl (if find_zone d zone \<noteq> None then zone_exists_error zone
                  else api_error INTERNAL ''zone creation failed: '' 500 []), d)
        | Inr d' \<Rightarrow> (Inr (), d'))"

subsection \<open>Retention\<close>

definition update_zone :: "string \<Rightarrow> (zone_row \<Rightarrow> zone_row) \<Rightarrow> zone_row list \<Rightarrow> zone_row list" where
  "update_zone zone f = map (\<lambda>z. if z_name z = zone then f z else z)"

definition set_retention :: "int \<Rightarrow> int \<Rightarrow> string \<Rightarrow> int \<Rightarrow> db \<Rightarrow> (exn + unit) \<times> db" where
  "set_retention now now' zone retain d =
     (case get_zone_row zone d of
        Inl e \<Rightarrow> (Inl e, d)
      | Inr _ \<Rightarrow>
        (Inr (), enqueue_cleanup now' zone
          (d\<lparr>zones := update_zone zone (\<lambda>z. z\<lparr>z_retain_versions := retain, z_updated_at := now\<rparr>) (zones d)\<rparr>)))"

subsection \<open>Metadata\<close>

record zone_meta =
  zm_row :: zone_row
  zm_soa :: rdata
  zm_ns :: "string list"

fun target_of :: "rdata \<Rightarrow> exn + string" where
  "target_of (Target t) = Inr t"
| "target_of _ = Inl KeyError"

definition zone_metadata :: "string \<Rightarrow> db \<Rightarrow> exn + zone_meta" where
  "zone_metadata zone d =
     bindE (get_zone_row zone d) (\<lambda>z.
     bindE (get_soa zone (z_current_version z) d) (\<lambda>soa.
     bindE (mapE (\<lambda>r. target_of (r_rdata r))
         (sort_key r_rdata
           (filter (\<lambda>r. r_name r = zone \<and> r_rtype r = ''NS'') (records_of d zone (z_current_version z))))) (\<lambda>ns.
       Inr \<lparr>zm_row = z, zm_soa = r_rdata soa, zm_ns = ns\<rparr>)))"

end
