(* ===== verification/Publish.thy ===== *)
theory Publish
  imports Store
begin

text \<open>
  \<open>Database.publish\<close> of \<open>app/storage.py\<close>: the changeset is applied to the RRsets of the
  current version, validated, and materialised as a new full snapshot with its delta rows,
  in one transaction; outcomes go to the idempotency ledger.
\<close>

subsection \<open>RRsets\<close>

text \<open>
  \<open>rrsets\<close> is the source's dictionary of dictionaries, in insertion order: name, then type,
  then the TTL with the entries (canonical text and wire form).  \<open>changed\<close> is a set, kept
  as a list without repetition.
\<close>

type_synonym entry = "rdata \<times> bytes"
type_synonym rrset = "int \<times> entry list"
type_synonym rrsets = "(string \<times> (string \<times> rrset) list) list"
type_synonym rrkey = "string \<times> string"

definition types_at :: "rrsets \<Rightarrow> string \<Rightarrow> (string \<times> rrset) list" where
  "types_at rs name = (case map_of rs name of None \<Rightarrow> [] | Some ts \<Rightarrow> ts)"

definition rr_lookup :: "rrsets \<Rightarrow> string \<Rightarrow> string \<Rightarrow> rrset option" where
  "rr_lookup rs name rtype = map_of (types_at rs name) rtype"

definition rr_store :: "rrsets \<Rightarrow> string \<Rightarrow> string \<Rightarrow> rrset \<Rightarrow> rrsets" where
  "rr_store rs name rtype s = AList.update name (AList.update rtype s (types_at rs name)) rs"

definition rr_remove :: "rrsets \<Rightarrow> string \<Rightarrow> string \<Rightarrow> rrsets" where
  "rr_remove rs name rtype =
     (let ts = AList.delete rtype (types_at rs name) in
      if ts = [] then AList.delete name rs else AList.update name ts rs)"

definition load_row :: "rrsets \<Rightarrow> record_row \<Rightarrow> rrsets" where
  "load_row rs r =
     (let (ttl, es) = (case rr_lookup rs (r_name r) (r_rtype r) of None \<Rightarrow> (r_ttl r, []) | Some s \<Rightarrow> s) in
      rr_store rs (r_name r) (r_rtype r) (ttl, es @ [(r_rdata r, r_rdata_wire r)]))"

definition load_rrsets :: "db \<Rightarrow> string \<Rightarrow> int \<Rightarrow> rrsets" where
  "load_rrsets d zone vid =
     foldl load_row [] (sort_key r_rdata (records_of d zone vid))"

subsection \<open>_apply_ops\<close>

definition op_error :: "nat \<Rightarrow> string \<Rightarrow> exn" where
  "op_error idx msg = api_error VALIDATION_ERROR (''op '' @ dec_nat idx @ msg) 400 []"

fun canon_records :: "nat \<Rightarrow> string \<Rightarrow> string \<Rightarrow> string \<Rightarrow> json list \<Rightarrow> rdata list \<Rightarrow> exn + entry list" where
  "canon_records idx zone name rtype [] seen = Inr []"
| "canon_records idx zone name rtype (val # vals) seen =
     bindE (canonical_rdata rtype val zone) (\<lambda>(rj, rw).
     bindE (rr_fits_message name rtype rw) (\<lambda>_.
     if rj \<in> set seen then
       Inl (api_error CHANGESET_INVALID (''op '' @ dec_nat idx @ '': duplicate RDATA in RRset'') 400 [])
     else bindE (canon_records idx zone name rtype vals (rj # seen)) (\<lambda>es.
       Inr ((rj, rw) # es))))"

definition apply_delete :: "string \<Rightarrow> string \<Rightarrow> rrsets \<times> rrkey list \<Rightarrow> rrsets \<times> rrkey list" where
  "apply_delete name rtype st = (case st of (rs, changed) \<Rightarrow>
     if rr_lookup rs name rtype \<noteq> None \<and> (name, rtype) \<notin> set changed
     then (rr_remove rs name rtype, List.insert (name, rtype) changed)
     else (rs, changed))"

definition apply_replace ::
  "string \<Rightarrow> string \<Rightarrow> int \<Rightarrow> entry list \<Rightarrow> rrsets \<times> rrkey list \<Rightarrow> rrsets \<times> rrkey list" where
  "apply_replace name rtype ttl entries st = (case st of (rs, changed) \<Rightarrow>
     let old = rr_lookup rs name rtype;
         changed' = (if old = None \<or> old \<noteq> Some (ttl, entries)
                     then List.insert (name, rtype) changed else changed) in
     if entries \<noteq> [] then (rr_store rs name rtype (ttl, entries), changed')
     else if old \<noteq> None then (rr_remove rs name rtype, changed')
     else (rs, changed'))"

definition apply_op :: "string \<Rightarrow> nat \<Rightarrow> json \<Rightarrow> rrsets \<times> rrkey list \<Rightarrow> exn + rrsets \<times> rrkey list" where
  "apply_op zone idx op st =
     (case op of
        JObj kvs \<Rightarrow>
          (let action = py_lower (py_str (obj_get kvs ''action'' (JStr []))) in
           bindE (canonical_name (obj_get kvs ''name'' (JStr [])) zone) (\<lambda>name.
           let rtype = py_upper (py_str (obj_get kvs ''type'' (JStr []))) in
           if rtype \<notin> set SUPPORTED_TYPES then Inl (op_error idx ('': unsupported type '' @ repr_str rtype))
           else if action = ''delete'' then Inr (apply_delete name rtype st)
           else if action = ''replace'' then
             bindE (check_ttl (obj_get kvs ''ttl'' (JInt 3600))) (\<lambda>ttl.
             case obj_get kvs ''records'' (JList []) of
               JList vals \<Rightarrow>
                 bindE (canon_records idx zone name rtype vals []) (\<lambda>entries.
                   Inr (apply_replace name rtype ttl entries st))
             | _ \<Rightarrow> Inl (op_error idx '': records must be a list''))
           else Inl (op_error idx ('': action must be '' @ repr_str ''replace'' @ ''|'' @ repr_str ''delete''))))
      | _ \<Rightarrow> Inl (op_error idx '' must be an object''))"

fun apply_op_list :: "string \<Rightarrow> nat \<Rightarrow> json list \<Rightarrow> rrsets \<times> rrkey list \<Rightarrow> exn + rrsets \<times> rrkey list" where
  "apply_op_list zone idx [] st = Inr st"
| "apply_op_list zone idx (op # ops) st =
     bindE (apply_op zone idx op st) (\<lambda>st'. apply_op_list zone (idx + 1) ops st')"

definition changes_not_list :: exn where
  "changes_not_list = api_error CHANGESET_INVALID ''changes must be a non-empty list'' 400 []"

definition apply_ops :: "string \<Rightarrow> json \<Rightarrow> rrsets \<times> rrkey list \<Rightarrow> exn + rrsets \<times> rrkey list" where
  "apply_ops zone ops st =
     (case ops of
        JList os \<Rightarrow> if os = [] then Inl changes_not_list else apply_op_list zone 0 os st
      | _ \<Rightarrow> Inl changes_not_list)"

subsection \<open>_validate_zone_invariants\<close>

definition cname_conflict :: "string \<Rightarrow> (string \<times> rrset) list \<Rightarrow> exn" where
  "cname_conflict name ts =
     api_error ZONE_INVALID
       (''CNAME at '' @ name @ '' cannot coexist with other data (''
         @ py_repr (JList (map JStr (sort (filter (\<lambda>t. t \<noteq> ''CNAME'') (map fst ts))))) @ '')'') 422
       [(''name'', JStr name)]"

fun check_cnames :: "rrsets \<Rightarrow> exn + unit" where
  "check_cnames [] = Inr ()"
| "check_cnames ((name, ts) # rest) =
     (case map_of ts ''CNAME'' of
        None \<Rightarrow> check_cnames rest
      | Some s \<Rightarrow>
        if 1 < length ts then Inl (cname_conflict name ts)
        else if 1 < length (snd s) then
          Inl (api_error ZONE_INVALID (''CNAME RRset at '' @ name @ '' must contain one record'') 422 [])
        else check_cnames rest)"

fun serial_of :: "rdata \<Rightarrow> exn + int" where
  "serial_of (Soa s) = Inr (s_serial s)"
| "serial_of _ = Inl KeyError"

definition validate_zone_invariants :: "string \<Rightarrow> rrsets \<Rightarrow> int \<Rightarrow> exn + unit" where
  "validate_zone_invariants zone rs next_serial =
     (case rr_lookup rs zone ''SOA'' of
        Some (_, [(rj, rw)]) \<Rightarrow>
          bindE (serial_of rj) (\<lambda>serial.
          if serial \<noteq> next_serial then
            Inl (api_error SERIAL_INVALID
              (''SOA serial '' @ dec_int serial @ '' must equal nextSerial '' @ dec_int next_serial) 422
              [(''soaSerial'', JInt serial), (''nextSerial'', JInt next_serial)])
          else if (case rr_lookup rs zone ''NS'' of None \<Rightarrow> True | Some s \<Rightarrow> snd s = []) then
            Inl (api_error ZONE_INVALID ''zone apex must have at least one NS record'' 422 [])
          else check_cnames rs)
      | _ \<Rightarrow> Inl (api_error ZONE_INVALID ''zone apex must have exactly one SOA record'' 422 []))"

subsection \<open>_materialize\<close>

definition count_records :: "rrsets \<Rightarrow> nat" where
  "count_records rs = (\<Sum>(name, ts) \<leftarrow> rs. \<Sum>(rtype, s) \<leftarrow> ts. length (snd s))"

definition count_rrsets :: "rrsets \<Rightarrow> nat" where
  "count_rrsets rs = (\<Sum>(name, ts) \<leftarrow> rs. length ts)"

definition in_rrset :: "string \<Rightarrow> int \<Rightarrow> string \<Rightarrow> string \<Rightarrow> record_row \<Rightarrow> bool" where
  "in_rrset zone vid name rtype r =
     (r_zone r = zone \<and> r_version_id r = vid \<and> r_name r = name \<and> r_rtype r = rtype)"

definition entry_row :: "string \<Rightarrow> int \<Rightarrow> string \<Rightarrow> string \<Rightarrow> int \<Rightarrow> entry \<Rightarrow> record_row" where
  "entry_row zone vid name rtype ttl e =
     \<lparr>r_zone = zone, r_version_id = vid, r_name = name, r_rtype = rtype, r_ttl = ttl,
       r_rdata = fst e, r_rdata_wire = snd e\<rparr>"

definition rrset_rows :: "string \<Rightarrow> int \<Rightarrow> rrsets \<Rightarrow> rrkey \<Rightarrow> record_row list" where
  "rrset_rows zone vid rs k =
     (case rr_lookup rs (fst k) (snd k) of None \<Rightarrow> []
      | Some (ttl, es) \<Rightarrow> map (entry_row zone vid (fst k) (snd k) ttl) es)"

text \<open>For every changed key: DELETE its rows of the new version, INSERT the new ones.\<close>

fun rewrite_changed ::
  "string \<Rightarrow> int \<Rightarrow> rrsets \<Rightarrow> rrkey list \<Rightarrow> record_row list \<Rightarrow> exn + record_row list" where
  "rewrite_changed zone vid rs [] tab = Inr tab"
| "rewrite_changed zone vid rs (k # ks) tab =
     bindE (insert_all record_key (rrset_rows zone vid rs k)
         (filter (\<lambda>r. \<not> in_rrset zone vid (fst k) (snd k) r) tab)) (\<lambda>tab'.
       rewrite_changed zone vid rs ks tab')"

type_synonym delta_row = "string \<times> string \<times> int \<times> rdata \<times> bytes"

definition apex_soa_first :: "string \<Rightarrow> rrkey \<Rightarrow> nat \<times> string \<times> string" where
  "apex_soa_first zone k = (if fst k = zone \<and> snd k = ''SOA'' then 0 else 1, fst k, snd k)"

definition delta_keys :: "string \<Rightarrow> rrkey list \<Rightarrow> rrkey list" where
  "delta_keys zone changed = sort_key (apex_soa_first zone) changed"

definition delete_rows :: "db \<Rightarrow> string \<Rightarrow> int \<Rightarrow> rrkey \<Rightarrow> delta_row list" where
  "delete_rows d zone old k =
     map (\<lambda>r. (fst k, snd k, r_ttl r, r_rdata r, r_rdata_wire r))
       (sort_key r_rdata
         (filter (\<lambda>r. r_name r = fst k \<and> r_rtype r = snd k) (records_of d zone old)))"

definition add_rows :: "rrsets \<Rightarrow> rrkey \<Rightarrow> delta_row list" where
  "add_rows rs k =
     (case rr_lookup rs (fst k) (snd k) of None \<Rightarrow> []
      | Some (ttl, es) \<Rightarrow>
        map (\<lambda>e. (fst k, snd k, ttl, fst e, snd e)) (sort es))"

definition delta :: "db \<Rightarrow> string \<Rightarrow> int \<Rightarrow> rrsets \<Rightarrow> rrkey list \<Rightarrow> (change_op \<times> delta_row) list" where
  "delta d zone old rs changed =
     (let ks = delta_keys zone changed in
      map (Pair DEL) (concat (map (delete_rows d zone old) ks)) @
      map (Pair ADD) (concat (map (add_rows rs) ks)))"

fun number_changes :: "string \<Rightarrow> int \<Rightarrow> int \<Rightarrow> (change_op \<times> delta_row) list \<Rightarrow> change_row list" where
  "number_changes zone vid seq [] = []"
| "number_changes zone vid seq ((op, name, rtype, ttl, rj, rw) # rows) =
     \<lparr>c_zone = zone, c_version_id = vid, c_seq = seq + 1, c_op = op, c_name = name, c_rtype = rtype,
       c_ttl = ttl, c_rdata = rj, c_rdata_wire = rw\<rparr> # number_changes zone vid (seq + 1) rows"

definition materialize :: "string \<Rightarrow> int \<Rightarrow> int \<Rightarrow> rrsets \<Rightarrow> rrkey list \<Rightarrow> db \<Rightarrow> exn + db" where
  "materialize zone old new rs changed d =
     bindE (insert_all record_key (map (\<lambda>r. r\<lparr>r_version_id := new\<rparr>) (records_of d zone old)) (records d)) (\<lambda>tab.
     bindE (rewrite_changed zone new rs changed tab) (\<lambda>tab'.
     let d' = d\<lparr>records := tab'\<rparr> in
     bindE (insert_all change_key (number_changes zone new 0 (delta d' zone old rs changed)) (changes d)) (\<lambda>cs.
       Inr (d'\<lparr>changes := cs\<rparr>))))"

subsection \<open>The ledger\<close>

definition LEDGERABLE_FAILURES :: "error_code list" where
  "LEDGERABLE_FAILURES = [VERSION_CONFLICT, SERIAL_INVALID, SERIAL_UNDECIDABLE, ZONE_INVALID,
     CHANGESET_INVALID, LIMIT_EXCEEDED]"

definition find_request :: "db \<Rightarrow> string \<Rightarrow> string \<Rightarrow> request_row option" where
  "find_request d zone rid = find (\<lambda>p. p_zone p = zone \<and> p_request_id p = rid) (publish_requests d)"

record publish_result =
  pr_zone :: string
  pr_request_id :: string
  pr_version_id :: int
  pr_serial :: int
  pr_replayed :: bool

definition ledger_result :: "request_row \<Rightarrow> exn + publish_result" where
  "ledger_result l =
     (case p_status l of
        COMMITTED vid serial \<Rightarrow>
          Inr \<lparr>pr_zone = p_zone l, pr_request_id = p_request_id l, pr_version_id = vid,
            pr_serial = serial, pr_replayed = True\<rparr>
      | FAILED e \<Rightarrow>
          Inl (api_error (ae_code e)
            (if ae_message e = [] then ''request previously failed'' else ae_message e)
            (if ae_http_status e = 0 then 409 else ae_http_status e)
            (obj_set ''replayed'' (JBool True) (ae_details e))))"

definition request_entry ::
  "int \<Rightarrow> string \<Rightarrow> string \<Rightarrow> string \<Rightarrow> request_status \<Rightarrow> int \<Rightarrow> int \<Rightarrow> request_row" where
  "request_entry ts zone rid fp st base next =
     \<lparr>p_zone = zone, p_request_id = rid, p_fingerprint = fp, p_status = st, p_base_serial = base,
       p_next_serial = next, p_created_at = ts\<rparr>"

definition idempotency_conflict :: "request_row \<Rightarrow> exn" where
  "idempotency_conflict l =
     api_error IDEMPOTENCY_CONFLICT
       (''requestId '' @ repr_str (p_request_id l) @ '' was already used with different content'') 409
       [(''requestId'', JStr (p_request_id l)),
        (''originalStatus'', JStr (case p_status l of COMMITTED _ _ \<Rightarrow> ''COMMITTED'' | FAILED _ \<Rightarrow> ''FAILED''))]"

text \<open>
  \<open>_fail_or_rollback\<close>: \<open>d0\<close> is the database before the transaction, \<open>d\<close> the state the
  transaction has reached.  A semantic failure inserts a FAILED row and commits what the
  transaction holds; anything else rolls back to \<open>d0\<close>.
\<close>

definition fail_or_rollback ::
  "int \<Rightarrow> string \<Rightarrow> string \<Rightarrow> string \<Rightarrow> int \<Rightarrow> int \<Rightarrow> api_error \<Rightarrow> db \<Rightarrow> db \<Rightarrow> db" where
  "fail_or_rollback ts zone rid fp base next e d0 d =
     (if ae_code e \<in> set LEDGERABLE_FAILURES \<and> find_request d zone rid = None
      then d\<lparr>publish_requests := publish_requests d @ [request_entry ts zone rid fp (FAILED e) base next]\<rparr>
      else d0)"

subsection \<open>publish\<close>

fun relation_name :: "serial_relation \<Rightarrow> string" where
  "relation_name EQUAL = ''EQUAL''"
| "relation_name GREATER = ''GREATER''"
| "relation_name LESS = ''LESS''"
| "relation_name UNDECIDABLE = ''UNDECIDABLE''"

definition check_forward :: "int \<Rightarrow> int \<Rightarrow> exn + unit" where
  "check_forward base next =
     (case is_forward base next of
        (True, _) \<Rightarrow> Inr ()
      | (False, msg) \<Rightarrow>
        let m = (case msg of None \<Rightarrow> [] | Some m \<Rightarrow> m) in
        Inl (api_error (if contains_str m ''undecidable'' then SERIAL_UNDECIDABLE else SERIAL_INVALID) m 422
          [(''baseSerial'', JInt base), (''nextSerial'', JInt next)]))"

definition check_base :: "int \<Rightarrow> int \<Rightarrow> exn + unit" where
  "check_base cur_serial base =
     (let rel = compare cur_serial base in
      if rel \<noteq> EQUAL then
        Inl (api_error VERSION_CONFLICT
          (''baseSerial '' @ dec_int base @ '' is not current; current is '' @ dec_int cur_serial) 409
          [(''currentSerial'', JInt cur_serial), (''baseSerial'', JInt base),
           (''relation'', JStr (relation_name rel)),
           (''hint'', JStr ''rebase onto currentSerial and resubmit with a new requestId'')])
      else Inr ())"

text \<open>Everything the transaction computes before it writes.\<close>

definition plan_publish :: "db \<Rightarrow> zone_row \<Rightarrow> int \<Rightarrow> int \<Rightarrow> json \<Rightarrow> exn + rrsets \<times> rrkey list" where
  "plan_publish d z base next ops =
     (let zone = z_name z in
      bindE (check_forward base next) (\<lambda>_.
      bindE (check_base (z_current_serial z) base) (\<lambda>_.
      bindE (apply_ops zone ops (load_rrsets d zone (z_current_version z), [])) (\<lambda>(rs, changed).
      bindE (validate_zone_invariants zone rs next) (\<lambda>_.
      let total = count_records rs in
      if MAX_RECORDS_PER_ZONE < total then
        Inl (api_error LIMIT_EXCEEDED
          (''zone would hold '' @ dec_nat total @ '' records; limit '' @ dec_nat MAX_RECORDS_PER_ZONE) 413
          [(''limit'', JInt (int MAX_RECORDS_PER_ZONE)), (''count'', JInt (int total))])
      else Inr (rs, changed))))))"

text \<open>The writes.\<close>

definition commit_publish ::
  "int \<Rightarrow> zone_row \<Rightarrow> string \<Rightarrow> string \<Rightarrow> int \<Rightarrow> int \<Rightarrow> rrsets \<Rightarrow> rrkey list \<Rightarrow> db \<Rightarrow> exn + db" where
  "commit_publish ts z rid fp base next rs changed d =
     (let zone = z_name z; new_version = z_current_version z + 1 in
      bindE (materialize zone (z_current_version z) new_version rs changed d) (\<lambda>d1.
      bindE (insert_version \<lparr>v_zone = zone, v_version_id = new_version, v_serial = next,
          v_request_id = rid, v_created_at = ts\<rparr> (versions d1)) (\<lambda>vs.
      bindE (insert_unique request_key
          (request_entry ts zone rid fp (COMMITTED new_version next) base next) (publish_requests d1)) (\<lambda>ps.
        Inr (enqueue_cleanup ts zone
          (d1\<lparr>versions := vs, publish_requests := ps,
              zones := update_zone zone (\<lambda>z. z\<lparr>z_current_serial := next, z_current_version := new_version,
                z_record_count := int (count_records rs), z_rrset_count := int (count_rrsets rs),
                z_updated_at := ts\<rparr>) (zones d1)\<rparr>))))))"

definition publish ::
  "int \<Rightarrow> string \<Rightarrow> string \<Rightarrow> int \<Rightarrow> int \<Rightarrow> json \<Rightarrow> string \<Rightarrow> db \<Rightarrow> (exn + publish_result) \<times> db" where
  "publish ts zone_name rid base next ops fp d =
     (case find_zone d zone_name of
        None \<Rightarrow> (Inl (zone_not_found zone_name), d)
      | Some z \<Rightarrow>
        let zone = z_name z;
            result =
              (case find_request d zone rid of
                 Some l \<Rightarrow>
                   if p_fingerprint l \<noteq> fp then Inl (idempotency_conflict l)
                   else bindE (ledger_result l) (\<lambda>r. Inr (r, d))
               | None \<Rightarrow>
                   bindE (plan_publish d z base next ops) (\<lambda>(rs, changed).
                   bindE (commit_publish ts z rid fp base next rs changed d) (\<lambda>d'.
                     Inr (\<lparr>pr_zone = zone, pr_request_id = rid, pr_version_id = z_current_version z + 1,
                       pr_serial = next, pr_replayed = False\<rparr>, d')))) in
        case result of
          Inr (r, d') \<Rightarrow> (Inr r, d')
        | Inl (ApiError e) \<Rightarrow> (Inl (ApiError e), fail_or_rollback ts zone rid fp base next e d d)
        | Inl e \<Rightarrow> (Inl e, d))"

definition get_request :: "string \<Rightarrow> string \<Rightarrow> db \<Rightarrow> exn + request_row" where
  "get_request zone rid d =
     bindE (get_zone_row zone d) (\<lambda>_.
     case find_request d zone rid of
       None \<Rightarrow> Inl (api_error REQUEST_NOT_FOUND (''requestId '' @ repr_str rid @ '' not found'') 404
         [(''requestId'', JStr rid)])
     | Some l \<Rightarrow> Inr l)"

end
