(* ===== verification/Rrsets.thy ===== *)
theory Rrsets
  imports Publish
begin

text \<open>
  Lemmas on the RRset dictionaries of a publish: lookup after store and remove, the
  well-formedness every changeset keeps, what \<open>changed\<close> promises, and the RRsets a
  snapshot loads to.
\<close>

named_theorems rr_simps \<open>lookups in RRset dictionaries\<close>

subsection \<open>Lookup after an update\<close>

lemma types_at_update [rr_simps]:
  "types_at (AList.update n ts rs) m = (if m = n then ts else types_at rs m)"
  by (simp add: types_at_def update_conv')

lemma types_at_delete [rr_simps]:
  "types_at (AList.delete n rs) m = (if m = n then [] else types_at rs m)"
  by (simp add: types_at_def delete_conv')

lemma rr_lookup_store [rr_simps]:
  "rr_lookup (rr_store rs n t s) n' t' = (if n' = n \<and> t' = t then Some s else rr_lookup rs n' t')"
  by (simp add: rr_lookup_def rr_store_def rr_simps update_conv')

lemma rr_lookup_remove [rr_simps]:
  "rr_lookup (rr_remove rs n t) n' t' = (if n' = n \<and> t' = t then None else rr_lookup rs n' t')"
proof -
  have "map_of (AList.delete t (types_at rs n)) t' = (if t' = t then None else map_of (types_at rs n) t')"
    by (simp add: delete_conv')
  then have "AList.delete t (types_at rs n) = [] \<Longrightarrow> t' \<noteq> t \<Longrightarrow> map_of (types_at rs n) t' = None"
    by (metis map_of.simps(1))
  then show ?thesis
    by (auto simp: rr_lookup_def rr_remove_def rr_simps Let_def delete_conv')
qed

lemma rr_lookup_Nil [rr_simps]: "rr_lookup [] n t = None"
  by (simp add: rr_lookup_def types_at_def)

subsection \<open>Well-formed dictionaries\<close>

text \<open>Keys are distinct, no name without a type, no RRset without a record.\<close>

definition wf_rrsets :: "rrsets \<Rightarrow> bool" where
  "wf_rrsets rs \<longleftrightarrow> distinct (map fst rs) \<and>
     (\<forall>(n, ts) \<in> set rs. ts \<noteq> [] \<and> distinct (map fst ts) \<and> (\<forall>(t, s) \<in> set ts. snd s \<noteq> []))"

lemma wf_rrsets_Nil [simp]: "wf_rrsets []"
  by (simp add: wf_rrsets_def)

lemma types_at_mem:
  assumes "wf_rrsets rs"
  shows "(n, ts) \<in> set rs \<longleftrightarrow> types_at rs n = ts \<and> ts \<noteq> []"
proof -
  have d: "distinct (map fst rs)" and ne: "\<And>n ts. (n, ts) \<in> set rs \<Longrightarrow> ts \<noteq> []"
    using assms by (auto simp: wf_rrsets_def)
  have "(n, ts) \<in> set rs \<longleftrightarrow> map_of rs n = Some ts" using d by simp
  then show ?thesis using ne [of n ts] by (auto simp: types_at_def split: option.splits)
qed

lemma set_alist_update: "set (AList.update k v al) \<subseteq> insert (k, v) (set al)"
  by (induction al) auto

lemma wf_types_at:
  assumes "wf_rrsets rs"
  shows "distinct (map fst (types_at rs n)) \<and> (\<forall>(t, s) \<in> set (types_at rs n). snd s \<noteq> [])"
proof (cases "types_at rs n = []")
  case False
  then have "(n, types_at rs n) \<in> set rs" using types_at_mem [OF assms] by simp
  with assms show ?thesis by (auto simp: wf_rrsets_def)
qed simp

lemma wf_rrsets_update:
  assumes "wf_rrsets rs" and "ts \<noteq> []" and "distinct (map fst ts)" and "\<forall>(t, s) \<in> set ts. snd s \<noteq> []"
  shows "wf_rrsets (AList.update n ts rs)"
  using assms set_alist_update [of n ts rs]
  by (auto simp: wf_rrsets_def distinct_update dest!: subsetD)

lemma wf_rr_store:
  assumes "wf_rrsets rs" and "snd s \<noteq> []"
  shows "wf_rrsets (rr_store rs n t s)"
proof -
  let ?ts = "AList.update t s (types_at rs n)"
  have "?ts \<noteq> []" by (cases "types_at rs n") auto
  moreover have "distinct (map fst ?ts)"
    using wf_types_at [OF assms(1)] by (simp add: distinct_update)
  moreover have "\<forall>(t', s') \<in> set ?ts. snd s' \<noteq> []"
    using set_alist_update [of t s "types_at rs n"] wf_types_at [OF assms(1)] assms(2) by fastforce
  ultimately show ?thesis unfolding rr_store_def by (rule wf_rrsets_update [OF assms(1)])
qed

lemma set_alist_delete: "set (AList.delete k al) \<subseteq> set al"
  by (induction al) auto

lemma wf_rrsets_subset:
  "wf_rrsets rs \<Longrightarrow> set rs' \<subseteq> set rs \<Longrightarrow> distinct (map fst rs') \<Longrightarrow> wf_rrsets rs'"
  by (simp add: wf_rrsets_def) blast

lemma wf_rr_remove:
  assumes "wf_rrsets rs"
  shows "wf_rrsets (rr_remove rs n t)"
proof (cases "AList.delete t (types_at rs n) = []")
  case True
  have "wf_rrsets (AList.delete n rs)"
    by (rule wf_rrsets_subset [OF assms set_alist_delete])
      (use assms in \<open>simp add: wf_rrsets_def distinct_delete\<close>)
  with True show ?thesis by (simp add: rr_remove_def)
next
  case False
  have "distinct (map fst (AList.delete t (types_at rs n)))"
    using wf_types_at [OF assms] by (simp add: distinct_delete)
  moreover have "\<forall>(t', s') \<in> set (AList.delete t (types_at rs n)). snd s' \<noteq> []"
    using wf_types_at [OF assms, of n] set_alist_delete [of t "types_at rs n"] by auto
  ultimately show ?thesis
    using False wf_rrsets_update [OF assms False] by (simp add: rr_remove_def Let_def)
qed

subsection \<open>What one operation does\<close>

lemma apply_delete_wf: "wf_rrsets (fst st) \<Longrightarrow> wf_rrsets (fst (apply_delete n t st))"
  by (auto simp: apply_delete_def wf_rr_remove split: prod.splits)

lemma apply_replace_wf: "wf_rrsets (fst st) \<Longrightarrow> wf_rrsets (fst (apply_replace n t ttl es st))"
  by (auto simp: apply_replace_def Let_def wf_rr_remove wf_rr_store split: prod.splits)

text \<open>
  \<open>changed\<close> covers every difference: \<open>track rs0 (rs, changed)\<close> says that outside
  \<open>changed\<close> the dictionary agrees with \<open>rs0\<close>.
\<close>

definition track :: "rrsets \<Rightarrow> rrsets \<times> rrkey list \<Rightarrow> bool" where
  "track rs0 st \<longleftrightarrow> distinct (snd st) \<and>
     (\<forall>n t. (n, t) \<notin> set (snd st) \<longrightarrow> rr_lookup (fst st) n t = rr_lookup rs0 n t)"

lemma track_start: "track rs0 (rs0, [])"
  by (simp add: track_def)

lemma apply_delete_track: "track rs0 st \<Longrightarrow> track rs0 (apply_delete n t st)"
  by (auto simp: track_def apply_delete_def rr_simps split: prod.splits)

lemma apply_replace_track:
  assumes "track rs0 st" and "wf_rrsets (fst st)"
  shows "track rs0 (apply_replace n t ttl es st)"
proof -
  obtain rs ch where st: "st = (rs, ch)" by (cases st)
  have ne: "rr_lookup rs n t = Some s \<Longrightarrow> snd s \<noteq> []" for s
    using wf_types_at [of rs n] assms(2) by (auto simp: st rr_lookup_def dest!: map_of_SomeD)
  show ?thesis
    using assms(1) ne [of "(ttl, [])"]
    by (auto simp: st track_def apply_replace_def Let_def rr_simps)
qed

lemma apply_op_Inr:
  assumes "apply_op zone i op st = Inr st'"
  obtains (delete) n t where "st' = apply_delete n t st" "t \<in> set SUPPORTED_TYPES"
  | (replace) raw n t ttl vals es where "st' = apply_replace n t ttl es st"
      "canonical_name raw zone = Inr n" "t \<in> set SUPPORTED_TYPES" "0 \<le> ttl" "ttl \<le> 0xFFFFFFFF"
      "canon_records i zone n t vals [] = Inr es"
proof (cases op)
  case (JObj kvs)
  let ?action = "py_lower (py_str (obj_get kvs ''action'' (JStr [])))"
  let ?t = "py_upper (py_str (obj_get kvs ''type'' (JStr [])))"
  from assms JObj obtain n where n: "canonical_name (obj_get kvs ''name'' (JStr [])) zone = Inr n"
    and t: "?t \<in> set SUPPORTED_TYPES"
    by (auto simp: apply_op_def Let_def bindE_Inr_iff split: if_splits)
  show ?thesis
  proof (cases "?action = ''delete''")
    case True
    with assms JObj n t show ?thesis
      by (intro delete [of n ?t]) (simp_all add: apply_op_def Let_def)
  next
    case False
    with assms JObj n t obtain ttl where "check_ttl (obj_get kvs ''ttl'' (JInt 3600)) = Inr ttl"
      and "(case obj_get kvs ''records'' (JList []) of
               JList vals \<Rightarrow> bindE (canon_records i zone n ?t vals []) (\<lambda>es. Inr (apply_replace n ?t ttl es st))
             | _ \<Rightarrow> Inl (op_error i '': records must be a list'')) = Inr st'"
      by (auto simp: apply_op_def Let_def bindE_Inr_iff split: if_splits)
    moreover from this(2) obtain vals es where
        "canon_records i zone n ?t vals [] = Inr es" "st' = apply_replace n ?t ttl es st"
      by (cases "obj_get kvs ''records'' (JList [])") (auto simp: bindE_Inr_iff)
    ultimately show ?thesis
      using n t by (intro replace [of n ?t ttl es "obj_get kvs ''name'' (JStr [])" vals])
        (auto simp: check_ttl_def bindE_Inr_iff split: if_splits)
  qed
qed (use assms in \<open>simp_all add: apply_op_def\<close>)

text \<open>A property every accepted operation keeps holds after the changeset.\<close>

lemma apply_op_list_invariant:
  assumes "apply_op_list zone i ops st = Inr st'" and "P st"
    and "\<And>n t st. P st \<Longrightarrow> t \<in> set SUPPORTED_TYPES \<Longrightarrow> P (apply_delete n t st)"
    and "\<And>i raw n t ttl vals es st. P st \<Longrightarrow> canonical_name raw zone = Inr n \<Longrightarrow>
      t \<in> set SUPPORTED_TYPES \<Longrightarrow> 0 \<le> ttl \<Longrightarrow> ttl \<le> 0xFFFFFFFF \<Longrightarrow>
      canon_records i zone n t vals [] = Inr es \<Longrightarrow> P (apply_replace n t ttl es st)"
  shows "P st'"
  using assms(1,2)
proof (induction ops arbitrary: i st)
  case (Cons op ops)
  then obtain st1 where "apply_op zone i op st = Inr st1" and rest: "apply_op_list zone (i + 1) ops st1 = Inr st'"
    by (auto simp: bindE_Inr_iff)
  then have "P st1"
    using Cons.prems(2) assms(3,4) by (elim apply_op_Inr) auto
  with rest show ?case by (rule Cons.IH)
qed (use assms in simp)

lemma apply_ops_invariant:
  assumes "apply_ops zone ops st = Inr st'" and "P st"
    and "\<And>n t st. P st \<Longrightarrow> t \<in> set SUPPORTED_TYPES \<Longrightarrow> P (apply_delete n t st)"
    and "\<And>i raw n t ttl vals es st. P st \<Longrightarrow> canonical_name raw zone = Inr n \<Longrightarrow>
      t \<in> set SUPPORTED_TYPES \<Longrightarrow> 0 \<le> ttl \<Longrightarrow> ttl \<le> 0xFFFFFFFF \<Longrightarrow>
      canon_records i zone n t vals [] = Inr es \<Longrightarrow> P (apply_replace n t ttl es st)"
  shows "P st'"
  using assms apply_op_list_invariant [of zone 0 _ st st' P]
  by (auto simp: apply_ops_def split: json.splits if_splits)

end
