(* ===== verification/Snapshot.thy ===== *)
theory Snapshot
  imports Rrsets
begin

text \<open>
  Snapshots and deltas: the content of a stored version, what a version loads to, and how
  \<open>_materialize\<close> relates the new snapshot and its delta rows to the old snapshot.
\<close>

subsection \<open>Tables with a key\<close>

text \<open>
  What the operations rely on when they insert: a successful insert appends a row whose key
  was not there, so keys stay unique and a select by key finds the new row and every old one.
\<close>

locale keyed_table =
  fixes key :: "'r \<Rightarrow> 'k" and ins :: "'r \<Rightarrow> 'r list \<Rightarrow> exn + 'r list"
  assumes ins_Inr: "ins r tab = Inr tab' \<Longrightarrow> tab' = tab @ [r] \<and> key r \<notin> key ` set tab"
    and ins_Inl: "ins r tab = Inl e \<Longrightarrow> e = IntegrityError"
begin

lemma ins_unique: "ins r tab = Inr tab' \<Longrightarrow> distinct (map key tab) \<Longrightarrow> distinct (map key tab')"
  using ins_Inr [of r tab tab'] by auto

lemma ins_finds_new: "ins r tab = Inr tab' \<Longrightarrow> find (\<lambda>x. key x = key r) tab' = Some r"
proof -
  assume "ins r tab = Inr tab'"
  then have t: "tab' = tab @ [r]" and "key r \<notin> key ` set tab"
    using ins_Inr [of r tab tab'] by auto
  from this(2) have n: "\<forall>x \<in> set tab. key x \<noteq> key r" by (metis imageI)
  from n have "find (\<lambda>x. key x = key r) tab = None" by (simp add: find_None_iff)
  then have "find (\<lambda>x. key x = key r) (tab @ [r]) = Some r" by (induction tab) auto
  with t show ?thesis by simp
qed

lemma ins_keeps_old:
  assumes "ins r tab = Inr tab'" and "k \<noteq> key r"
  shows "find (\<lambda>x. key x = k) tab' = find (\<lambda>x. key x = k) tab"
proof -
  have "find (\<lambda>x. key x = k) (tab @ [r]) = find (\<lambda>x. key x = k) tab"
    using assms(2) by (induction tab) auto
  then show ?thesis using ins_Inr [OF assms(1)] by simp
qed

end

interpretation record_table: keyed_table record_key "insert_unique record_key"
  by unfold_locales (auto simp: insert_unique_def split: if_splits)

interpretation request_table: keyed_table request_key "insert_unique request_key"
  by unfold_locales (auto simp: insert_unique_def split: if_splits)

interpretation change_table: keyed_table change_key "insert_unique change_key"
  by unfold_locales (auto simp: insert_unique_def split: if_splits)

interpretation version_table: keyed_table version_key insert_version
  by unfold_locales (auto simp: insert_version_def insert_unique_def split: if_splits)

interpretation serial_index: keyed_table version_serial_key insert_version
  by unfold_locales (auto simp: insert_version_def insert_unique_def split: if_splits)

lemma insert_all_Inr_iff:
  "insert_all key rs tab = Inr tab' \<longleftrightarrow>
    tab' = tab @ rs \<and> distinct (map key rs) \<and> key ` set rs \<inter> key ` set tab = {}"
proof (induction rs arbitrary: tab)
  case (Cons r rs)
  show ?case
    by (cases "key r \<in> key ` set tab") (auto simp: insert_unique_def Cons.IH)
qed auto

lemma insert_all_unique:
  "insert_all key rs tab = Inr tab' \<Longrightarrow> distinct (map key tab) \<Longrightarrow> distinct (map key tab')"
  by (auto simp: insert_all_Inr_iff)

lemma insert_all_Inl: "insert_all key rs tab = Inl e \<Longrightarrow> e = IntegrityError"
  by (induction rs arbitrary: tab) (auto simp: insert_unique_def bindE_Inl_iff split: if_splits)

subsection \<open>Content\<close>

definition row_data :: "record_row \<Rightarrow> delta_row" where
  "row_data r = (r_name r, r_rtype r, r_ttl r, r_rdata r, r_rdata_wire r)"

definition change_data :: "change_row \<Rightarrow> delta_row" where
  "change_data c = (c_name c, c_rtype c, c_ttl c, c_rdata c, c_rdata_wire c)"

definition delta_key :: "delta_row \<Rightarrow> rrkey" where
  "delta_key x = (fst x, fst (snd x))"

definition content :: "db \<Rightarrow> string \<Rightarrow> int \<Rightarrow> delta_row set" where
  "content d zone vid = row_data ` set (records_of d zone vid)"

definition dels :: "db \<Rightarrow> string \<Rightarrow> int \<Rightarrow> delta_row set" where
  "dels d zone vid = change_data ` {c \<in> set (changes_of d zone vid). c_op c = DEL}"

definition adds :: "db \<Rightarrow> string \<Rightarrow> int \<Rightarrow> delta_row set" where
  "adds d zone vid = change_data ` {c \<in> set (changes_of d zone vid). c_op c = ADD}"

lemma mem_records_of:
  "r \<in> set (records_of d zone vid) \<longleftrightarrow> r \<in> set (records d) \<and> r_zone r = zone \<and> r_version_id r = vid"
  by (auto simp: records_of_def)

subsection \<open>Loading a snapshot\<close>

definition rows_at :: "string \<Rightarrow> string \<Rightarrow> record_row list \<Rightarrow> record_row list" where
  "rows_at n t rows = filter (\<lambda>r. r_name r = n \<and> r_rtype r = t) rows"

definition entry_of :: "record_row \<Rightarrow> entry" where
  "entry_of r = (r_rdata r, r_rdata_wire r)"

definition load_set :: "record_row list \<Rightarrow> rrset option" where
  "load_set rows = (case rows of [] \<Rightarrow> None | r # _ \<Rightarrow> Some (r_ttl r, map entry_of rows))"

definition extend_set :: "rrset option \<Rightarrow> record_row list \<Rightarrow> rrset option" where
  "extend_set s rows = (case s of None \<Rightarrow> load_set rows | Some (ttl, es) \<Rightarrow> Some (ttl, es @ map entry_of rows))"

lemma load_row_lookup:
  "rr_lookup (load_row rs r) n t =
    (if r_name r = n \<and> r_rtype r = t then extend_set (rr_lookup rs n t) [r] else rr_lookup rs n t)"
  by (auto simp: load_row_def Let_def extend_set_def load_set_def entry_of_def rr_simps split: option.splits prod.splits)

lemma extend_set_append: "extend_set (extend_set s xs) ys = extend_set s (xs @ ys)"
  by (cases xs) (auto simp: extend_set_def load_set_def split: option.splits list.splits)

lemma load_rows_lookup:
  "rr_lookup (foldl load_row rs rows) n t = extend_set (rr_lookup rs n t) (rows_at n t rows)"
proof (induction rows arbitrary: rs)
  case Nil
  then show ?case by (simp add: rows_at_def extend_set_def load_set_def split: option.split)
next
  case (Cons r rows)
  show ?case
    by (simp add: Cons.IH load_row_lookup extend_set_append rows_at_def)
qed

lemma load_row_wf: "wf_rrsets rs \<Longrightarrow> wf_rrsets (load_row rs r)"
  by (auto simp: load_row_def Let_def wf_rr_store split: option.splits)

lemma load_rows_wf: "wf_rrsets rs \<Longrightarrow> wf_rrsets (foldl load_row rs rows)"
  by (induction rows arbitrary: rs) (auto simp: load_row_wf)

definition version_rows_at :: "db \<Rightarrow> string \<Rightarrow> int \<Rightarrow> string \<Rightarrow> string \<Rightarrow> record_row list" where
  "version_rows_at d zone vid n t =
     rows_at n t (sort_key r_rdata (records_of d zone vid))"

lemma load_rrsets_lookup: "rr_lookup (load_rrsets d zone vid) n t = load_set (version_rows_at d zone vid n t)"
  by (simp add: load_rrsets_def load_rows_lookup version_rows_at_def rr_simps extend_set_def)

lemma load_rrsets_wf: "wf_rrsets (load_rrsets d zone vid)"
  by (simp add: load_rrsets_def load_rows_wf)

lemma set_version_rows_at:
  "set (version_rows_at d zone vid n t) = {r \<in> set (records d). in_rrset zone vid n t r}"
  by (auto simp: version_rows_at_def rows_at_def mem_records_of in_rrset_def)

subsection \<open>Rewriting the changed RRsets\<close>

lemma mem_rrset_rows: "r \<in> set (rrset_rows zone vid rs k) \<Longrightarrow> in_rrset zone vid (fst k) (snd k) r"
  by (auto simp: rrset_rows_def entry_row_def in_rrset_def split: option.splits)

lemma in_rrset_inj: "in_rrset z v n t r \<Longrightarrow> in_rrset z v n' t' r \<Longrightarrow> n = n' \<and> t = t'"
  by (simp add: in_rrset_def)

lemma rewrite_changed_rows:
  assumes "rewrite_changed zone vid rs ks tab = Inr tab'" and "distinct ks"
  shows "set tab' = {r \<in> set tab. \<not> (\<exists>k \<in> set ks. in_rrset zone vid (fst k) (snd k) r)}
    \<union> (\<Union>k \<in> set ks. set (rrset_rows zone vid rs k))"
  using assms
proof (induction ks arbitrary: tab)
  case (Cons k ks)
  let ?rest = "filter (\<lambda>r. \<not> in_rrset zone vid (fst k) (snd k) r) tab"
  from Cons.prems obtain tab1 where "insert_all record_key (rrset_rows zone vid rs k) ?rest = Inr tab1"
    and step: "rewrite_changed zone vid rs ks tab1 = Inr tab'"
    by (auto simp: bindE_Inr_iff)
  then have t1: "set tab1 = set ?rest \<union> set (rrset_rows zone vid rs k)"
    by (auto simp: insert_all_Inr_iff)
  have new: "\<not> (\<exists>k' \<in> set ks. in_rrset zone vid (fst k') (snd k') r)"
    if "r \<in> set (rrset_rows zone vid rs k)" for r
    using Cons.prems(2) in_rrset_inj [OF mem_rrset_rows [OF that]] by (metis distinct.simps(2) prod.collapse)
  have "set tab' = {r \<in> set tab1. \<not> (\<exists>k' \<in> set ks. in_rrset zone vid (fst k') (snd k') r)}
      \<union> (\<Union>k' \<in> set ks. set (rrset_rows zone vid rs k'))"
    using Cons.IH [OF step] Cons.prems(2) by simp
  with t1 new show ?case by auto
qed simp

lemma rewrite_changed_unique:
  "rewrite_changed zone vid rs ks tab = Inr tab' \<Longrightarrow> distinct (map record_key tab) \<Longrightarrow>
    distinct (map record_key tab')"
proof (induction ks arbitrary: tab)
  case (Cons k ks)
  then obtain tab1 where *: "insert_all record_key (rrset_rows zone vid rs k)
        (filter (\<lambda>r. \<not> in_rrset zone vid (fst k) (snd k) r) tab) = Inr tab1"
    and "rewrite_changed zone vid rs ks tab1 = Inr tab'"
    by (auto simp: bindE_Inr_iff)
  then show ?case
    using Cons.IH insert_all_unique [OF *] Cons.prems(2) by (simp add: distinct_map_filter)
qed simp

subsection \<open>The numbered delta\<close>

lemma number_changes_data:
  "map (\<lambda>c. (c_op c, change_data c)) (number_changes zone vid seq rows) = rows"
  by (induction zone vid seq rows rule: number_changes.induct) (auto simp: change_data_def)

lemma number_changes_seq:
  "map c_seq (number_changes zone vid seq rows) = map (\<lambda>i. seq + 1 + int i) [0..<length rows]"
proof (induction zone vid seq rows rule: number_changes.induct)
  case (2 zone vid seq op name rtype ttl rj rw rows)
  have "[0..<Suc (length rows)] = 0 # map Suc [0..<length rows]"
    by (simp only: map_Suc_upt upt_conv_Cons zero_less_Suc)
  then show ?case using 2 by (simp add: algebra_simps del: upt_Suc)
qed simp

lemma number_changes_owner:
  "c \<in> set (number_changes zone vid seq rows) \<Longrightarrow> c_zone c = zone \<and> c_version_id c = vid"
  by (induction zone vid seq rows rule: number_changes.induct) auto

subsection \<open>Materialising a version\<close>

lemma rewrite_changed_others:
  assumes "rewrite_changed zone vid rs ks tab = Inr tab'"
    and "\<And>r. P r \<Longrightarrow> \<not> (r_zone r = zone \<and> r_version_id r = vid)"
  shows "filter P tab' = filter P tab"
  using assms(1)
proof (induction ks arbitrary: tab)
  case (Cons k ks)
  then obtain tab1 where t1: "tab1 = filter (\<lambda>r. \<not> in_rrset zone vid (fst k) (snd k) r) tab @ rrset_rows zone vid rs k"
    and step: "rewrite_changed zone vid rs ks tab1 = Inr tab'"
    by (auto simp: bindE_Inr_iff insert_all_Inr_iff)
  have none: "filter P (rrset_rows zone vid rs k) = []"
    using assms(2) mem_rrset_rows [of _ zone vid rs k] by (auto simp: filter_empty_conv in_rrset_def)
  have keep: "filter P (filter (\<lambda>r. \<not> in_rrset zone vid (fst k) (snd k) r) tab) = filter P tab"
    unfolding filter_filter
    by (rule filter_cong [OF refl]) (use assms(2) in \<open>auto simp: in_rrset_def\<close>)
  show ?case using Cons.IH [OF step] keep none by (simp only: t1 filter_append append_Nil2)
qed simp

lemma materialize_elim:
  assumes "materialize zone old new rs changed d = Inr d'" and "new \<noteq> old"
  obtains tab where
    "insert_all record_key (map (\<lambda>r. r\<lparr>r_version_id := new\<rparr>) (records_of d zone old)) (records d) = Inr tab"
    "rewrite_changed zone new rs changed tab = Inr (records d')"
    "insert_all change_key (number_changes zone new 0 (delta d zone old rs changed)) (changes d) = Inr (changes d')"
    "d' = d\<lparr>records := records d', changes := changes d'\<rparr>"
    "\<And>z v. (z, v) \<noteq> (zone, new) \<Longrightarrow> records_of d' z v = records_of d z v"
proof -
  from assms(1) obtain tab tab' cs where
    t: "insert_all record_key (map (\<lambda>r. r\<lparr>r_version_id := new\<rparr>) (records_of d zone old)) (records d) = Inr tab"
    and t': "rewrite_changed zone new rs changed tab = Inr tab'"
    and c: "insert_all change_key (number_changes zone new 0 (delta (d\<lparr>records := tab'\<rparr>) zone old rs changed))
        (changes d) = Inr cs"
    and d': "d' = d\<lparr>records := tab', changes := cs\<rparr>"
    by (auto simp: materialize_def Let_def bindE_Inr_iff)
  have same: "filter (\<lambda>r. r_zone r = z \<and> r_version_id r = v) tab' = records_of d z v" if "(z, v) \<noteq> (zone, new)" for z v
  proof -
    have n: "\<not> (r_zone r = zone \<and> r_version_id r = new)" if "r_zone r = z \<and> r_version_id r = v" for r
      using that \<open>(z, v) \<noteq> (zone, new)\<close> by auto
    have "filter (\<lambda>r. r_zone r = z \<and> r_version_id r = v) (map (\<lambda>r. r\<lparr>r_version_id := new\<rparr>) (records_of d zone old)) = []"
      using that by (auto simp: filter_empty_conv records_of_def)
    with rewrite_changed_others [OF t', of "\<lambda>r. r_zone r = z \<and> r_version_id r = v", OF n] t
    show ?thesis by (simp add: insert_all_Inr_iff records_of_def)
  qed
  then have "records_of (d\<lparr>records := tab'\<rparr>) zone old = records_of d zone old"
    using assms(2) by (simp add: records_of_def)
  then have "delete_rows (d\<lparr>records := tab'\<rparr>) zone old = delete_rows d zone old"
    by (simp add: delete_rows_def fun_eq_iff)
  then have "delta (d\<lparr>records := tab'\<rparr>) zone old rs changed = delta d zone old rs changed"
    by (simp add: delta_def)
  with t t' c d' same show ?thesis
    by (intro that [of tab]) (auto simp: records_of_def)
qed

lemma rows_of_entry: "row_data (entry_row zone vid n t ttl e) = (n, t, ttl, fst e, snd e)"
  by (simp add: row_data_def entry_row_def)

lemma rrset_rows_data: "row_data ` set (rrset_rows zone vid rs k) = set (add_rows rs k)"
  by (cases "rr_lookup rs (fst k) (snd k)")
    (auto simp: rrset_rows_def add_rows_def image_image rows_of_entry simp del: image_iff)

lemma set_add_rows_key: "x \<in> set (add_rows rs k) \<Longrightarrow> delta_key x = k"
  by (auto simp: add_rows_def delta_key_def split: option.splits)

lemma set_delete_rows: "set (delete_rows d zone old k) = {x \<in> content d zone old. delta_key x = k}"
  by (force simp: delete_rows_def content_def row_data_def delta_key_def)

lemma set_delta_keys: "set (delta_keys zone changed) = set changed"
  by (simp add: delta_keys_def)

lemma delta_data:
  "snd ` {x \<in> set (delta d zone old rs changed). fst x = DEL} = {x \<in> content d zone old. delta_key x \<in> set changed}"
  "snd ` {x \<in> set (delta d zone old rs changed). fst x = ADD} = (\<Union>k \<in> set changed. set (add_rows rs k))"
  by (auto simp: delta_def Let_def set_delta_keys set_delete_rows image_iff)

lemma materialize_changes:
  assumes "materialize zone old new rs changed d = Inr d'" and "new \<noteq> old"
    and fresh: "changes_of d zone new = []"
  shows "changes_of d' zone new = number_changes zone new 0 (delta d zone old rs changed)"
    and "(z, v) \<noteq> (zone, new) \<Longrightarrow> changes_of d' z v = changes_of d z v"
proof -
  let ?rows = "number_changes zone new 0 (delta d zone old rs changed)"
  from materialize_elim [OF assms(1,2)] have c: "changes d' = changes d @ ?rows"
    by (auto simp: insert_all_Inr_iff)
  show "changes_of d' zone new = ?rows"
    using fresh by (auto simp: changes_of_def c number_changes_owner filter_id_conv)
  show "changes_of d' z v = changes_of d z v" if "(z, v) \<noteq> (zone, new)"
    using that by (auto simp: changes_of_def c number_changes_owner filter_empty_conv)
qed

lemma materialize_dels_adds:
  assumes "materialize zone old new rs changed d = Inr d'" and "new \<noteq> old" and "changes_of d zone new = []"
  shows "dels d' zone new = {x \<in> content d zone old. delta_key x \<in> set changed}"
    and "adds d' zone new = (\<Union>k \<in> set changed. set (add_rows rs k))"
proof -
  let ?cs = "changes_of d' zone new"
  have m: "map (\<lambda>c. (c_op c, change_data c)) ?cs = delta d zone old rs changed"
    by (simp add: materialize_changes(1) [OF assms] number_changes_data)
  have "change_data ` {c \<in> set ?cs. c_op c = op} = snd ` {x \<in> set (delta d zone old rs changed). fst x = op}" for op
    unfolding m [symmetric] by force
  then show "dels d' zone new = {x \<in> content d zone old. delta_key x \<in> set changed}"
    and "adds d' zone new = (\<Union>k \<in> set changed. set (add_rows rs k))"
    by (simp_all add: dels_def adds_def delta_data)
qed

lemma materialize_content:
  assumes "materialize zone old new rs changed d = Inr d'" and "new \<noteq> old" and "distinct changed"
    and fresh: "records_of d zone new = []"
  shows "content d' zone new = {x \<in> content d zone old. delta_key x \<notin> set changed} \<union>
    (\<Union>k \<in> set changed. set (add_rows rs k))"
proof -
  let ?copy = "map (\<lambda>r. r\<lparr>r_version_id := new\<rparr>) (records_of d zone old)"
  from materialize_elim [OF assms(1,2)] obtain tab where
    tab: "tab = records d @ ?copy" and re: "rewrite_changed zone new rs changed tab = Inr (records d')"
    by (metis insert_all_Inr_iff)
  have old: "r \<notin> set (records d)" if "r_zone r = zone" "r_version_id r = new" for r
    using fresh that by (auto simp: records_of_def filter_empty_conv)
  have rows: "r_zone r = zone \<and> r_version_id r = new" if "r \<in> set (rrset_rows zone new rs k)" for r k
    using mem_rrset_rows [OF that] by (simp add: in_rrset_def)
  have "set (records_of d' zone new) =
      {r \<in> set ?copy. (r_name r, r_rtype r) \<notin> set changed} \<union> (\<Union>k \<in> set changed. set (rrset_rows zone new rs k))"
  proof -
    have in_iff: "(\<exists>k \<in> set changed. in_rrset zone new (fst k) (snd k) r) \<longleftrightarrow>
        r_zone r = zone \<and> r_version_id r = new \<and> (r_name r, r_rtype r) \<in> set changed" for r
      by (force simp: in_rrset_def)
    have copy: "r_zone r = zone \<and> r_version_id r = new" if "r \<in> set ?copy" for r
      using that by (auto simp: records_of_def)
    have "set tab = set (records d) \<union> set ?copy" by (simp add: tab)
    then show ?thesis
      unfolding set_eq_iff mem_records_of rewrite_changed_rows [OF re assms(3)] in_iff mem_Collect_eq Un_iff UN_iff
      using old rows copy by blast
  qed
  then have "content d' zone new = row_data ` {r \<in> set ?copy. (r_name r, r_rtype r) \<notin> set changed} \<union>
      (\<Union>k \<in> set changed. row_data ` set (rrset_rows zone new rs k))"
    by (simp add: content_def image_Un image_UN)
  moreover have "row_data ` {r \<in> set ?copy. (r_name r, r_rtype r) \<notin> set changed} =
      {x \<in> content d zone old. delta_key x \<notin> set changed}"
  proof -
    have "{r \<in> set ?copy. (r_name r, r_rtype r) \<notin> set changed} = (\<lambda>r. r\<lparr>r_version_id := new\<rparr>) `
        {r \<in> set (records_of d zone old). (r_name r, r_rtype r) \<notin> set changed}" by force
    moreover have "{x \<in> content d zone old. delta_key x \<notin> set changed} =
        row_data ` {r \<in> set (records_of d zone old). (r_name r, r_rtype r) \<notin> set changed}"
      by (force simp: content_def row_data_def delta_key_def)
    ultimately show ?thesis by (simp add: image_image row_data_def)
  qed
  ultimately show ?thesis by (simp add: rrset_rows_data)
qed

text \<open>The new snapshot is the old one after the delta.\<close>

lemma materialize_delta_law:
  assumes "materialize zone old new rs changed d = Inr d'" and "new \<noteq> old" and "distinct changed"
    and "records_of d zone new = []" and "changes_of d zone new = []"
  shows "content d' zone new = (content d zone old - dels d' zone new) \<union> adds d' zone new"
    and "dels d' zone new \<subseteq> content d zone old"
  using materialize_content [OF assms(1-4)] materialize_dels_adds [OF assms(1,2,5)] by auto

end
