(* ===== verification/Canonical_Sound.thy ===== *)
theory Canonical_Sound
  imports Canonical
begin

text \<open>
  What canonicalisation promises: a canonical name is in its zone, fits the wire limits, and
  decodes to itself; canonical RDATA and accepted records fit a message.
\<close>

subsection \<open>Labels\<close>

definition canon_char :: "char \<Rightarrow> bool" where
  "canon_char c = (label_char c \<or> (of_char c :: nat) = 10)"

lemma canon_char_ascii: "canon_char c \<Longrightarrow> is_ascii c"
  by (auto simp: canon_char_def label_char_def is_ascii_def Let_def)

lemma canon_char_lower: "canon_char c \<Longrightarrow> lower_char c = c"
  by (auto simp: canon_char_def label_char_def lower_char_def Let_def)

lemma canon_char_dot: "\<not> canon_char CHR ''.''"
  by (simp add: canon_char_def label_char_def)

lemma label_re_match_chars:
  assumes "label_re_match lab"
  shows "lab \<noteq> []" and "\<forall>c \<in> set lab. canon_char c"
proof -
  let ?b = "takeWhile label_char lab" and ?r = "dropWhile label_char lab"
  have b: "1 \<le> length ?b" and r: "?r = [] \<or> ?r = [char_of (10 :: nat)]"
    using assms by (simp_all add: label_re_match_def Let_def)
  from b show "lab \<noteq> []" by auto
  have "c \<in> set ?b \<Longrightarrow> canon_char c" for c
    using set_takeWhileD [of c label_char lab] by (simp add: canon_char_def)
  moreover have "c \<in> set ?r \<Longrightarrow> canon_char c" for c
    using r by (elim disjE) (simp_all only: list.set empty_iff insert_iff canon_char_def of_char_of, auto)
  moreover have "set lab = set ?b \<union> set ?r"
    by (metis set_append takeWhile_dropWhile_id)
  ultimately show "\<forall>c \<in> set lab. canon_char c" by blast
qed

lemma check_labels_Inr:
  "check_labels ls n = Inr m \<Longrightarrow>
    (\<forall>l \<in> set ls. label_ok l \<and> (\<forall>c \<in> set l. canon_char c)) \<and> m = n + (\<Sum>l \<leftarrow> ls. 1 + length l)"
proof (induction ls arbitrary: n)
  case (Cons l ls)
  then have re: "label_re_match l" and len: "length l \<le> 63"
    and rest: "check_labels ls (n + 1 + length l) = Inr m"
    by (auto simp: MAX_LABEL_LEN_def split: if_splits)
  have "label_ok l"
    using label_re_match_chars [OF re] len canon_char_ascii by (auto simp: label_ok_def)
  then show ?case
    using label_re_match_chars [OF re] Cons.IH [OF rest] by auto
qed auto

text \<open>The wire size of a list of labels is what \<open>_check_name\<close> counts.\<close>

lemma length_label_wires: "length (concat (map label_wire ls)) = (\<Sum>l \<leftarrow> ls. 1 + length l)"
  by (induction ls) auto

lemma butlast_dot: "ends_with s ''.'' \<Longrightarrow> s = butlast s @ ''.''"
  by (auto simp: ends_with_iff)

text \<open>A checked absolute name.\<close>

definition canonical_form :: "string \<Rightarrow> bool" where
  "canonical_form n \<longleftrightarrow> ends_with n ''.'' \<and> wire_name_of n = n \<and>
     (\<exists>w. encode_name n = Inr w \<and> length w \<le> 255)"

lemma check_name_sound:
  assumes "check_name nm = Inr r" and dot: "ends_with nm ''.''"
  shows "r = nm \<and> canonical_form nm"
proof (cases "nm = ''.''")
  case True
  then show ?thesis
    using assms by (simp add: check_name_def MAX_NAME_LEN_def canonical_form_def encode_name_def
        wire_name_of_def)
next
  case False
  define ls where "ls = split_on CHR ''.'' (butlast nm)"
  have nm: "nm = butlast nm @ ''.''" by (rule butlast_dot [OF dot])
  from assms False have r: "r = nm" and "\<exists>m. check_labels ls 1 = Inr m \<and> m \<le> 255"
    by (auto simp: check_name_def bindE_Inr_iff ls_def MAX_NAME_LEN_def split: if_splits)
  then obtain m where m: "check_labels ls 1 = Inr m" "m \<le> 255" by auto
  have ok: "\<forall>l \<in> set ls. label_ok l" and cc: "\<forall>l \<in> set ls. \<forall>c \<in> set l. canon_char c"
    and len: "1 + (\<Sum>l \<leftarrow> ls. 1 + length l) \<le> 255"
    using check_labels_Inr [OF m(1)] m(2) by auto
  have b: "butlast nm = join_on ''.'' ls" by (simp add: ls_def join_split)
  have ne: "butlast nm \<noteq> []" using False nm by auto
  have last: "last (butlast nm) \<noteq> CHR ''.''"
  proof -
    have l: "last ls \<noteq> []" using ok by (simp add: ls_def label_ok_def)
    have "ls \<noteq> []" by (simp add: ls_def)
    then obtain ls0 l0 where ls: "ls = ls0 @ [l0]" by (metis rev_exhaust)
    have "ends_with (join_on ''.'' (xs @ [y])) y" for xs :: "string list" and y
      by (induction xs rule: induct_list012) (auto simp: ends_with_iff)
    then have "ends_with (butlast nm) l0" by (simp add: b ls)
    then have "last (butlast nm) = last l0" using l by (auto simp: ends_with_iff ls)
    moreover have "last l0 \<in> set l0" using l by (simp add: ls)
    ultimately show ?thesis using cc canon_char_dot by (auto simp: ls)
  qed
  have rs: "rstrip_dot nm = butlast nm"
  proof -
    have "rev nm = CHR ''.'' # rev (butlast nm)" by (subst nm) simp
    moreover have "dropWhile (\<lambda>c. c = CHR ''.'') (rev (butlast nm)) = rev (butlast nm)"
      using ne last by (cases "butlast nm" rule: rev_cases) auto
    ultimately show ?thesis by (simp only: rstrip_dot_def dropWhile.simps simp_thms if_True rev_rev_ident)
  qed
  have "nm \<noteq> []" using ne by auto
  have w: "encode_name nm = Inr (concat (map label_wire ls) @ [0])"
    using False \<open>nm \<noteq> []\<close> ok by (simp add: encode_name_def rs ls_def [symmetric] encode_labels_Inr_iff bindE_Inr_iff)
  have "py_lower (butlast nm) = butlast nm"
  proof -
    have "\<forall>c \<in> set (join_on ''.'' ls). lower_char c = c"
      using cc canon_char_lower by (induction "''.''" ls rule: join_on.induct) (auto simp: lower_char_dot)
    then show ?thesis by (simp add: b py_lower_def map_idI)
  qed
  then have "wire_name_of nm = nm"
    using False \<open>nm \<noteq> []\<close> nm by (simp add: wire_name_of_def rs)
  with w len r dot show ?thesis
    by (simp add: canonical_form_def length_label_wires)
qed

subsection \<open>Names\<close>

definition in_zone :: "string \<Rightarrow> string \<Rightarrow> bool" where
  "in_zone zone n \<longleftrightarrow> n = zone \<or> ends_with n (''.'' @ zone)"

lemma ends_with_dot_zone:
  "canonical_form zone \<Longrightarrow> ends_with (n @ zone) ''.''"
  by (metis canonical_form_def ends_with_append ends_with_trans)

lemma canonical_zone_sound:
  assumes "canonical_zone v = Inr z"
  shows "canonical_form z"
proof (cases v)
  case (JStr s)
  with assms have "check_name (py_strip (py_lower s)) = Inr z" "ends_with (py_strip (py_lower s)) ''.''"
    by (auto simp: canonical_zone_def Let_def split: if_splits)
  then show ?thesis using check_name_sound by blast
qed (use assms in \<open>simp_all add: canonical_zone_def\<close>)

lemma canonical_zone_arg_sound:
  assumes "canonical_zone_arg s = Inr z"
  shows "canonical_form z"
proof -
  let ?n = "py_strip (py_lower s)"
  have "check_name (if ends_with ?n ''.'' then ?n else ?n @ ''.'') = Inr z"
    using assms by (simp add: canonical_zone_arg_def Let_def split: if_splits)
  moreover have "ends_with (if ends_with ?n ''.'' then ?n else ?n @ ''.'') ''.''" by simp
  ultimately show ?thesis using check_name_sound by blast
qed

lemma canonical_name_sound:
  assumes "canonical_name v zone = Inr n" and z: "canonical_form zone"
  shows "canonical_form n \<and> in_zone zone n"
proof (cases v)
  case (JStr s)
  let ?m = "py_strip (py_lower s)"
  let ?a = "if ends_with ?m ''.'' then ?m else ?m @ ''.'' @ zone"
  show ?thesis
  proof (cases "?m = ''@''")
    case True
    with assms JStr show ?thesis by (auto simp: canonical_name_def in_zone_def split: if_splits)
  next
    case False
    with assms(1) JStr have c: "check_name ?a = Inr n" and i: "?a = zone \<or> ends_with ?a (''.'' @ zone)"
      by (simp_all add: canonical_name_def Let_def split: if_splits)
    have "ends_with ?a ''.''" using ends_with_dot_zone [OF z, of "?m @ ''.''"] by simp
    with c i show ?thesis using check_name_sound [OF c] by (simp add: in_zone_def)
  qed
qed (use assms in \<open>simp_all add: canonical_name_def\<close>)

lemma canonical_target_sound:
  assumes "canonical_target v zone = Inr n" and z: "canonical_form zone"
  shows "canonical_form n"
proof (cases v)
  case (JStr s)
  let ?m = "py_strip (py_lower s)"
  let ?a = "if ends_with ?m ''.'' then ?m else ?m @ ''.'' @ zone"
  have "check_name ?a = Inr n"
    using assms JStr by (simp add: canonical_target_def Let_def split: if_splits)
  moreover have "ends_with ?a ''.''" using ends_with_dot_zone [OF z, of "?m @ ''.''"] by simp
  ultimately show ?thesis using check_name_sound by blast
qed (use assms in \<open>simp_all add: canonical_target_def\<close>)

text \<open>A canonical name survives the wire.\<close>

lemma canonical_form_roundtrip:
  assumes "canonical_form n"
  shows "\<exists>w. encode_name n = Inr w \<and> length w \<le> 255 \<and>
    (\<forall>pre post. decode_name (pre @ w @ post) (length pre) = Inr (n, length pre + length w))"
proof -
  from assms obtain w where w: "encode_name n = Inr w" "length w \<le> 255" and n: "wire_name_of n = n"
    by (auto simp: canonical_form_def)
  have "decode_name (pre @ w @ post) (length pre) = Inr (n, length pre + length w)" for pre post
    using decode_encode_name [OF w(1), of "pre @ w @ post" "length pre"] n by (simp add: holds_at_mid)
  with w show ?thesis by blast
qed

subsection \<open>RDATA\<close>

lemma canonical_rdata_Inr:
  assumes "canonical_rdata t v zone = Inr (rd, w)"
  obtains kvs where "v = JObj kvs" "canon_value t kvs zone = Inr rd" "encode_rdata t rd = Inr w"
    "length w \<le> 65535" "t \<in> set SUPPORTED_TYPES"
proof (cases v)
  case (JObj kvs)
  let ?m = "bindE (canon_value t kvs zone) (\<lambda>canon. bindE (encode_rdata t canon) (\<lambda>wire. Inr (canon, wire)))"
  from assms JObj have m: "wire_to_api t ?m = Inr (rd, w)" and len: "length w \<le> 65535"
    by (auto simp: canonical_rdata_def bindE_Inr_iff MAX_RDATA_LEN_def split: if_splits)
  then have "?m = Inr (rd, w)"
    by (cases ?m) (auto simp: wire_to_api_def api_error_def split: exn.splits)
  then have c: "canon_value t kvs zone = Inr rd" and e: "encode_rdata t rd = Inr w"
    by (auto simp: bindE_Inr_iff)
  have "t \<in> set SUPPORTED_TYPES"
    using c by (auto simp: canon_value_def SUPPORTED_TYPES_def split: if_splits)
  with that [OF JObj c e len] show ?thesis by blast
qed (use assms in \<open>simp_all add: canonical_rdata_def\<close>)

lemma canon_u32_Inr: "canon_u32 v f = Inr n \<Longrightarrow> py_int v = Inr n \<and> 0 \<le> n \<and> n \<le> 0xFFFFFFFF"
  by (auto simp: canon_u32_def bindE_Inr_iff try_int_def split: if_splits sum.splits exn.splits)

lemma canon_value_SOA:
  assumes "canon_value ''SOA'' kvs zone = Inr rd" and z: "canonical_form zone"
  obtains s where "rd = Soa s" "canonical_form (s_mname s)" "canonical_form (s_rname s)"
    "py_int (obj_get kvs ''serial'' JNull) = Inr (s_serial s)"
    "\<forall>n \<in> set [s_serial s, s_refresh s, s_retry s, s_expire s, s_minimum s]. 0 \<le> n \<and> n \<le> 0xFFFFFFFF"
proof -
  from assms(1) obtain m r se rf rt ex mi where
    "canonical_target (obj_get kvs ''mname'' (JStr [])) zone = Inr m"
    "canonical_target (obj_get kvs ''rname'' (JStr [])) zone = Inr r"
    "canon_u32 (obj_get kvs ''serial'' JNull) ''SOA serial'' = Inr se"
    "canon_u32 (obj_get kvs ''refresh'' JNull) ''refresh'' = Inr rf"
    "canon_u32 (obj_get kvs ''retry'' JNull) ''retry'' = Inr rt"
    "canon_u32 (obj_get kvs ''expire'' JNull) ''expire'' = Inr ex"
    "canon_u32 (obj_get kvs ''minimum'' JNull) ''minimum'' = Inr mi"
    and "rd = Soa \<lparr>s_mname = m, s_rname = r, s_serial = se, s_refresh = rf, s_retry = rt,
      s_expire = ex, s_minimum = mi\<rparr>"
    by (auto simp: canon_value_def bindE_Inr_iff)
  then show ?thesis
    using canonical_target_sound [OF _ z] canon_u32_Inr
    by (intro that [of "\<lparr>s_mname = m, s_rname = r, s_serial = se, s_refresh = rf, s_retry = rt,
      s_expire = ex, s_minimum = mi\<rparr>"]) auto
qed

lemma length_u32s: "length (concat (map be32 ns)) = 4 * length ns"
  by (induction ns) auto

lemma encode_SOA_length:
  assumes "encode_rdata ''SOA'' (Soa s) = Inr w" and "canonical_form (s_mname s)" "canonical_form (s_rname s)"
  shows "length w \<le> 530"
proof -
  from assms(1) obtain m r ns where e: "encode_name (s_mname s) = Inr m" "encode_name (s_rname s) = Inr r"
    and ns: "mapE wire_u32 [s_serial s, s_refresh s, s_retry s, s_expire s, s_minimum s] = Inr ns"
    and w: "w = m @ r @ concat (map be32 ns)"
    by (auto simp: encode_rdata_def bindE_Inr_iff simp del: mapE.simps)
  have "length ns = 5" using mapE_InrD [OF ns] by simp
  moreover have "length m \<le> 255" "length r \<le> 255"
    using assms(2,3) e by (auto simp: canonical_form_def)
  ultimately show ?thesis by (simp add: w length_u32s)
qed

lemma canonical_NS:
  assumes "canonical_rdata ''NS'' v zone = Inr (rd, w)" and z: "canonical_form zone"
  shows "length w \<le> 255 \<and> (\<exists>t. rd = Target t \<and> canonical_form t)"
  using assms(1)
proof (rule canonical_rdata_Inr)
  fix kvs
  assume c: "canon_value ''NS'' kvs zone = Inr rd" and e: "encode_rdata ''NS'' rd = Inr w"
  from c obtain t where t: "canonical_target (obj_get kvs ''target'' (JStr [])) zone = Inr t" "rd = Target t"
    by (auto simp: canon_value_def bindE_Inr_iff)
  have "canonical_form t" by (rule canonical_target_sound [OF t(1) z])
  with e t(2) show ?thesis by (auto simp: encode_rdata_def canonical_form_def)
qed

subsection \<open>Records that fit\<close>

text \<open>A record that can be put on the wire inside one signed message.\<close>

definition row_fits :: "string \<Rightarrow> string \<Rightarrow> int \<Rightarrow> bytes \<Rightarrow> bool" where
  "row_fits name rtype ttl wire \<longleftrightarrow> rtype \<in> set SUPPORTED_TYPES \<and> 0 \<le> ttl \<and> ttl \<le> 0xFFFFFFFF \<and>
     (\<exists>n. encode_name name = Inr n \<and> length n + 10 + length wire \<le> 64835)"

lemma rr_fits_message_Inr:
  "rr_fits_message name rtype wire = Inr () \<longleftrightarrow>
    (\<exists>n. encode_name name = Inr n \<and> length n + 10 + length wire \<le> 64835)"
  by (cases "encode_name name") (auto simp: rr_fits_message_def MAX_TCP_MESSAGE_def Let_def)

lemma check_ttl_Inr: "check_ttl v = Inr t \<Longrightarrow> 0 \<le> t \<and> t \<le> 0xFFFFFFFF"
  by (auto simp: check_ttl_def bindE_Inr_iff split: if_splits)

end
