(* ===== verification/Zone_Valid.thy ===== *)
theory Zone_Valid
  imports Snapshot Canonical_Sound
begin

text \<open>
  What a published version holds: the content of an RRset dictionary, the zone invariants
  as a predicate on content, and how a changeset with \<open>_materialize\<close> establishes them.
\<close>

subsection \<open>Content of an RRset dictionary\<close>

definition rrs_content :: "rrsets \<Rightarrow> delta_row set" where
  "rrs_content rs = {x. x \<in> set (add_rows rs (delta_key x))}"

lemma mem_add_rows:
  "x \<in> set (add_rows rs k) \<longleftrightarrow>
    (\<exists>ttl es e. rr_lookup rs (fst k) (snd k) = Some (ttl, es) \<and> e \<in> set es \<and>
      x = (fst k, snd k, ttl, fst e, snd e))"
  by (cases "rr_lookup rs (fst k) (snd k)") (auto simp: add_rows_def image_iff)

lemma mem_rrs_content:
  "(n, t, ttl, rd, w) \<in> rrs_content rs \<longleftrightarrow>
    (\<exists>es. rr_lookup rs n t = Some (ttl, es) \<and> (rd, w) \<in> set es)"
  by (auto simp: rrs_content_def mem_add_rows delta_key_def)

lemma rrs_content_at: "{x \<in> rrs_content rs. delta_key x = k} = set (add_rows rs k)"
  unfolding rrs_content_def set_eq_iff mem_Collect_eq using set_add_rows_key by metis

text \<open>One TTL per RRset, which is what loading a snapshot into a dictionary needs.\<close>

definition uniform_ttl :: "delta_row set \<Rightarrow> bool" where
  "uniform_ttl C \<longleftrightarrow> (\<forall>n t ttl rd w ttl' rd' w'. (n, t, ttl, rd, w) \<in> C \<longrightarrow> (n, t, ttl', rd', w') \<in> C \<longrightarrow> ttl = ttl')"

lemma uniform_ttl_rrs_content: "uniform_ttl (rrs_content rs)"
  by (auto simp: uniform_ttl_def mem_rrs_content)

lemma content_mem:
  "x \<in> content d zone vid \<longleftrightarrow> (\<exists>r \<in> set (records d). r_zone r = zone \<and> r_version_id r = vid \<and> x = row_data r)"
  by (auto simp: content_def mem_records_of)

lemma load_content:
  assumes "uniform_ttl (content d zone vid)"
  shows "rrs_content (load_rrsets d zone vid) = content d zone vid"
proof (rule set_eqI)
  fix x :: delta_row
  obtain n t ttl rd w where x: "x = (n, t, ttl, rd, w)" by (cases x)
  let ?rows = "version_rows_at d zone vid n t"
  have rows: "set ?rows = {r \<in> set (records d). in_rrset zone vid n t r}" by (rule set_version_rows_at)
  have same: "r_ttl r = r_ttl r'" if "r \<in> set ?rows" "r' \<in> set ?rows" for r r'
  proof -
    have "row_data r \<in> content d zone vid" "row_data r' \<in> content d zone vid"
      using that rows by (auto simp: content_mem in_rrset_def)
    moreover have "r_name r = n" "r_rtype r = t" "r_name r' = n" "r_rtype r' = t"
      using that rows by (auto simp: in_rrset_def)
    ultimately show ?thesis using assms unfolding uniform_ttl_def row_data_def by metis
  qed
  have "x \<in> rrs_content (load_rrsets d zone vid) \<longleftrightarrow> (\<exists>r \<in> set ?rows. r_ttl r = ttl \<and> r_rdata r = rd \<and> r_rdata_wire r = w)"
  proof (cases ?rows)
    case Nil
    then show ?thesis by (simp add: x mem_rrs_content load_rrsets_lookup load_set_def)
  next
    case (Cons r rs)
    have "(\<exists>es. load_set ?rows = Some (ttl, es) \<and> (rd, w) \<in> set es) \<longleftrightarrow>
        r_ttl r = ttl \<and> (rd, w) \<in> entry_of ` set ?rows"
      by (simp add: Cons load_set_def)
    also have "\<dots> \<longleftrightarrow> (\<exists>r \<in> set ?rows. r_ttl r = ttl \<and> r_rdata r = rd \<and> r_rdata_wire r = w)"
    proof
      have r: "r \<in> set ?rows" by (simp add: Cons)
      assume "r_ttl r = ttl \<and> (rd, w) \<in> entry_of ` set ?rows"
      then obtain r' where "r' \<in> set ?rows" "r_rdata r' = rd" "r_rdata_wire r' = w" "r_ttl r = ttl"
        by (auto simp: entry_of_def)
      with same [OF r this(1)] show "\<exists>r \<in> set ?rows. r_ttl r = ttl \<and> r_rdata r = rd \<and> r_rdata_wire r = w"
        by auto
    next
      have r: "r \<in> set ?rows" by (simp add: Cons)
      assume "\<exists>r \<in> set ?rows. r_ttl r = ttl \<and> r_rdata r = rd \<and> r_rdata_wire r = w"
      then obtain r' where "r' \<in> set ?rows" "r_rdata r' = rd" "r_rdata_wire r' = w" "r_ttl r' = ttl" by blast
      with same [OF r this(1)] show "r_ttl r = ttl \<and> (rd, w) \<in> entry_of ` set ?rows"
        by (auto simp: entry_of_def image_iff intro!: bexI [of _ r'])
    qed
    finally show ?thesis by (simp add: x mem_rrs_content load_rrsets_lookup)
  qed
  also have "\<dots> \<longleftrightarrow> x \<in> content d zone vid"
    unfolding rows content_mem x row_data_def in_rrset_def by auto
  finally show "x \<in> rrs_content (load_rrsets d zone vid) \<longleftrightarrow> x \<in> content d zone vid" .
qed

text \<open>A materialised version holds exactly the dictionary it was made from.\<close>

lemma materialize_holds_rrsets:
  assumes m: "materialize zone old new rs changed d = Inr d'" and "new \<noteq> old"
    and t: "track (load_rrsets d zone old) (rs, changed)" and u: "uniform_ttl (content d zone old)"
    and "records_of d zone new = []"
  shows "content d' zone new = rrs_content rs"
proof (rule set_eqI)
  fix x
  have "distinct changed" using t by (simp add: track_def)
  then have c: "content d' zone new = {x \<in> content d zone old. delta_key x \<notin> set changed} \<union>
      (\<Union>k \<in> set changed. set (add_rows rs k))"
    by (rule materialize_content [OF m assms(2) _ assms(5)])
  have add: "x \<in> set (add_rows rs k) \<longleftrightarrow> x \<in> rrs_content rs \<and> delta_key x = k" for k
    using rrs_content_at [of rs k] by auto
  show "x \<in> content d' zone new \<longleftrightarrow> x \<in> rrs_content rs"
  proof (cases "delta_key x \<in> set changed")
    case True
    then show ?thesis by (auto simp: c add)
  next
    case False
    then have "rr_lookup rs (fst (delta_key x)) (snd (delta_key x)) =
        rr_lookup (load_rrsets d zone old) (fst (delta_key x)) (snd (delta_key x))"
      using t by (simp add: track_def)
    then have "x \<in> rrs_content rs \<longleftrightarrow> x \<in> rrs_content (load_rrsets d zone old)"
      by (simp add: rrs_content_def add_rows_def)
    with False show ?thesis by (simp add: c add load_content [OF u])
  qed
qed

subsection \<open>The zone invariants\<close>

definition soa_at :: "string \<Rightarrow> int \<Rightarrow> delta_row set \<Rightarrow> bool" where
  "soa_at zone serial C \<longleftrightarrow>
     (\<exists>ttl s w. {x \<in> C. delta_key x = (zone, ''SOA'')} = {(zone, ''SOA'', ttl, Soa s, w)} \<and> s_serial s = serial)"

definition cname_alone :: "delta_row set \<Rightarrow> bool" where
  "cname_alone C \<longleftrightarrow> (\<forall>x \<in> C. \<forall>y \<in> C. snd (delta_key x) = ''CNAME'' \<longrightarrow> fst (delta_key y) = fst (delta_key x) \<longrightarrow> y = x)"

definition valid_content :: "string \<Rightarrow> int \<Rightarrow> delta_row set \<Rightarrow> bool" where
  "valid_content zone serial C \<longleftrightarrow>
     soa_at zone serial C \<and> (\<exists>x \<in> C. delta_key x = (zone, ''NS'')) \<and> cname_alone C \<and> uniform_ttl C"

text \<open>Owner names lie in the zone, and every record can be put on the wire.\<close>

definition servable_content :: "string \<Rightarrow> delta_row set \<Rightarrow> bool" where
  "servable_content zone C \<longleftrightarrow> (\<forall>(n, t, ttl, rd, w) \<in> C. in_zone zone n \<and> row_fits n t ttl w)"

lemma check_cnames_Inr:
  "check_cnames rs = Inr () \<Longrightarrow> (n, ts) \<in> set rs \<Longrightarrow> map_of ts ''CNAME'' = Some s \<Longrightarrow>
    length ts \<le> 1 \<and> length (snd s) \<le> 1"
  by (induction rs rule: check_cnames.induct) (auto split: option.splits if_splits)

lemma cname_alone_rrs:
  assumes wf: "wf_rrsets rs" and c: "check_cnames rs = Inr ()"
  shows "cname_alone (rrs_content rs)"
  unfolding cname_alone_def
proof (intro ballI impI)
  fix x y
  assume xy: "x \<in> rrs_content rs" "y \<in> rrs_content rs" and cn: "snd (delta_key x) = ''CNAME''"
    and same: "fst (delta_key y) = fst (delta_key x)"
  from xy cn same obtain n t ttl rd w ttl' rd' w' where
    x: "x = (n, ''CNAME'', ttl, rd, w)" and y: "y = (n, t, ttl', rd', w')"
    by (cases x; cases y) (auto simp: delta_key_def)
  from xy obtain es es' where es: "rr_lookup rs n ''CNAME'' = Some (ttl, es)" "(rd, w) \<in> set es"
    and es': "rr_lookup rs n t = Some (ttl', es')" "(rd', w') \<in> set es'"
    by (auto simp: x y mem_rrs_content)
  let ?ts = "types_at rs n"
  have ne: "?ts \<noteq> []" using es(1) by (auto simp: rr_lookup_def)
  then have "(n, ?ts) \<in> set rs" using types_at_mem [OF wf] by blast
  with c es(1) have len: "length ?ts \<le> 1" "length es \<le> 1"
    using check_cnames_Inr [of rs n ?ts "(ttl, es)"] by (auto simp: rr_lookup_def)
  from ne len(1) obtain p where p: "?ts = [p]" by (cases ?ts) auto
  with es(1) es'(1) have "t = ''CNAME''" "(ttl', es') = (ttl, es)"
    by (auto simp: rr_lookup_def split: if_splits)
  moreover from len(2) es(2) es'(2) this(2) have "(rd', w') = (rd, w)" by (cases es) auto
  ultimately show "y = x" by (simp add: x y)
qed

lemma validate_sound:
  assumes "validate_zone_invariants zone rs serial = Inr ()" and wf: "wf_rrsets rs"
  shows "valid_content zone serial (rrs_content rs)"
proof -
  from assms(1) obtain ttl rj w where soa: "rr_lookup rs zone ''SOA'' = Some (ttl, [(rj, w)])"
    by (auto simp: validate_zone_invariants_def split: option.splits list.splits prod.splits)
  with assms(1) obtain s where rj: "rj = Soa s"
    by (cases rj) (auto simp: validate_zone_invariants_def)
  with assms(1) soa have ser: "s_serial s = serial"
    and ns: "(case rr_lookup rs zone ''NS'' of None \<Rightarrow> True | Some s \<Rightarrow> snd s = []) = False"
    and c: "check_cnames rs = Inr ()"
    by (auto simp: validate_zone_invariants_def split: if_splits)
  have "{x \<in> rrs_content rs. delta_key x = (zone, ''SOA'')} = {(zone, ''SOA'', ttl, Soa s, w)}"
    unfolding rrs_content_at by (simp add: add_rows_def soa rj)
  with ser have "soa_at zone serial (rrs_content rs)" unfolding soa_at_def by blast
  moreover from ns obtain nttl rd nw es where "rr_lookup rs zone ''NS'' = Some (nttl, (rd, nw) # es)"
    by (auto split: option.splits simp: neq_Nil_conv)
  then have "(zone, ''NS'', nttl, rd, nw) \<in> rrs_content rs" by (auto simp: mem_rrs_content)
  then have "\<exists>x \<in> rrs_content rs. delta_key x = (zone, ''NS'')" by (force simp: delta_key_def)
  ultimately show ?thesis
    by (simp add: valid_content_def cname_alone_rrs [OF wf c] uniform_ttl_rrs_content)
qed

subsection \<open>What a changeset keeps\<close>

definition entries_ok :: "string \<Rightarrow> rrsets \<times> rrkey list \<Rightarrow> bool" where
  "entries_ok zone st \<longleftrightarrow> wf_rrsets (fst st) \<and> servable_content zone (rrs_content (fst st))"

lemma servable_subset: "servable_content zone C \<Longrightarrow> D \<subseteq> C \<Longrightarrow> servable_content zone D"
  unfolding servable_content_def by blast

lemma rrs_content_remove: "rrs_content (rr_remove rs n t) \<subseteq> rrs_content rs"
  by (auto simp: mem_rrs_content rr_simps split: if_splits)

lemma rrs_content_store:
  "rrs_content (rr_store rs n t (ttl, es)) \<subseteq> rrs_content rs \<union> {(n, t, ttl, rd, w) |rd w. (rd, w) \<in> set es}"
  by (auto simp: mem_rrs_content rr_simps split: if_splits)

lemma canon_records_Inr:
  "canon_records i zone n t vals seen = Inr es \<Longrightarrow>
    distinct (map fst es) \<and> set (map fst es) \<inter> set seen = {} \<and>
    (\<forall>(rd, w) \<in> set es. t \<in> set SUPPORTED_TYPES \<and> rr_fits_message n t w = Inr () \<and> encode_rdata t rd = Inr w)"
proof (induction vals arbitrary: seen es)
  case (Cons v vals)
  from Cons.prems obtain rj rw es' where r: "canonical_rdata t v zone = Inr (rj, rw)"
    and f: "rr_fits_message n t rw = Inr ()" and new: "rj \<notin> set seen"
    and rest: "canon_records i zone n t vals (rj # seen) = Inr es'" and es: "es = (rj, rw) # es'"
    by (auto simp: bindE_Inr_iff split: if_splits)
  have "t \<in> set SUPPORTED_TYPES \<and> encode_rdata t rj = Inr rw"
    using r by (rule canonical_rdata_Inr) simp
  with Cons.IH [OF rest] f new show ?case by (auto simp: es)
qed simp

lemma entries_ok_delete: "entries_ok zone st \<Longrightarrow> entries_ok zone (apply_delete n t st)"
  using apply_delete_wf [of st n t] servable_subset [OF _ rrs_content_remove]
  by (cases st) (auto simp: entries_ok_def apply_delete_def)

lemma entries_ok_replace:
  assumes ok: "entries_ok zone st" and z: "canonical_form zone" and n: "canonical_name raw zone = Inr n"
    and t: "t \<in> set SUPPORTED_TYPES" and ttl: "0 \<le> ttl" "ttl \<le> 0xFFFFFFFF"
    and es: "canon_records i zone n t vals [] = Inr es"
  shows "entries_ok zone (apply_replace n t ttl es st)"
proof -
  obtain rs ch where st: "st = (rs, ch)" by (cases st)
  have new: "servable_content zone {(n, t, ttl, rd, w) |rd w. (rd, w) \<in> set es}"
    using canonical_name_sound [OF n z] canon_records_Inr [OF es] t ttl
    by (auto simp: servable_content_def row_fits_def rr_fits_message_Inr)
  have "servable_content zone (rrs_content rs \<union> {(n, t, ttl, rd, w) |rd w. (rd, w) \<in> set es})"
    using ok new by (auto simp: st entries_ok_def servable_content_def)
  from servable_subset [OF this rrs_content_store] have s: "servable_content zone (rrs_content (rr_store rs n t (ttl, es)))" .
  have r: "servable_content zone (rrs_content (rr_remove rs n t))" "servable_content zone (rrs_content rs)"
    using ok servable_subset [OF _ rrs_content_remove] by (auto simp: st entries_ok_def)
  show ?thesis
    using ok apply_replace_wf [of st n t ttl es] s r
    by (auto simp: st entries_ok_def apply_replace_def Let_def)
qed

lemma apply_ops_entries_ok:
  assumes "apply_ops zone ops st = Inr st'" and "entries_ok zone st" and z: "canonical_form zone"
  shows "entries_ok zone st'"
  using assms(1,2) by (rule apply_ops_invariant) (auto intro: entries_ok_delete entries_ok_replace [OF _ z])

lemma apply_ops_track:
  assumes "apply_ops zone ops (rs0, []) = Inr st'" and "wf_rrsets rs0"
  shows "track rs0 st' \<and> wf_rrsets (fst st')"
  using assms(1)
proof (rule apply_ops_invariant)
  show "track rs0 (rs0, []) \<and> wf_rrsets (fst (rs0, [] :: rrkey list))"
    using assms(2) by (simp add: track_start)
qed (auto intro: apply_delete_track apply_replace_track apply_delete_wf apply_replace_wf)

end
