(* ===== verification/Publish_Effect.thy ===== *)
theory Publish_Effect
  imports Zone_Valid
begin

text \<open>
  The outcomes of a publish: replay, refusal before a write, a ledgered failure, or a commit;
  and exactly what each leaves in the database.
\<close>

subsection \<open>Commit\<close>

lemma commit_publish_Inr:
  assumes "commit_publish ts z rid fp base nxt rs changed d = Inr d'"
  obtains d1 where
    "materialize (z_name z) (z_current_version z) (z_current_version z + 1) rs changed d = Inr d1"
    "versions d' = versions d @ [\<lparr>v_zone = z_name z, v_version_id = z_current_version z + 1,
        v_serial = nxt, v_request_id = rid, v_created_at = ts\<rparr>]"
    "(z_name z, z_current_version z + 1) \<notin> version_key ` set (versions d)"
    "(z_name z, nxt) \<notin> version_serial_key ` set (versions d)"
    "publish_requests d' = publish_requests d @
       [request_entry ts (z_name z) rid fp (COMMITTED (z_current_version z + 1) nxt) base nxt]"
    "(z_name z, rid) \<notin> request_key ` set (publish_requests d)"
    "zones d' = update_zone (z_name z) (\<lambda>y. y\<lparr>z_current_serial := nxt,
        z_current_version := z_current_version z + 1, z_record_count := int (count_records rs),
        z_rrset_count := int (count_rrsets rs), z_updated_at := ts\<rparr>) (zones d)"
    "records d' = records d1" "changes d' = changes d1" "keys d' = keys d"
    "transfer_refs d' = transfer_refs d"
    "cleanup_tasks d' = cleanup_tasks (enqueue_cleanup ts (z_name z) d)" "next_task_id d' = next_task_id d + 1"
proof -
  let ?v = "\<lparr>v_zone = z_name z, v_version_id = z_current_version z + 1, v_serial = nxt,
      v_request_id = rid, v_created_at = ts\<rparr>"
  let ?p = "request_entry ts (z_name z) rid fp (COMMITTED (z_current_version z + 1) nxt) base nxt"
  from assms obtain d1 vs ps where
    m: "materialize (z_name z) (z_current_version z) (z_current_version z + 1) rs changed d = Inr d1"
    and v: "insert_version ?v (versions d1) = Inr vs"
    and p: "insert_unique request_key ?p (publish_requests d1) = Inr ps"
    and d': "d' = enqueue_cleanup ts (z_name z) (d1\<lparr>versions := vs, publish_requests := ps,
        zones := update_zone (z_name z) (\<lambda>y. y\<lparr>z_current_serial := nxt,
          z_current_version := z_current_version z + 1, z_record_count := int (count_records rs),
          z_rrset_count := int (count_rrsets rs), z_updated_at := ts\<rparr>) (zones d1)\<rparr>)"
    by (auto simp: commit_publish_def Let_def bindE_Inr_iff)
  from materialize_elim [OF m] have d1: "d1 = d\<lparr>records := records d1, changes := changes d1\<rparr>" by auto
  then have same: "versions d1 = versions d" "publish_requests d1 = publish_requests d" "zones d1 = zones d"
    "keys d1 = keys d" "transfer_refs d1 = transfer_refs d" "cleanup_tasks d1 = cleanup_tasks d"
    "next_task_id d1 = next_task_id d"
    by (metis db.select_convs db.surjective db.update_convs)+
  have vk: "version_key ?v = (z_name z, z_current_version z + 1)" "version_serial_key ?v = (z_name z, nxt)"
    by (simp_all add: version_key_def version_serial_key_def)
  have pk: "request_key ?p = (z_name z, rid)" by (simp add: request_key_def request_entry_def)
  from version_table.ins_Inr [OF v] serial_index.ins_Inr [OF v] request_table.ins_Inr [OF p]
  show ?thesis
    by (intro that [OF m]) (simp_all add: d' same vk pk enqueue_cleanup_def)
qed

lemma plan_publish_Inr:
  assumes "plan_publish d z base nxt ops = Inr (rs, changed)"
  shows "compare base nxt = GREATER" and "compare (z_current_serial z) base = EQUAL"
    and "apply_ops (z_name z) ops (load_rrsets d (z_name z) (z_current_version z), []) = Inr (rs, changed)"
    and "validate_zone_invariants (z_name z) rs nxt = Inr ()"
    and "count_records rs \<le> 10000"
proof -
  from assms have f: "check_forward base nxt = Inr ()" and b: "check_base (z_current_serial z) base = Inr ()"
    and "apply_ops (z_name z) ops (load_rrsets d (z_name z) (z_current_version z), []) = Inr (rs, changed)
      \<and> validate_zone_invariants (z_name z) rs nxt = Inr () \<and> count_records rs \<le> 10000"
    by (auto simp: plan_publish_def Let_def bindE_Inr_iff MAX_RECORDS_PER_ZONE_def split: if_splits)
  then show "apply_ops (z_name z) ops (load_rrsets d (z_name z) (z_current_version z), []) = Inr (rs, changed)"
    and "validate_zone_invariants (z_name z) rs nxt = Inr ()" and "count_records rs \<le> 10000" by auto
  show "compare base nxt = GREATER"
    using f is_forward_iff [of base nxt]
    by (cases "is_forward base nxt") (auto simp: check_forward_def Let_def split: bool.splits)
  show "compare (z_current_serial z) base = EQUAL"
    using b by (auto simp: check_base_def Let_def split: if_splits)
qed

subsection \<open>Outcomes\<close>

lemma publish_replay:
  assumes "find_zone d zname = Some z" and l: "find_request d (z_name z) rid = Some l"
  shows "publish ts zname rid base nxt ops fp d =
    (if p_fingerprint l \<noteq> fp then Inl (idempotency_conflict l) else ledger_result l, d)"
proof -
  have f: "fail_or_rollback ts (z_name z) rid fp base nxt e d d = d" for e
    by (simp add: fail_or_rollback_def l)
  show ?thesis
    by (cases "p_status l")
      (simp_all add: publish_def Let_def assms idempotency_conflict_def ledger_result_def api_error_def f)
qed

text \<open>The four ways a publish ends.\<close>

lemma publish_cases [consumes 1]:
  assumes "publish ts zname rid base nxt ops fp d = (res, d')"
  obtains (replay) z l where "find_zone d zname = Some z" "find_request d (z_name z) rid = Some l"
      "d' = d" "res = (if p_fingerprint l \<noteq> fp then Inl (idempotency_conflict l) else ledger_result l)"
  | (refused) e where "res = Inl e" "d' = d"
  | (failed) z e where "find_zone d zname = Some z" "find_request d (z_name z) rid = None"
      "res = Inl (ApiError e)" "ae_code e \<in> set LEDGERABLE_FAILURES"
      "d' = d\<lparr>publish_requests := publish_requests d @
         [request_entry ts (z_name z) rid fp (FAILED e) base nxt]\<rparr>"
  | (committed) z rs changed where "find_zone d zname = Some z" "find_request d (z_name z) rid = None"
      "plan_publish d z base nxt ops = Inr (rs, changed)"
      "commit_publish ts z rid fp base nxt rs changed d = Inr d'"
      "res = Inr \<lparr>pr_zone = z_name z, pr_request_id = rid, pr_version_id = z_current_version z + 1,
         pr_serial = nxt, pr_replayed = False\<rparr>"
proof (cases "find_zone d zname")
  case None
  with assms show ?thesis by (intro refused) (auto simp: publish_def)
next
  case (Some z)
  show ?thesis
  proof (cases "find_request d (z_name z) rid")
    case (Some l)
    with assms \<open>find_zone d zname = Some z\<close> show ?thesis
      by (intro replay [of z l]) (auto simp: publish_replay)
  next
    case None
    let ?run = "bindE (plan_publish d z base nxt ops) (\<lambda>(rs, changed).
        bindE (commit_publish ts z rid fp base nxt rs changed d) (\<lambda>d'.
          Inr (\<lparr>pr_zone = z_name z, pr_request_id = rid, pr_version_id = z_current_version z + 1,
            pr_serial = nxt, pr_replayed = False\<rparr>, d')))"
    have p: "publish ts zname rid base nxt ops fp d = (case ?run of
          Inr (r, d') \<Rightarrow> (Inr r, d')
        | Inl (ApiError e) \<Rightarrow> (Inl (ApiError e), fail_or_rollback ts (z_name z) rid fp base nxt e d d)
        | Inl e \<Rightarrow> (Inl e, d))"
      using Some None by (simp add: publish_def Let_def)
    show ?thesis
    proof (cases ?run)
      case (Inl e)
      show ?thesis
      proof (cases "\<exists>a. e = ApiError a \<and> ae_code a \<in> set LEDGERABLE_FAILURES")
        case True
        then obtain a where "e = ApiError a" "ae_code a \<in> set LEDGERABLE_FAILURES" by auto
        with assms Inl p Some None show ?thesis
          by (intro failed [of z a]) (auto simp: fail_or_rollback_def)
      next
        case False
        with assms Inl p show ?thesis
          by (intro refused [of e]) (auto simp: fail_or_rollback_def split: exn.splits)
      qed
    next
      case (Inr x)
      then obtain rs changed d2 where "plan_publish d z base nxt ops = Inr (rs, changed)"
        "commit_publish ts z rid fp base nxt rs changed d = Inr d2"
        "x = (\<lparr>pr_zone = z_name z, pr_request_id = rid, pr_version_id = z_current_version z + 1,
            pr_serial = nxt, pr_replayed = False\<rparr>, d2)"
        by (auto simp: bindE_Inr_iff)
      with assms p Inr Some None show ?thesis by (intro committed [of z rs changed]) auto
    qed
  qed
qed

lemma find_zone_name: "find_zone d zname = Some z \<Longrightarrow> z_name z = zname \<and> z \<in> set (zones d)"
  by (auto simp: find_zone_def find_Some_iff)

end
