(* ===== verification/Keys.thy ===== *)
theory Keys
  imports Snapshot
begin

text \<open>
  TSIG transfer keys of \<open>app/storage.py\<close>: \<open>install_key\<close> (atomic rotation),
  \<open>list_keys\<close> and \<open>revoke_key\<close>.  The random secret and the clock are parameters.
\<close>

definition keys_of :: "db \<Rightarrow> string \<Rightarrow> key_row list" where
  "keys_of d zone = filter (\<lambda>k. k_zone k = zone) (keys d)"

text \<open>\<open>COALESCE(MAX(gen), -1) + 1\<close>.\<close>

definition next_gen :: "db \<Rightarrow> string \<Rightarrow> int" where
  "next_gen d zone = fold max (map k_gen (keys_of d zone)) (-1) + 1"

definition key_state_invalid :: "string \<Rightarrow> int \<Rightarrow> exn" where
  "key_state_invalid msg st = api_error KEY_STATE_INVALID msg st []"

definition effective_key_name :: "string \<Rightarrow> string option \<Rightarrow> string" where
  "effective_key_name key_id key_name =
     (case key_name of None \<Rightarrow> key_id | Some n \<Rightarrow> if n = [] then key_id else n)"

text \<open>Every ACTIVE key of the zone becomes RETIRING with the new hard expiry.\<close>

definition retire_active :: "string \<Rightarrow> int \<Rightarrow> key_row \<Rightarrow> key_row" where
  "retire_active zone expires k =
     (if k_zone k = zone \<and> k_state k = ACTIVE then k\<lparr>k_state := RETIRING, k_expires_at := Some expires\<rparr> else k)"

definition install_key ::
  "int \<Rightarrow> bytes \<Rightarrow> string \<Rightarrow> string \<Rightarrow> string option \<Rightarrow> int option \<Rightarrow> db \<Rightarrow> (exn + key_row) \<times> db" where
  "install_key ts secret zone key_id key_name expires_at d =
     (case get_zone_row zone d of
        Inl e \<Rightarrow> (Inl e, d)
      | Inr _ \<Rightarrow>
        let kname = effective_key_name key_id key_name;
            expires = (case expires_at of None \<Rightarrow> ts + 3600 * 1000 | Some e \<Rightarrow> e) in
        if expires \<le> ts then
          (Inl (key_state_invalid ''retireInSeconds / expiresAt must be in the future'' 422), d)
        else
          let gen = next_gen d zone;
              row = \<lparr>k_zone = zone, k_key_id = key_id, k_gen = gen, k_key_name = kname, k_secret = secret,
                k_state = ACTIVE, k_created_at = ts, k_expires_at = None, k_revoked_at = None\<rparr> in
          if \<exists>k \<in> set (keys_of d zone). k_key_name k = kname \<and> k_state k \<noteq> REVOKED then
            (Inl (key_state_invalid (''key name '' @ repr_str kname @ '' is already in use by a non-revoked key'') 409), d)
          else if \<exists>k \<in> set (keys_of d zone). k_key_id k = key_id then
            (Inl (key_state_invalid (''key id '' @ repr_str key_id @ '' already exists'') 409), d)
          else case insert_unique key_key row (map (retire_active zone expires) (keys d)) of
            Inl _ \<Rightarrow> (Inl (key_state_invalid (''key id '' @ repr_str key_id @ '' already exists'') 409), d)
          | Inr ks \<Rightarrow> (Inr row, d\<lparr>keys := ks\<rparr>))"

definition list_keys :: "string \<Rightarrow> db \<Rightarrow> exn + key_row list" where
  "list_keys zone d = bindE (get_zone_row zone d) (\<lambda>_. Inr (sort_key k_gen (keys_of d zone)))"

definition revoke_row :: "int \<Rightarrow> string \<Rightarrow> string \<Rightarrow> key_row \<Rightarrow> key_row" where
  "revoke_row ts zone key_id k =
     (if k_zone k = zone \<and> k_key_id k = key_id
      then k\<lparr>k_state := REVOKED, k_revoked_at := Some ts, k_expires_at := None\<rparr> else k)"

definition revoke_key :: "int \<Rightarrow> string \<Rightarrow> string \<Rightarrow> db \<Rightarrow> (exn + int) \<times> db" where
  "revoke_key ts zone key_id d =
     (case get_zone_row zone d of
        Inl e \<Rightarrow> (Inl e, d)
      | Inr _ \<Rightarrow>
        (case find (\<lambda>k. k_zone k = zone \<and> k_key_id k = key_id) (keys d) of
           None \<Rightarrow> (Inl (api_error KEY_NOT_FOUND (''key '' @ key_id @ '' not found'') 404 []), d)
         | Some k \<Rightarrow>
           if k_state k = REVOKED then (Inl (key_state_invalid ''key already REVOKED'' 409), d)
           else (Inr ts, d\<lparr>keys := map (revoke_row ts zone key_id) (keys d)\<rparr>)))"

subsection \<open>The key table invariant\<close>

text \<open>
  Per zone: key ids and generations are unique, generations are not negative, at most one key
  is ACTIVE and it has the greatest generation, two keys that are not revoked have different
  names, an ACTIVE key never expires and a RETIRING key has an expiry.
\<close>

definition key_ok :: "key_row \<Rightarrow> bool" where
  "key_ok k \<longleftrightarrow> 0 \<le> k_gen k \<and> (k_state k = ACTIVE \<longrightarrow> k_expires_at k = None) \<and>
     (k_state k = RETIRING \<longrightarrow> k_expires_at k \<noteq> None)"

definition keys_compat :: "key_row \<Rightarrow> key_row \<Rightarrow> bool" where
  "keys_compat k l \<longleftrightarrow> (k_zone k = k_zone l \<longrightarrow>
     (k_gen k = k_gen l \<longrightarrow> k = l) \<and> (k_state k = ACTIVE \<longrightarrow> k_gen l \<le> k_gen k) \<and>
     (k_key_name k = k_key_name l \<longrightarrow> k_state k \<noteq> REVOKED \<longrightarrow> k_state l \<noteq> REVOKED \<longrightarrow> k = l))"

definition wf_key_list :: "key_row list \<Rightarrow> bool" where
  "wf_key_list ks \<longleftrightarrow> distinct (map key_key ks) \<and> (\<forall>k \<in> set ks. key_ok k) \<and>
     (\<forall>k \<in> set ks. \<forall>l \<in> set ks. keys_compat k l)"

definition wf_keys :: "db \<Rightarrow> bool" where
  "wf_keys d \<longleftrightarrow> wf_key_list (keys d)"

lemma fold_max_ge: "(x :: int) \<in> insert a (set xs) \<Longrightarrow> x \<le> fold max xs a"
proof (induction xs arbitrary: a x)
  case (Cons y ys)
  have "max y a \<le> fold max ys (max y a)" by (rule Cons.IH) simp
  with Cons show ?case by (cases "x \<in> set ys") auto
qed auto

lemma fold_max_mem: "fold max xs (a :: int) \<in> insert a (set xs)"
proof (induction xs arbitrary: a)
  case (Cons y ys)
  show ?case using Cons [of "max y a"] by (auto simp: max_def split: if_splits)
qed auto

lemma next_gen_greater: "k \<in> set (keys d) \<Longrightarrow> k_zone k = zone \<Longrightarrow> k_gen k < next_gen d zone"
  using fold_max_ge [of "k_gen k" "-1" "map k_gen (keys_of d zone)"]
  by (auto simp: next_gen_def keys_of_def)

lemma next_gen_nonneg: "0 \<le> next_gen d zone"
  using fold_max_ge [of "-1" "-1" "map k_gen (keys_of d zone)"] by (simp add: next_gen_def)

lemma retire_active_simps [simp]:
  "k_zone (retire_active z e k) = k_zone k" "k_key_id (retire_active z e k) = k_key_id k"
  "k_gen (retire_active z e k) = k_gen k" "k_key_name (retire_active z e k) = k_key_name k"
  "k_secret (retire_active z e k) = k_secret k" "key_key (retire_active z e k) = key_key k"
  "k_state (retire_active z e k) = REVOKED \<longleftrightarrow> k_state k = REVOKED"
  by (simp_all add: retire_active_def key_key_def)

lemma revoke_row_simps [simp]:
  "k_zone (revoke_row ts z i k) = k_zone k" "k_key_id (revoke_row ts z i k) = k_key_id k"
  "k_gen (revoke_row ts z i k) = k_gen k" "k_key_name (revoke_row ts z i k) = k_key_name k"
  "k_secret (revoke_row ts z i k) = k_secret k" "key_key (revoke_row ts z i k) = key_key k"
  by (simp_all add: revoke_row_def key_key_def)

text \<open>What a successful install did.\<close>

lemma install_key_Inr:
  assumes "install_key ts secret zone key_id key_name expires_at d = (Inr row, d')"
  obtains expires where
    "ts < expires" "expires = (case expires_at of None \<Rightarrow> ts + 3600 * 1000 | Some e \<Rightarrow> e)"
    "row = \<lparr>k_zone = zone, k_key_id = key_id, k_gen = next_gen d zone,
        k_key_name = effective_key_name key_id key_name, k_secret = secret,
        k_state = ACTIVE, k_created_at = ts, k_expires_at = None, k_revoked_at = None\<rparr>"
    "d' = d\<lparr>keys := map (retire_active zone expires) (keys d) @ [row]\<rparr>"
    "\<And>k. k \<in> set (keys d) \<Longrightarrow> k_zone k = zone \<Longrightarrow>
       k_key_id k \<noteq> key_id \<and> (k_key_name k = k_key_name row \<longrightarrow> k_state k = REVOKED)"
proof -
  let ?e = "case expires_at of None \<Rightarrow> ts + 3600 * 1000 | Some e \<Rightarrow> e"
  let ?name = "effective_key_name key_id key_name"
  let ?row = "\<lparr>k_zone = zone, k_key_id = key_id, k_gen = next_gen d zone, k_key_name = ?name, k_secret = secret,
      k_state = ACTIVE, k_created_at = ts, k_expires_at = None, k_revoked_at = None\<rparr>"
  from assms have e: "ts < ?e"
    and n: "\<not> (\<exists>k \<in> set (keys_of d zone). k_key_name k = ?name \<and> k_state k \<noteq> REVOKED)"
    and i: "\<not> (\<exists>k \<in> set (keys_of d zone). k_key_id k = key_id)"
    by (simp_all add: install_key_def Let_def split: sum.splits if_splits)
  from assms e obtain ks where ks: "insert_unique key_key ?row (map (retire_active zone ?e) (keys d)) = Inr ks"
    and r: "row = ?row" "d' = d\<lparr>keys := ks\<rparr>"
    by (simp add: install_key_def Let_def not_le [symmetric] n i split: sum.splits)
  from ks have "ks = map (retire_active zone ?e) (keys d) @ [?row]"
    by (simp add: insert_unique_def split: if_splits)
  with e r show ?thesis
    using n i by (intro that [of ?e]) (auto simp: keys_of_def)
qed

lemma install_key_Inl:
  "install_key ts secret zone key_id key_name expires_at d = (Inl e, d') \<Longrightarrow> d' = d"
  by (auto simp: install_key_def Let_def split: sum.splits if_splits)

lemma revoke_key_Inr:
  assumes "revoke_key ts zone key_id d = (Inr r, d')"
  obtains k where "find (\<lambda>k. k_zone k = zone \<and> k_key_id k = key_id) (keys d) = Some k" "k_state k \<noteq> REVOKED"
    "d' = d\<lparr>keys := map (revoke_row ts zone key_id) (keys d)\<rparr>" "r = ts"
proof -
  from assms obtain z where z: "get_zone_row zone d = Inr z"
    by (cases "get_zone_row zone d") (simp_all add: revoke_key_def)
  from assms z obtain k where k: "find (\<lambda>k. k_zone k = zone \<and> k_key_id k = key_id) (keys d) = Some k"
    by (cases "find (\<lambda>k. k_zone k = zone \<and> k_key_id k = key_id) (keys d)") (simp_all add: revoke_key_def)
  from assms z k have live: "k_state k \<noteq> REVOKED" by (auto simp: revoke_key_def)
  then show ?thesis
    by (rule that [OF k]) (use assms z k live in \<open>auto simp: revoke_key_def\<close>)
qed

lemma revoke_key_Inl: "revoke_key ts zone key_id d = (Inl e, d') \<Longrightarrow> d' = d"
  by (auto simp: revoke_key_def split: sum.splits option.splits if_splits)

text \<open>Changing states downwards keeps the invariant.\<close>

lemma wf_key_list_map:
  assumes wf: "wf_key_list ks" and "\<And>k. key_key (f k) = key_key k"
    and "\<And>k. key_ok k \<Longrightarrow> key_ok (f k)" and "\<And>k l. keys_compat k l \<Longrightarrow> keys_compat (f k) (f l)"
  shows "wf_key_list (map f ks)"
proof -
  have "map key_key (map f ks) = map key_key ks" by (simp add: assms(2))
  then show ?thesis
    using wf assms(3,4) unfolding wf_key_list_def by (metis (no_types, lifting) image_iff list.set_map)
qed

lemma wf_key_list_revoke: "wf_key_list ks \<Longrightarrow> wf_key_list (map (revoke_row ts zone key_id) ks)"
  by (rule wf_key_list_map) (auto simp: revoke_row_def key_key_def key_ok_def keys_compat_def)

lemma wf_key_list_retire: "wf_key_list ks \<Longrightarrow> wf_key_list (map (retire_active zone e) ks)"
  by (rule wf_key_list_map) (auto simp: retire_active_def key_key_def key_ok_def keys_compat_def)

lemma wf_keys_revoke_key:
  assumes "wf_keys d"
  shows "wf_keys (snd (revoke_key ts zone key_id d))"
proof (cases "revoke_key ts zone key_id d")
  case (Pair res d')
  show ?thesis
  proof (cases res)
    case (Inl e)
    with Pair assms show ?thesis by (auto dest: revoke_key_Inl)
  next
    case (Inr r)
    with Pair have "revoke_key ts zone key_id d = (Inr r, d')" by simp
    then have "d' = d\<lparr>keys := map (revoke_row ts zone key_id) (keys d)\<rparr>" by (rule revoke_key_Inr)
    with Pair assms show ?thesis by (simp add: wf_keys_def wf_key_list_revoke)
  qed
qed

text \<open>Adding a fresh ACTIVE key when no other key of its zone is ACTIVE.\<close>

lemma wf_key_list_add:
  assumes wf: "wf_key_list ks" and "key_key r \<notin> key_key ` set ks" and "key_ok r"
    and new: "\<And>k. k \<in> set ks \<Longrightarrow> k_zone k = k_zone r \<Longrightarrow>
      k_gen k < k_gen r \<and> k_state k \<noteq> ACTIVE \<and> (k_key_name k = k_key_name r \<longrightarrow> k_state k = REVOKED)"
  shows "wf_key_list (ks @ [r])"
proof -
  have "keys_compat r k \<and> keys_compat k r" if "k \<in> set ks" for k
    using new [OF that] by (auto simp: keys_compat_def)
  then show ?thesis
    using assms(1-3) by (auto simp: wf_key_list_def) (simp_all add: keys_compat_def)
qed

lemma wf_keys_install_key:
  assumes wf: "wf_keys d"
  shows "wf_keys (snd (install_key ts secret zone key_id key_name expires_at d))"
proof (cases "install_key ts secret zone key_id key_name expires_at d")
  case (Pair res d')
  show ?thesis
  proof (cases res)
    case (Inl e)
    with Pair wf show ?thesis by (auto dest: install_key_Inl)
  next
    case (Inr row)
    with Pair have "install_key ts secret zone key_id key_name expires_at d = (Inr row, d')" by simp
    then show ?thesis
    proof (rule install_key_Inr)
      fix expires
      assume row: "row = \<lparr>k_zone = zone, k_key_id = key_id, k_gen = next_gen d zone,
          k_key_name = effective_key_name key_id key_name, k_secret = secret,
          k_state = ACTIVE, k_created_at = ts, k_expires_at = None, k_revoked_at = None\<rparr>"
        and d': "d' = d\<lparr>keys := map (retire_active zone expires) (keys d) @ [row]\<rparr>"
        and fresh: "\<And>k. k \<in> set (keys d) \<Longrightarrow> k_zone k = zone \<Longrightarrow>
          k_key_id k \<noteq> key_id \<and> (k_key_name k = k_key_name row \<longrightarrow> k_state k = REVOKED)"
      have "wf_key_list (map (retire_active zone expires) (keys d) @ [row])"
      proof (rule wf_key_list_add)
        show "key_key row \<notin> key_key ` set (map (retire_active zone expires) (keys d))"
          by (auto simp: row key_key_def dest: fresh)
        show "k_gen k < k_gen row \<and> k_state k \<noteq> ACTIVE \<and> (k_key_name k = k_key_name row \<longrightarrow> k_state k = REVOKED)"
          if "k \<in> set (map (retire_active zone expires) (keys d))" "k_zone k = k_zone row" for k
        proof -
          from that(1) obtain k0 where k0: "k0 \<in> set (keys d)" "k = retire_active zone expires k0" by auto
          with that(2) have "k_zone k0 = zone" by (simp add: row)
          with fresh [OF k0(1)] next_gen_greater [OF k0(1)] show ?thesis
            by (simp add: k0(2) row) (simp add: retire_active_def)
        qed
      qed (use wf in \<open>simp_all add: row next_gen_nonneg wf_key_list_retire wf_keys_def key_ok_def\<close>)
      then show ?thesis using Pair by (simp add: d' wf_keys_def)
    qed
  qed
qed

end
