(* ===== verification/Cleanup.thy ===== *)
theory Cleanup
  imports Keys
begin

text \<open>
  Transfer pins and the cleanup queue of \<open>app/storage.py\<close> with the worker of
  \<open>app/cleaner.py\<close>.  Reference ids, lease tokens and clock readings are parameters.
\<close>

definition REF_STALE_SECONDS :: int where "REF_STALE_SECONDS = 300"
definition CLEANUP_LEASE_SECONDS :: int where "CLEANUP_LEASE_SECONDS = 30"

subsection \<open>Transfer pins\<close>

definition pin_transfer ::
  "string \<Rightarrow> int \<Rightarrow> string \<Rightarrow> string \<Rightarrow> int \<Rightarrow> int \<Rightarrow> int \<Rightarrow> db \<Rightarrow> exn + db" where
  "pin_transfer ref_id ts zone instance_id target min_version key_gen d =
     bindE (insert_unique f_ref_id
         \<lparr>f_ref_id = ref_id, f_zone = zone, f_instance_id = instance_id, f_version_id = target,
           f_min_version = min_version, f_key_gen = key_gen, f_started_at = ts, f_last_seen = ts,
           f_state = OPEN\<rparr> (transfer_refs d)) (\<lambda>refs.
       Inr (d\<lparr>transfer_refs := refs\<rparr>))"

definition update_ref :: "string \<Rightarrow> (ref_row \<Rightarrow> ref_row) \<Rightarrow> ref_row list \<Rightarrow> ref_row list" where
  "update_ref ref_id f = map (\<lambda>r. if f_ref_id r = ref_id then f r else r)"

definition heartbeat_transfer :: "int \<Rightarrow> string \<Rightarrow> db \<Rightarrow> db" where
  "heartbeat_transfer now ref_id d =
     d\<lparr>transfer_refs := update_ref ref_id (\<lambda>r. r\<lparr>f_last_seen := now\<rparr>) (transfer_refs d)\<rparr>"

definition release_transfer :: "int \<Rightarrow> string \<Rightarrow> db \<Rightarrow> db" where
  "release_transfer now ref_id d =
     d\<lparr>transfer_refs := update_ref ref_id (\<lambda>r. r\<lparr>f_state := REF_DONE, f_last_seen := now\<rparr>) (transfer_refs d)\<rparr>"

subsection \<open>Claiming a task\<close>

text \<open>The claimable row: the oldest PENDING one, else the oldest RUNNING one whose lease expired.\<close>

definition lease_expired :: "int \<Rightarrow> task_row \<Rightarrow> bool" where
  "lease_expired now t =
     (t_state t = RUNNING \<and> (case t_lease_expires t of None \<Rightarrow> False | Some e \<Rightarrow> e < now))"

definition claimable :: "int \<Rightarrow> db \<Rightarrow> task_row option" where
  "claimable now d =
     (let ts = sort_key t_task_id (cleanup_tasks d) in
      case find (\<lambda>t. t_state t = PENDING) ts of
        None \<Rightarrow> find (lease_expired now) ts
      | Some t \<Rightarrow> Some t)"

definition update_task :: "nat \<Rightarrow> (task_row \<Rightarrow> task_row) \<Rightarrow> task_row list \<Rightarrow> task_row list" where
  "update_task i f = map (\<lambda>t. if t_task_id t = i then f t else t)"

definition lease_task :: "string \<Rightarrow> int \<Rightarrow> task_row \<Rightarrow> task_row" where
  "lease_task token now t =
     t\<lparr>t_state := RUNNING, t_token := Some token, t_leased_at := Some now,
       t_lease_expires := Some (now + CLEANUP_LEASE_SECONDS), t_attempts := t_attempts t + 1,
       t_last_error := None\<rparr>"

definition claim_cleanup_task :: "string \<Rightarrow> int \<Rightarrow> db \<Rightarrow> task_row option \<times> db" where
  "claim_cleanup_task token now d =
     (case claimable now d of
        None \<Rightarrow> (None, d)
      | Some t \<Rightarrow>
        let d' = d\<lparr>cleanup_tasks := update_task (t_task_id t) (lease_task token now) (cleanup_tasks d)\<rparr> in
        (find (\<lambda>t. t_token t = Some token) (cleanup_tasks d'), d'))"

subsection \<open>Retention\<close>

definition finish_task :: "int \<Rightarrow> nat \<Rightarrow> db \<Rightarrow> db" where
  "finish_task now i d =
     d\<lparr>cleanup_tasks := update_task i (\<lambda>t. t\<lparr>t_state := TASK_DONE, t_finished_at := Some now\<rparr>) (cleanup_tasks d)\<rparr>"

text \<open>The rows the cleanup deletes: released pins and pins with a dead heartbeat.\<close>

definition dead_ref :: "string \<Rightarrow> int \<Rightarrow> ref_row \<Rightarrow> bool" where
  "dead_ref zone alive_after r =
     (f_zone r = zone \<and> (f_state r = REF_DONE \<or> f_state r = OPEN \<and> f_last_seen r < alive_after))"

definition live_ref :: "string \<Rightarrow> int \<Rightarrow> ref_row \<Rightarrow> bool" where
  "live_ref zone alive_after r = (f_zone r = zone \<and> f_state r = OPEN \<and> alive_after < f_last_seen r)"

definition NO_PIN :: int where "NO_PIN = 999999999"

definition pin_horizon :: "string \<Rightarrow> int \<Rightarrow> ref_row list \<Rightarrow> int" where
  "pin_horizon zone alive_after refs =
     (case map (\<lambda>r. min (f_version_id r) (f_min_version r)) (filter (live_ref zone alive_after) refs) of
        [] \<Rightarrow> NO_PIN
      | m # ms \<Rightarrow> fold min ms m)"

text \<open>DELETE of one version from the three tables.\<close>

definition delete_version :: "string \<Rightarrow> int \<Rightarrow> db \<Rightarrow> db" where
  "delete_version zone vid d =
     d\<lparr>records := filter (\<lambda>r. \<not> (r_zone r = zone \<and> r_version_id r = vid)) (records d),
       changes := filter (\<lambda>c. \<not> (c_zone c = zone \<and> c_version_id c = vid)) (changes d),
       versions := filter (\<lambda>v. \<not> (v_zone v = zone \<and> v_version_id v = vid)) (versions d)\<rparr>"

record cleanup_result =
  cr_zone :: string
  cr_deleted :: "int list"
  cr_delete_before :: "int option"
  cr_horizon :: "int option"

definition run_cleanup :: "int \<Rightarrow> int \<Rightarrow> task_row \<Rightarrow> db \<Rightarrow> cleanup_result \<times> db" where
  "run_cleanup now now' task d =
     (let zone = t_zone task in
      case find_zone d zone of
        None \<Rightarrow>
          (\<lparr>cr_zone = zone, cr_deleted = [], cr_delete_before = None, cr_horizon = None\<rparr>,
           finish_task now (t_task_id task) d)
      | Some z \<Rightarrow>
        let keep = max 1 (z_retain_versions z);
            alive_after = now - REF_STALE_SECONDS * 1000;
            refs = filter (\<lambda>r. \<not> dead_ref zone alive_after r) (transfer_refs d);
            m = pin_horizon zone alive_after refs;
            delete_before = min (z_current_version z - keep + 1) m;
            candidates = sort (map v_version_id
              (filter (\<lambda>v. v_zone v = zone \<and> v_version_id v < delete_before) (versions d)));
            d' = fold (delete_version zone) candidates (d\<lparr>transfer_refs := refs\<rparr>) in
        (\<lparr>cr_zone = zone, cr_deleted = candidates, cr_delete_before = Some delete_before, cr_horizon = Some m\<rparr>,
         finish_task now' (t_task_id task) d'))"

text \<open>
  A database error anywhere in the transaction: it is rolled back, its text is recorded, and the
  exception passed on.  The task stays leased, and is claimed again when the lease has expired.
\<close>

definition cleanup_failed :: "string \<Rightarrow> task_row \<Rightarrow> db \<Rightarrow> db" where
  "cleanup_failed msg task d =
     d\<lparr>cleanup_tasks := update_task (t_task_id task) (\<lambda>t. t\<lparr>t_last_error := Some (take 500 msg)\<rparr>) (cleanup_tasks d)\<rparr>"

subsection \<open>The worker\<close>

definition run_once :: "string \<Rightarrow> int \<Rightarrow> int \<Rightarrow> int \<Rightarrow> db \<Rightarrow> bool \<times> db" where
  "run_once token now_s now now' d =
     (case claim_cleanup_task token now_s d of
        (None, d') \<Rightarrow> (False, d')
      | (Some task, d') \<Rightarrow> (True, snd (run_cleanup now now' task d')))"

end
