(* ===== verification/Db_Inv.thy ===== *)
theory Db_Inv
  imports Publish_Effect Cleanup
begin

text \<open>
  The database invariant: unique keys, a contiguous version history per zone ending in the
  current version, no orphan rows, every retained version a valid and servable zone, and the
  delta of every retained successor leading from one version to the next.
\<close>

subsection \<open>The invariant\<close>

definition vids :: "db \<Rightarrow> string \<Rightarrow> int set" where
  "vids d zone = v_version_id ` {v \<in> set (versions d). v_zone v = zone}"

definition unique_keys :: "db \<Rightarrow> bool" where
  "unique_keys d \<longleftrightarrow> distinct (map z_name (zones d)) \<and> distinct (map version_key (versions d)) \<and>
     distinct (map version_serial_key (versions d)) \<and> distinct (map record_key (records d)) \<and>
     distinct (map change_key (changes d)) \<and> distinct (map request_key (publish_requests d))"

definition history_ok :: "db \<Rightarrow> zone_row \<Rightarrow> bool" where
  "history_ok d z \<longleftrightarrow> (\<exists>lo \<le> z_current_version z. vids d (z_name z) = {lo..z_current_version z}) \<and>
     (\<exists>v \<in> set (versions d). v_zone v = z_name z \<and> v_version_id v = z_current_version z \<and>
        v_serial v = z_current_serial z)"

definition owned :: "db \<Rightarrow> bool" where
  "owned d \<longleftrightarrow> (\<forall>v \<in> set (versions d). v_zone v \<in> z_name ` set (zones d)) \<and>
     (\<forall>r \<in> set (records d). r_version_id r \<in> vids d (r_zone r)) \<and>
     (\<forall>c \<in> set (changes d). c_version_id c \<in> vids d (c_zone c))"

definition version_ok :: "db \<Rightarrow> version_row \<Rightarrow> bool" where
  "version_ok d v \<longleftrightarrow> canonical_form (v_zone v) \<and> 0 \<le> v_serial v \<and> v_serial v \<le> 0xFFFFFFFF \<and>
     valid_content (v_zone v) (v_serial v) (content d (v_zone v) (v_version_id v)) \<and>
     servable_content (v_zone v) (content d (v_zone v) (v_version_id v))"

text \<open>
  The ordered delta rows of a version: a deletion section that opens with the old SOA, then an
  addition section that opens with the new one.
\<close>

definition is_soa_change :: "string \<Rightarrow> change_row \<Rightarrow> bool" where
  "is_soa_change zone c \<longleftrightarrow> c_name c = zone \<and> c_rtype c = ''SOA''"

definition soa_first :: "string \<Rightarrow> change_row list \<Rightarrow> bool" where
  "soa_first zone cs \<longleftrightarrow>
     (case cs of [] \<Rightarrow> False | c # cs' \<Rightarrow> is_soa_change zone c \<and> (\<forall>x \<in> set cs'. \<not> is_soa_change zone x))"

definition delta_shape :: "string \<Rightarrow> change_row list \<Rightarrow> bool" where
  "delta_shape zone cs \<longleftrightarrow>
     (\<exists>ds as. cs = ds @ as \<and> (\<forall>c \<in> set ds. c_op c = DEL) \<and> (\<forall>c \<in> set as. c_op c = ADD) \<and>
        soa_first zone ds \<and> soa_first zone as)"

definition delta_ok :: "db \<Rightarrow> string \<Rightarrow> int \<Rightarrow> bool" where
  "delta_ok d zone n \<longleftrightarrow> delta_shape zone (iter_changes d zone (n + 1)) \<and>
     dels d zone (n + 1) \<subseteq> content d zone n \<and>
     content d zone (n + 1) = (content d zone n - dels d zone (n + 1)) \<union> adds d zone (n + 1)"

definition wf_db :: "db \<Rightarrow> bool" where
  "wf_db d \<longleftrightarrow> unique_keys d \<and> (\<forall>z \<in> set (zones d). history_ok d z) \<and> owned d \<and>
     (\<forall>v \<in> set (versions d). version_ok d v) \<and>
     (\<forall>zone n. n \<in> vids d zone \<longrightarrow> n + 1 \<in> vids d zone \<longrightarrow> delta_ok d zone n)"

lemma mem_vids: "n \<in> vids d zone \<longleftrightarrow> (\<exists>v \<in> set (versions d). v_zone v = zone \<and> v_version_id v = n)"
  by (auto simp: vids_def)

text \<open>Only rows of the zone's retained versions exist.\<close>

lemma no_orphans:
  assumes "owned d" and "n \<notin> vids d zone"
  shows "records_of d zone n = []" and "changes_of d zone n = []"
  using assms by (auto simp: owned_def records_of_def changes_of_def filter_empty_conv)

lemma content_cong: "records_of d zone n = records_of d' zone n \<Longrightarrow> content d zone n = content d' zone n"
  by (simp add: content_def)

lemma delta_cong:
  "changes_of d zone n = changes_of d' zone n \<Longrightarrow> dels d zone n = dels d' zone n \<and> adds d zone n = adds d' zone n \<and>
    iter_changes d zone n = iter_changes d' zone n"
  by (simp add: dels_def adds_def iter_changes_def)

text \<open>Operations that leave versions, rows, and the history columns of zones alone.\<close>

definition zone_core :: "zone_row \<Rightarrow> string \<times> int \<times> int" where
  "zone_core z = (z_name z, z_current_serial z, z_current_version z)"

lemma wf_db_same_data:
  assumes wf: "wf_db d" and z: "map zone_core (zones d') = map zone_core (zones d)"
    and v: "versions d' = versions d" and r: "records d' = records d" and c: "changes d' = changes d"
    and p: "distinct (map request_key (publish_requests d'))"
  shows "wf_db d'"
proof -
  have zn: "map z_name (zones d') = map z_name (zones d)"
    using arg_cong [OF z, of "map fst"] by (simp add: comp_def zone_core_def)
  have vid: "vids d' = vids d" by (simp add: vids_def v fun_eq_iff)
  have co: "content d' = content d" "dels d' = dels d" "adds d' = adds d" "iter_changes d' = iter_changes d"
    by (simp_all add: content_def dels_def adds_def iter_changes_def records_of_def changes_of_def r c fun_eq_iff)
  have h: "history_ok d' y" if "y \<in> set (zones d')" for y
  proof -
    from that have "zone_core y \<in> set (map zone_core (zones d))" unfolding z [symmetric] by simp
    then obtain y0 where "y0 \<in> set (zones d)" "zone_core y = zone_core y0" by auto
    with wf show ?thesis by (auto simp: wf_db_def history_ok_def zone_core_def vid v)
  qed
  show ?thesis
    using wf h p
    by (auto simp: wf_db_def unique_keys_def owned_def version_ok_def delta_ok_def zn v r c vid co
        simp flip: set_map)
qed

subsection \<open>Creating a zone\<close>

lemma create_zone_Inr:
  assumes "create_zone ts zone serial soa ns retain d = (Inr (), d')"
  obtains rows where "create_rows zone serial soa ns = Inr rows" "find_zone d zone = None"
    "d' = d\<lparr>zones := zones d @ [\<lparr>z_name = zone, z_current_serial = serial, z_current_version = 0,
            z_retain_versions = retain, z_record_count = int (length rows), z_rrset_count = 2,
            z_created_at = ts, z_updated_at = ts\<rparr>],
          versions := versions d @ [\<lparr>v_zone = zone, v_version_id = 0, v_serial = serial,
            v_request_id = ''__create__'', v_created_at = ts\<rparr>],
          records := records d @ map (create_row zone) rows\<rparr>"
    "distinct (map record_key (map (create_row zone) rows))"
    "record_key ` set (map (create_row zone) rows) \<inter> record_key ` set (records d) = {}"
    "(zone, 0) \<notin> version_key ` set (versions d)" "(zone, serial) \<notin> version_serial_key ` set (versions d)"
proof -
  let ?v = "\<lparr>v_zone = zone, v_version_id = 0, v_serial = serial, v_request_id = ''__create__'', v_created_at = ts\<rparr>"
  from assms obtain rows where rows: "create_rows zone serial soa ns = Inr rows"
    by (cases "create_rows zone serial soa ns") (simp_all add: create_zone_def)
  with assms have f: "find_zone d zone = None"
    by (cases "find_zone d zone") (simp_all add: create_zone_def)
  from assms rows f obtain vs rs where v: "insert_version ?v (versions d) = Inr vs"
    and r: "insert_all record_key (map (create_row zone) rows) (records d) = Inr rs"
    and d': "d' = d\<lparr>zones := zones d @ [\<lparr>z_name = zone, z_current_serial = serial, z_current_version = 0,
            z_retain_versions = retain, z_record_count = int (length rows), z_rrset_count = 2,
            z_created_at = ts, z_updated_at = ts\<rparr>], versions := vs, records := rs\<rparr>"
    by (auto simp: create_zone_def bindE_Inr_iff split: sum.splits)
  have k: "version_key ?v = (zone, 0)" "version_serial_key ?v = (zone, serial)"
    by (simp_all add: version_key_def version_serial_key_def)
  show ?thesis
    using version_table.ins_Inr [OF v] serial_index.ins_Inr [OF v] r
    by (intro that [OF rows f]) (simp_all add: d' k insert_all_Inr_iff)
qed

lemma create_zone_Inl: "create_zone ts zone serial soa ns retain d = (Inl e, d') \<Longrightarrow> d' = d"
  by (auto simp: create_zone_def split: sum.splits if_splits)

subsection \<open>Publishing\<close>


lemma mem_changes_of:
  "c \<in> set (changes_of d zone n) \<longleftrightarrow> c \<in> set (changes d) \<and> c_zone c = zone \<and> c_version_id c = n"
  by (auto simp: changes_of_def)

lemma wf_db_zone_unique:
  "wf_db d \<Longrightarrow> y \<in> set (zones d) \<Longrightarrow> z \<in> set (zones d) \<Longrightarrow> z_name y = z_name z \<Longrightarrow> y = z"
  by (auto simp: wf_db_def unique_keys_def dest: eq_key_imp_eq_value inj_onD [OF distinct_map [THEN iffD1, THEN conjunct2]])

lemma current_version_row:
  assumes "wf_db d" and "z \<in> set (zones d)"
  obtains v where "v \<in> set (versions d)" "v_zone v = z_name z" "v_version_id v = z_current_version z"
    "v_serial v = z_current_serial z" "version_ok d v"
  using assms by (auto simp: wf_db_def history_ok_def)

lemma current_in_vids: "wf_db d \<Longrightarrow> z \<in> set (zones d) \<Longrightarrow> z_current_version z \<in> vids d (z_name z)"
  by (auto simp: mem_vids elim: current_version_row)

lemma next_not_in_vids: "wf_db d \<Longrightarrow> z \<in> set (zones d) \<Longrightarrow> z_current_version z + 1 \<notin> vids d (z_name z)"
  by (auto simp: wf_db_def history_ok_def)

lemma materialize_unique:
  assumes "materialize zone old new rs changed d = Inr d'" and "new \<noteq> old"
    and "distinct (map record_key (records d))" and "distinct (map change_key (changes d))"
  shows "distinct (map record_key (records d'))" and "distinct (map change_key (changes d'))"
proof -
  from materialize_elim [OF assms(1,2)] obtain tab where
    "insert_all record_key (map (\<lambda>r. r\<lparr>r_version_id := new\<rparr>) (records_of d zone old)) (records d) = Inr tab"
    "rewrite_changed zone new rs changed tab = Inr (records d')"
    "insert_all change_key (number_changes zone new 0 (delta d zone old rs changed)) (changes d) = Inr (changes d')"
    by metis
  then show "distinct (map record_key (records d'))" and "distinct (map change_key (changes d'))"
    using assms(3,4) insert_all_unique rewrite_changed_unique by metis+
qed

text \<open>The SOA always changes, and its rows lead both sections of the delta.\<close>

lemma number_changes_sorted: "sort_key c_seq (number_changes zone vid 0 rows) = number_changes zone vid 0 rows"
proof -
  have "sorted (map c_seq (number_changes zone vid 0 rows))"
    unfolding number_changes_seq by (simp add: sorted_map sorted_wrt_upt)
  then show ?thesis by (rule sort_key_id_if_sorted)
qed

lemma hd_delta_keys:
  assumes "(zone, ''SOA'') \<in> set changed"
  shows "\<exists>ks. delta_keys zone changed = (zone, ''SOA'') # ks"
proof -
  let ?ks = "delta_keys zone changed" and ?f = "apex_soa_first zone"
  have mem: "(zone, ''SOA'') \<in> set ?ks" using assms by (simp add: set_delta_keys)
  then obtain k ks where ks: "?ks = k # ks" by (cases ?ks) auto
  have "sorted (map ?f ?ks)" by (simp add: delta_keys_def)
  then have "?f k \<le> ?f (zone, ''SOA'')" using mem by (auto simp: ks)
  then have "k = (zone, ''SOA'')" by (auto simp: apex_soa_first_def less_eq_prod_def prod_eq_iff split: if_splits)
  with ks show ?thesis by simp
qed

lemma soa_first_data:
  assumes "map (\<lambda>c. (c_op c, change_data c)) cs = map (Pair op) (x # xs)"
    and "delta_key x = (zone, ''SOA'')" and "\<forall>y \<in> set xs. delta_key y \<noteq> (zone, ''SOA'')"
  shows "soa_first zone cs \<and> (\<forall>c \<in> set cs. c_op c = op)"
proof -
  have k: "is_soa_change zone c \<longleftrightarrow> delta_key (change_data c) = (zone, ''SOA'')" for c
    by (simp add: is_soa_change_def change_data_def delta_key_def)
  from assms(1) obtain c cs' where cs: "cs = c # cs'" "c_op c = op" "change_data c = x"
    and r: "map (\<lambda>c. (c_op c, change_data c)) cs' = map (Pair op) xs" by auto
  have o: "map c_op cs' = map (\<lambda>_. op) xs" and m: "map change_data cs' = xs"
    using arg_cong [OF r, of "map fst"] arg_cong [OF r, of "map snd"] by (simp_all add: comp_def)
  have "c_op e = op \<and> change_data e \<in> set xs" if "e \<in> set cs'" for e
    using that arg_cong [OF o, of set] arg_cong [OF m, of set] by auto
  with assms(2,3) show ?thesis by (auto simp: soa_first_def cs k)
qed

lemma distinct_delete_rows:
  assumes "distinct (map record_key (records d))"
  shows "distinct (delete_rows d zone old k)"
proof -
  let ?rows = "filter (\<lambda>r. r_name r = fst k \<and> r_rtype r = snd k) (records_of d zone old)"
  have "inj_on record_key (set (records d))" "distinct (records d)"
    using assms by (simp_all add: distinct_map)
  moreover from this have "inj_on (\<lambda>r. (fst k, snd k, r_ttl r, r_rdata r, r_rdata_wire r)) (set ?rows)"
    unfolding inj_on_def by (simp add: records_of_def record_key_def)
  ultimately show ?thesis
    by (simp add: delete_rows_def distinct_map records_of_def)
qed

lemma distinct_set_singleton: "distinct xs \<Longrightarrow> set xs = {x} \<Longrightarrow> xs = [x]"
  by (cases xs rule: remdups_adj.cases) auto

lemma planned_shape:
  assumes m: "materialize zone old (old + 1) rs changed d = Inr d1" and none: "changes_of d zone (old + 1) = []"
    and t: "track (load_rrsets d zone old) (rs, changed)" and u: "uniform_ttl (content d zone old)"
    and so: "soa_at zone serial (content d zone old)" and wf: "wf_rrsets rs"
    and val: "validate_zone_invariants zone rs nxt = Inr ()" and ne: "nxt \<noteq> serial"
    and uk: "distinct (map record_key (records d))"
  shows "delta_shape zone (iter_changes d1 zone (old + 1))"
proof -
  let ?k = "(zone, ''SOA'')"
  have sn: "soa_at zone nxt (rrs_content rs)" using validate_sound [OF val wf] by (simp add: valid_content_def)
  have ch: "?k \<in> set changed"
  proof (rule ccontr)
    assume "?k \<notin> set changed"
    then have "rr_lookup rs zone ''SOA'' = rr_lookup (load_rrsets d zone old) zone ''SOA''"
      using t by (simp add: track_def)
    then have "add_rows rs ?k = add_rows (load_rrsets d zone old) ?k" by (simp add: add_rows_def)
    then have "{x \<in> rrs_content rs. delta_key x = ?k} = {x \<in> content d zone old. delta_key x = ?k}"
      using rrs_content_at [of rs ?k] rrs_content_at [of "load_rrsets d zone old" ?k] load_content [OF u] by simp
    with so sn ne show False by (auto simp: soa_at_def)
  qed
  then obtain ks where ks: "delta_keys zone changed = ?k # ks" using hd_delta_keys by blast
  have "distinct (delta_keys zone changed)" using t by (simp add: track_def delta_keys_def)
  then have notin: "?k \<notin> set ks" by (simp add: ks)
  obtain x where x0: "{x \<in> content d zone old. delta_key x = ?k} = {x}" using so by (auto simp: soa_at_def)
  then have "set (delete_rows d zone old ?k) = {x}" by (simp add: set_delete_rows)
  then have xs: "delete_rows d zone old ?k = [x]"
    by (rule distinct_set_singleton [OF distinct_delete_rows [OF uk]])
  obtain ttl e where "rr_lookup rs zone ''SOA'' = Some (ttl, [e])"
    using val by (auto simp: validate_zone_invariants_def split: option.splits list.splits prod.splits)
  then obtain y where ys: "add_rows rs ?k = [y]" by (simp add: add_rows_def)
  have kx: "delta_key x = ?k" using set_delete_rows [of d zone old ?k] by (auto simp: xs)
  have ky: "delta_key y = ?k" using set_add_rows_key [of y rs ?k] by (simp add: ys)
  let ?D = "concat (map (delete_rows d zone old) ks)" and ?A = "concat (map (add_rows rs) ks)"
  let ?cs = "iter_changes d1 zone (old + 1)"
  have nk: "\<forall>z \<in> set ?D. delta_key z \<noteq> ?k" "\<forall>z \<in> set ?A. delta_key z \<noteq> ?k"
    using notin set_add_rows_key [of _ rs] by (auto simp: set_delete_rows)
  have cs: "?cs = number_changes zone (old + 1) 0 (delta d zone old rs changed)"
    using materialize_changes(1) [OF m _ none] by (simp add: iter_changes_def number_changes_sorted)
  have data: "map (\<lambda>c. (c_op c, change_data c)) ?cs = map (Pair DEL) (x # ?D) @ map (Pair ADD) (y # ?A)"
    unfolding cs number_changes_data by (simp add: delta_def ks xs ys)
  obtain ds as where da: "?cs = ds @ as" "map (\<lambda>c. (c_op c, change_data c)) ds = map (Pair DEL) (x # ?D)"
    "map (\<lambda>c. (c_op c, change_data c)) as = map (Pair ADD) (y # ?A)"
    using map_eq_append_conv [of _ ?cs "map (Pair DEL) (x # ?D)" "map (Pair ADD) (y # ?A)", THEN iffD1, OF data] by metis
  from soa_first_data [OF da(2) kx nk(1)] soa_first_data [OF da(3) ky nk(2)] da(1) show ?thesis
    unfolding delta_shape_def by blast
qed

text \<open>A planned changeset on a well-formed database: the new content, its validity and its delta.\<close>

lemma planned_version:
  assumes wf: "wf_db d" and z: "z \<in> set (zones d)"
    and plan: "plan_publish d z base nxt ops = Inr (rs, changed)"
    and m: "materialize (z_name z) (z_current_version z) (z_current_version z + 1) rs changed d = Inr d1"
  shows "content d1 (z_name z) (z_current_version z + 1) = rrs_content rs"
    and "valid_content (z_name z) nxt (rrs_content rs)" and "servable_content (z_name z) (rrs_content rs)"
    and "delta_ok d1 (z_name z) (z_current_version z)"
proof -
  let ?Z = "z_name z" and ?C = "z_current_version z"
  obtain v where v: "v \<in> set (versions d)" "v_zone v = ?Z" "v_version_id v = ?C"
    "v_serial v = z_current_serial z" "version_ok d v"
    by (rule current_version_row [OF wf z])
  have cf: "canonical_form ?Z" and u: "uniform_ttl (content d ?Z ?C)" and s: "servable_content ?Z (content d ?Z ?C)"
    using v by (auto simp: version_ok_def valid_content_def)
  have none: "records_of d ?Z (?C + 1) = []" "changes_of d ?Z (?C + 1) = []"
    using no_orphans [OF _ next_not_in_vids [OF wf z]] wf by (auto simp: wf_db_def)
  note p = plan_publish_Inr [OF plan]
  have t: "track (load_rrsets d ?Z ?C) (rs, changed)" and w: "wf_rrsets rs"
    using apply_ops_track [OF p(3) load_rrsets_wf] by auto
  have "entries_ok ?Z (load_rrsets d ?Z ?C, [])"
    using s by (simp add: entries_ok_def load_rrsets_wf load_content [OF u])
  from apply_ops_entries_ok [OF p(3) this cf] show "servable_content ?Z (rrs_content rs)"
    by (simp add: entries_ok_def)
  show "content d1 ?Z (?C + 1) = rrs_content rs"
    by (rule materialize_holds_rrsets [OF m _ t u none(1)]) simp
  show "valid_content ?Z nxt (rrs_content rs)" by (rule validate_sound [OF p(4) w])
  have dc: "distinct changed" using t by (simp add: track_def)
  have ne: "?C + 1 \<noteq> ?C" by simp
  have "content d1 ?Z ?C = content d ?Z ?C"
    using materialize_elim [OF m ne] by (intro content_cong) (metis Pair_inject ne)
  moreover have "delta_shape ?Z (iter_changes d1 ?Z (?C + 1))"
  proof (rule planned_shape [OF m none(2) t u _ w p(4)])
    show "soa_at ?Z (v_serial v) (content d ?Z ?C)" using v by (auto simp: version_ok_def valid_content_def)
    show "distinct (map record_key (records d))" using wf by (simp add: wf_db_def unique_keys_def)
    show "nxt \<noteq> v_serial v"
    proof
      assume "nxt = v_serial v"
      then have "(z_current_serial z - base) mod 2 ^ 32 \<noteq> 0" using p(1) v(4) by (simp add: compare_GREATER_iff)
      then show False using p(2) by (auto simp: compare_EQUAL_iff mod_eq_dvd_iff mod_eq_0_iff_dvd)
    qed
  qed
  ultimately show "delta_ok d1 ?Z ?C"
    using materialize_delta_law [OF m ne dc none] by (simp add: delta_ok_def)
qed


lemma vids_append:
  "versions d' = versions d @ [v] \<Longrightarrow>
    vids d' zone = (if zone = v_zone v then insert (v_version_id v) (vids d zone) else vids d zone)"
  by (auto simp: vids_def image_iff)

text \<open>Appending one version to a well-formed database.\<close>

lemma wf_db_append_version:
  assumes wf: "wf_db d" and u: "unique_keys d'"
    and vs: "versions d' = versions d @ [v]" and new: "v_version_id v \<notin> vids d (v_zone v)"
    and zs: "\<forall>y \<in> set (zones d'). history_ok d' y" and zn: "z_name ` set (zones d) \<subseteq> z_name ` set (zones d')"
      "v_zone v \<in> z_name ` set (zones d')"
    and recs: "\<And>zone n. (zone, n) \<noteq> (v_zone v, v_version_id v) \<Longrightarrow> records_of d' zone n = records_of d zone n"
    and chgs: "\<And>zone n. (zone, n) \<noteq> (v_zone v, v_version_id v) \<Longrightarrow> changes_of d' zone n = changes_of d zone n"
    and vok: "version_ok d' v"
    and dlt: "\<And>n. n \<in> vids d (v_zone v) \<Longrightarrow> n + 1 = v_version_id v \<Longrightarrow> delta_ok d' (v_zone v) n"
    and last: "v_version_id v + 1 \<notin> vids d (v_zone v)"
  shows "wf_db d'"
proof -
  let ?Z = "v_zone v" and ?N = "v_version_id v"
  have vid: "vids d' zone = (if zone = ?Z then insert ?N (vids d zone) else vids d zone)" for zone
    by (rule vids_append [OF vs])
  have co: "content d' zone n = content d zone n" if "(zone, n) \<noteq> (?Z, ?N)" for zone n
    by (rule content_cong [OF recs [OF that]])
  have de: "dels d' zone n = dels d zone n" "adds d' zone n = adds d zone n"
    "iter_changes d' zone n = iter_changes d zone n" if "(zone, n) \<noteq> (?Z, ?N)" for zone n
    using delta_cong [OF chgs [OF that]] by auto
  have ow: "owned d'"
    unfolding owned_def
  proof (intro conjI ballI)
    fix y assume "y \<in> set (versions d')"
    then show "v_zone y \<in> z_name ` set (zones d')"
      using wf zn by (auto simp: vs wf_db_def owned_def)
  next
    fix r assume r: "r \<in> set (records d')"
    show "r_version_id r \<in> vids d' (r_zone r)"
    proof (cases "(r_zone r, r_version_id r) = (?Z, ?N)")
      case False
      have "r \<in> set (records_of d' (r_zone r) (r_version_id r))" using r by (simp add: mem_records_of)
      then have "r \<in> set (records d)" by (simp add: recs [OF False] mem_records_of)
      then show ?thesis using wf by (auto simp: vid wf_db_def owned_def)
    qed (simp add: vid)
  next
    fix c assume c: "c \<in> set (changes d')"
    show "c_version_id c \<in> vids d' (c_zone c)"
    proof (cases "(c_zone c, c_version_id c) = (?Z, ?N)")
      case False
      have "c \<in> set (changes_of d' (c_zone c) (c_version_id c))" using c by (simp add: mem_changes_of)
      then have "c \<in> set (changes d)" by (simp add: chgs [OF False] mem_changes_of)
      then show ?thesis using wf by (auto simp: vid wf_db_def owned_def)
    qed (simp add: vid)
  qed
  have old: "version_ok d' y" if "y \<in> set (versions d)" for y
  proof -
    have "(v_zone y, v_version_id y) \<noteq> (?Z, ?N)" using new that by (auto simp: mem_vids)
    from co [OF this] show ?thesis using wf that by (simp add: wf_db_def version_ok_def)
  qed
  have dl: "delta_ok d' zone n" if "n \<in> vids d' zone" "n + 1 \<in> vids d' zone" for zone n
  proof (cases "zone = ?Z \<and> n + 1 = ?N")
    case True
    with that dlt show ?thesis by (auto simp: vid split: if_splits)
  next
    case False
    have n: "(zone, n) \<noteq> (?Z, ?N)" using that last by (auto simp: vid split: if_splits)
    have "delta_ok d zone n"
      using wf that False n by (auto simp: wf_db_def vid split: if_splits)
    moreover have "(zone, n + 1) \<noteq> (?Z, ?N)" using False by auto
    ultimately show ?thesis using n by (simp add: delta_ok_def co de)
  qed
  show ?thesis using u zs ow old vok dl by (auto simp: wf_db_def vs)
qed

lemma wf_db_commit:
  assumes wf: "wf_db d" and z: "z \<in> set (zones d)" and nxt: "0 \<le> nxt" "nxt \<le> 0xFFFFFFFF"
    and plan: "plan_publish d z base nxt ops = Inr (rs, changed)"
    and commit: "commit_publish ts z rid fp base nxt rs changed d = Inr d'"
  shows "wf_db d'"
  using commit
proof (rule commit_publish_Inr)
  let ?Z = "z_name z" and ?C = "z_current_version z"
  let ?v = "\<lparr>v_zone = ?Z, v_version_id = ?C + 1, v_serial = nxt, v_request_id = rid, v_created_at = ts\<rparr>"
  let ?f = "\<lambda>y. y\<lparr>z_current_serial := nxt, z_current_version := ?C + 1,
      z_record_count := int (count_records rs), z_rrset_count := int (count_rrsets rs), z_updated_at := ts\<rparr>"
  fix d1
  assume m: "materialize ?Z ?C (?C + 1) rs changed d = Inr d1"
    and vs: "versions d' = versions d @ [?v]"
    and vk: "(?Z, ?C + 1) \<notin> version_key ` set (versions d)" and sk: "(?Z, nxt) \<notin> version_serial_key ` set (versions d)"
    and ps: "publish_requests d' = publish_requests d @ [request_entry ts ?Z rid fp (COMMITTED (?C + 1) nxt) base nxt]"
    and pk: "(?Z, rid) \<notin> request_key ` set (publish_requests d)"
    and zs: "zones d' = update_zone ?Z ?f (zones d)" and rc: "records d' = records d1" "changes d' = changes d1"
  have ne: "?C + 1 \<noteq> ?C" by simp
  have ro: "records_of d' zone n = records_of d1 zone n" "changes_of d' zone n = changes_of d1 zone n" for zone n
    by (simp_all add: records_of_def changes_of_def rc)
  have co: "content d' zone n = content d1 zone n" "dels d' zone n = dels d1 zone n" "adds d' zone n = adds d1 zone n"
    "iter_changes d' zone n = iter_changes d1 zone n"
    for zone n by (simp_all add: content_def dels_def adds_def iter_changes_def ro)
  have none: "changes_of d ?Z (?C + 1) = []"
    using no_orphans [OF _ next_not_in_vids [OF wf z]] wf by (auto simp: wf_db_def)
  note pl = planned_version [OF wf z plan m]
  have vid: "vids d' zone = (if zone = ?Z then insert (?C + 1) (vids d zone) else vids d zone)" for zone
    using vids_append [OF vs] by simp
  have zn: "map z_name (zones d') = map z_name (zones d)" by (simp add: zs update_zone_def)
  have zset: "z_name ` set (zones d') = z_name ` set (zones d)" using arg_cong [OF zn, of set] by simp
  show ?thesis
  proof (rule wf_db_append_version [OF wf _ vs])
    show "unique_keys d'"
      using wf vk sk pk materialize_unique [OF m ne] zn
      by (simp add: wf_db_def unique_keys_def vs ps rc version_key_def version_serial_key_def request_key_def
          request_entry_def)
    show "\<forall>y \<in> set (zones d'). history_ok d' y"
    proof
      fix y assume "y \<in> set (zones d')"
      then obtain y0 where y0: "y0 \<in> set (zones d)" "y = (if z_name y0 = ?Z then ?f y0 else y0)"
        by (auto simp: zs update_zone_def)
      show "history_ok d' y"
      proof (cases "z_name y0 = ?Z")
        case True
        then have "y0 = z" using wf_db_zone_unique [OF wf y0(1) z] by simp
        moreover from wf z obtain lo where "lo \<le> ?C" "vids d ?Z = {lo..?C}" by (auto simp: wf_db_def history_ok_def)
        moreover have "insert (?C + 1) {lo..?C} = {lo..?C + 1}" using \<open>lo \<le> ?C\<close> by auto
        ultimately show ?thesis by (auto simp: y0(2) history_ok_def vid vs intro!: exI [of _ lo])
      next
        case False
        with wf y0 show ?thesis by (auto simp: wf_db_def history_ok_def vid vs)
      qed
    qed
    show "z_name ` set (zones d) \<subseteq> z_name ` set (zones d')" "v_zone ?v \<in> z_name ` set (zones d')"
      using zset z by simp_all
    show "version_ok d' ?v"
    proof -
      have "canonical_form ?Z" by (rule current_version_row [OF wf z]) (auto simp: version_ok_def)
      with pl nxt show ?thesis by (simp add: version_ok_def co)
    qed
    show "v_version_id ?v \<notin> vids d (v_zone ?v)" using next_not_in_vids [OF wf z] by simp
    show "v_version_id ?v + 1 \<notin> vids d (v_zone ?v)"
      using wf z by (auto simp: wf_db_def history_ok_def)
    show "delta_ok d' (v_zone ?v) n" if "n + 1 = v_version_id ?v" for n
    proof -
      have "n = ?C" using that by simp
      with pl(4) show ?thesis by (simp add: delta_ok_def co)
    qed
    show "records_of d' zone n = records_of d zone n" if "(zone, n) \<noteq> (v_zone ?v, v_version_id ?v)" for zone n
      using materialize_elim [OF m ne] that unfolding ro by (metis version_row.select_convs(1,2))
    show "changes_of d' zone n = changes_of d zone n" if "(zone, n) \<noteq> (v_zone ?v, v_version_id ?v)" for zone n
      unfolding ro by (rule materialize_changes(2) [OF m ne none]) (use that in simp)
  qed
qed

subsection \<open>The first version\<close>

lemma ns_rows_Inr:
  assumes "canonical_form zone"
  shows "ns_rows zone ns seen = Inr rows \<Longrightarrow>
    (\<forall>(t, ttl, rd, w) \<in> set rows. t = ''NS'' \<and> ttl = 3600 \<and> length w \<le> 255) \<and>
    (seen = [] \<longrightarrow> ns \<noteq> [] \<longrightarrow> rows \<noteq> [])"
proof (induction ns arbitrary: seen rows)
  case (Cons target rest)
  from Cons.prems obtain t where t: "canonical_target target zone = Inr t" by (auto simp: bindE_Inr_iff)
  show ?case
  proof (cases "t \<in> set seen")
    case True
    then have "seen \<noteq> []" by auto
    with Cons t True show ?thesis by (auto simp: bindE_Inr_iff)
  next
    case False
    with Cons.prems t obtain rj rw rows' where c: "canonical_rdata ''NS'' (JObj [(''target'', JStr t)]) zone = Inr (rj, rw)"
      and r: "ns_rows zone rest (t # seen) = Inr rows'" and rows: "rows = (''NS'', 3600, rj, rw) # rows'"
      by (auto simp: bindE_Inr_iff)
    have "length rw \<le> 255" using canonical_NS [OF c assms] by simp
    with Cons.IH [OF r] show ?thesis by (auto simp: rows)
  qed
qed simp

text \<open>The optional \<open>_ttl\<close> of the SOA object of a create request is used as it is.\<close>

definition soa_ttl_ok :: "(string \<times> json) list \<Rightarrow> bool" where
  "soa_ttl_ok soa \<longleftrightarrow>
     (case py_int (obj_get soa ''_ttl'' (JInt 3600)) of Inl _ \<Rightarrow> True | Inr t \<Rightarrow> 0 \<le> t \<and> t \<le> 0xFFFFFFFF)"

lemma obj_get_set: "obj_get (obj_set k v kvs) k' dflt = (if k' = k then v else obj_get kvs k' dflt)"
  by (simp add: obj_get_def obj_set_def update_conv')

lemma create_rows_Inr:
  assumes "create_rows zone serial soa ns = Inr rows" and z: "canonical_form zone"
  obtains ttl s w nsr where "rows = (''SOA'', ttl, Soa s, w) # nsr" "s_serial s = serial"
    "py_int (obj_get soa ''_ttl'' (JInt 3600)) = Inr ttl" "length w \<le> 530"
    "\<forall>(t, ttl, rd, w) \<in> set nsr. t = ''NS'' \<and> ttl = 3600 \<and> length w \<le> 255" "ns \<noteq> [] \<longrightarrow> nsr \<noteq> []"
proof -
  let ?soa = "obj_set ''serial'' (JInt serial) soa"
  from assms(1) obtain sj sw ttl nsr where c: "canonical_rdata ''SOA'' (JObj ?soa) zone = Inr (sj, sw)"
    and t: "py_int (obj_get ?soa ''_ttl'' (JInt 3600)) = Inr ttl" and n: "ns_rows zone ns [] = Inr nsr"
    and rows: "rows = (''SOA'', ttl, sj, sw) # nsr"
    by (auto simp: create_rows_def bindE_Inr_iff)
  from c obtain v: "canon_value ''SOA'' ?soa zone = Inr sj" and e: "encode_rdata ''SOA'' sj = Inr sw"
    by (rule canonical_rdata_Inr) auto
  from v z obtain s where s: "sj = Soa s" "canonical_form (s_mname s)" "canonical_form (s_rname s)"
    "py_int (obj_get ?soa ''serial'' JNull) = Inr (s_serial s)"
    by (rule canon_value_SOA) auto
  show ?thesis
    by (rule that [of ttl s sw nsr])
      (use rows s e t encode_SOA_length ns_rows_Inr [OF z n] in \<open>auto simp: obj_get_set\<close>)
qed

lemma create_content:
  assumes "create_rows zone serial soa ns = Inr rows" and z: "canonical_form zone" and "ns \<noteq> []" and "soa_ttl_ok soa"
  shows "valid_content zone serial (row_data ` set (map (create_row zone) rows))"
    and "servable_content zone (row_data ` set (map (create_row zone) rows))"
proof -
  from assms(1) z obtain ttl s w nsr where rows: "rows = (''SOA'', ttl, Soa s, w) # nsr" and ser: "s_serial s = serial"
    and t: "py_int (obj_get soa ''_ttl'' (JInt 3600)) = Inr ttl" and lw: "length w \<le> 530"
    and ns: "\<forall>(t, ttl, rd, w) \<in> set nsr. t = ''NS'' \<and> ttl = 3600 \<and> length w \<le> 255" and ne: "ns \<noteq> [] \<longrightarrow> nsr \<noteq> []"
    by (rule create_rows_Inr)
  define N where "N = (\<lambda>(t, ttl, rd, w). (zone, t, ttl, rd, w)) ` set nsr"
  have C: "row_data ` set (map (create_row zone) rows) = insert (zone, ''SOA'', ttl, Soa s, w) N"
    by (auto simp: rows create_row_def row_data_def image_iff N_def split: prod.splits)
  have NN: "\<forall>(n, t, ttl, rd, w) \<in> N. n = zone \<and> t = ''NS'' \<and> ttl = 3600 \<and> length w \<le> 255"
    using ns by (auto simp: N_def)
  have "{x \<in> insert (zone, ''SOA'', ttl, Soa s, w) N. delta_key x = (zone, ''SOA'')} = {(zone, ''SOA'', ttl, Soa s, w)}"
    using NN by (auto simp: delta_key_def)
  then have 1: "soa_at zone serial (insert (zone, ''SOA'', ttl, Soa s, w) N)"
    unfolding soa_at_def using ser by blast
  have "N \<noteq> {}" using ne assms(3) by (simp add: N_def)
  then obtain y where y: "y \<in> N" by blast
  with NN have "delta_key y = (zone, ''NS'')" by (auto simp: delta_key_def)
  with y have 2: "\<exists>x \<in> insert (zone, ''SOA'', ttl, Soa s, w) N. delta_key x = (zone, ''NS'')" by blast
  have 3: "cname_alone (insert (zone, ''SOA'', ttl, Soa s, w) N)"
    using NN by (auto simp: cname_alone_def delta_key_def)
  have 4: "uniform_ttl (insert (zone, ''SOA'', ttl, Soa s, w) N)"
    unfolding uniform_ttl_def
  proof (intro allI impI)
    fix n t tl rd v tl' rd' v'
    have NT: "(n, t, tl, rd, v) \<in> N \<Longrightarrow> t = ''NS'' \<and> tl = 3600" for n t tl rd v using NN by auto
    assume "(n, t, tl, rd, v) \<in> insert (zone, ''SOA'', ttl, Soa s, w) N"
      "(n, t, tl', rd', v') \<in> insert (zone, ''SOA'', ttl, Soa s, w) N"
    then show "tl = tl'" by (elim insertE) (auto dest!: NT)
  qed
  show "valid_content zone serial (row_data ` set (map (create_row zone) rows))"
    unfolding C valid_content_def using 1 2 3 4 by blast
  have "0 \<le> ttl \<and> ttl \<le> 0xFFFFFFFF" using assms(4) t by (simp add: soa_ttl_ok_def)
  moreover obtain n where "encode_name zone = Inr n" "length n \<le> 255" using z by (auto simp: canonical_form_def)
  ultimately show "servable_content zone (row_data ` set (map (create_row zone) rows))"
    unfolding C using NN lw by (auto simp: servable_content_def row_fits_def in_zone_def SUPPORTED_TYPES_def)
qed

lemma wf_db_create_zone:
  assumes wf: "wf_db d" and c: "create_zone ts zone serial soa ns retain d = (Inr (), d')"
    and z: "canonical_form zone" and ne: "ns \<noteq> []" and ttl: "soa_ttl_ok soa"
    and ser: "0 \<le> serial" "serial \<le> 0xFFFFFFFF"
  shows "wf_db d'"
  using c
proof (rule create_zone_Inr)
  let ?v = "\<lparr>v_zone = zone, v_version_id = 0, v_serial = serial, v_request_id = ''__create__'', v_created_at = ts\<rparr>"
  fix rows :: "(string \<times> int \<times> rdata \<times> bytes) list"
  let ?z = "\<lparr>z_name = zone, z_current_serial = serial, z_current_version = 0, z_retain_versions = retain,
      z_record_count = int (length rows), z_rrset_count = 2, z_created_at = ts, z_updated_at = ts\<rparr>"
  assume rows: "create_rows zone serial soa ns = Inr rows" and f: "find_zone d zone = None"
    and d': "d' = d\<lparr>zones := zones d @ [?z], versions := versions d @ [?v],
        records := records d @ map (create_row zone) rows\<rparr>"
    and rk: "distinct (map record_key (map (create_row zone) rows))"
      "record_key ` set (map (create_row zone) rows) \<inter> record_key ` set (records d) = {}"
    and vk: "(zone, 0) \<notin> version_key ` set (versions d)" "(zone, serial) \<notin> version_serial_key ` set (versions d)"
  have fresh: "zone \<notin> z_name ` set (zones d)"
    using f by (auto simp: find_zone_def find_None_iff)
  then have none: "vids d zone = {}" using wf by (auto simp: wf_db_def owned_def vids_def)
  have new: "r_zone r = zone \<and> r_version_id r = 0" if "r \<in> set (map (create_row zone) rows)" for r
    using that by (auto simp: create_row_def split: prod.splits)
  have orph: "records_of d zone 0 = []" "changes_of d zone 0 = []"
    using no_orphans [of d 0 zone] wf none by (auto simp: wf_db_def)
  have "records_of d' zone 0 = map (create_row zone) rows"
  proof -
    have "filter (\<lambda>r. r_zone r = zone \<and> r_version_id r = 0) (map (create_row zone) rows) = map (create_row zone) rows"
      using new by (intro filter_True) blast
    with orph(1) show ?thesis by (simp add: records_of_def d')
  qed
  then have co: "content d' zone 0 = row_data ` set (map (create_row zone) rows)" by (simp add: content_def)
  have vid: "vids d' y = (if y = zone then {0} else vids d y)" for y
    using vids_append [of d' d ?v] none by (simp add: d')
  have vs: "versions d' = versions d @ [?v]" by (simp add: d')
  show ?thesis
  proof (rule wf_db_append_version [OF wf _ vs])
    show "unique_keys d'"
      using wf fresh rk vk by (auto simp: wf_db_def unique_keys_def d' version_key_def version_serial_key_def)
    show "\<forall>y \<in> set (zones d'). history_ok d' y"
    proof
      fix y assume y: "y \<in> set (zones d')"
      show "history_ok d' y"
      proof (cases "y \<in> set (zones d)")
        case True
        then have "z_name y \<noteq> zone" using fresh by auto
        with wf True show ?thesis by (auto simp: wf_db_def history_ok_def vid vs)
      next
        case False
        with y have "y = ?z" by (auto simp: d')
        then show ?thesis by (auto simp: history_ok_def vid vs intro!: exI [of _ 0])
      qed
    qed
    show "version_ok d' ?v"
      using create_content [OF rows z ne ttl] z ser by (simp add: version_ok_def co)
    show "records_of d' y n = records_of d y n" if "(y, n) \<noteq> (v_zone ?v, v_version_id ?v)" for y n
    proof -
      have "\<not> (r_zone r = y \<and> r_version_id r = n)" if "r \<in> set (map (create_row zone) rows)" for r
        using new [OF that] \<open>(y, n) \<noteq> (v_zone ?v, v_version_id ?v)\<close> by auto
      then have "filter (\<lambda>r. r_zone r = y \<and> r_version_id r = n) (map (create_row zone) rows) = []"
        by (intro filter_False) blast
      then show ?thesis by (simp add: records_of_def d')
    qed
  qed (auto simp: d' none changes_of_def)
qed

subsection \<open>Retention\<close>

lemma fold_delete_version:
  "fold (delete_version zone) vs d =
    d\<lparr>records := filter (\<lambda>r. \<not> (r_zone r = zone \<and> r_version_id r \<in> set vs)) (records d),
      changes := filter (\<lambda>c. \<not> (c_zone c = zone \<and> c_version_id c \<in> set vs)) (changes d),
      versions := filter (\<lambda>v. \<not> (v_zone v = zone \<and> v_version_id v \<in> set vs)) (versions d)\<rparr>"
proof (induction vs arbitrary: d)
  case (Cons a vs)
  show ?case
    unfolding fold_Cons comp_apply Cons
    by (simp add: delete_version_def imp_conjR)
qed simp

lemma fold_min_le: "fold min xs (a :: int) \<le> a \<and> (\<forall>x \<in> set xs. fold min xs a \<le> x)"
proof (induction xs arbitrary: a)
  case (Cons x xs)
  from Cons [of "min x a"] show ?case by auto
qed simp

text \<open>No live pin is older than the pin horizon.\<close>

lemma pin_horizon_le:
  assumes "r \<in> set refs" and "live_ref zone alive r"
  shows "pin_horizon zone alive refs \<le> f_version_id r \<and> pin_horizon zone alive refs \<le> f_min_version r"
proof -
  let ?ms = "map (\<lambda>r. min (f_version_id r) (f_min_version r)) (filter (live_ref zone alive) refs)"
  have m: "min (f_version_id r) (f_min_version r) \<in> set ?ms" using assms by auto
  then obtain x xs where xs: "?ms = x # xs" by (cases ?ms) auto
  have "pin_horizon zone alive refs = fold min xs x" by (simp add: pin_horizon_def xs)
  moreover have "fold min xs x \<le> min (f_version_id r) (f_min_version r)"
    using fold_min_le [of xs x] m unfolding xs by auto
  ultimately show ?thesis by simp
qed

lemma run_cleanup_effect:
  assumes z: "find_zone d (t_zone task) = Some z" and run: "run_cleanup now now' task d = (res, d')"
  obtains b where "b \<le> z_current_version z - max 1 (z_retain_versions z) + 1"
    "cr_delete_before res = Some b"
    "\<And>r. r \<in> set (transfer_refs d) \<Longrightarrow> live_ref (t_zone task) (now - 300000) r \<Longrightarrow>
       b \<le> f_version_id r \<and> b \<le> f_min_version r"
    "set (cr_deleted res) = {n \<in> vids d (t_zone task). n < b}"
    "d' = finish_task now' (t_task_id task) (d\<lparr>
       transfer_refs := filter (\<lambda>r. \<not> dead_ref (t_zone task) (now - 300000) r) (transfer_refs d),
       records := filter (\<lambda>r. \<not> (r_zone r = t_zone task \<and> r_version_id r \<in> set (cr_deleted res))) (records d),
       changes := filter (\<lambda>c. \<not> (c_zone c = t_zone task \<and> c_version_id c \<in> set (cr_deleted res))) (changes d),
       versions := filter (\<lambda>v. \<not> (v_zone v = t_zone task \<and> v_version_id v \<in> set (cr_deleted res))) (versions d)\<rparr>)"
proof -
  let ?Z = "t_zone task" and ?alive = "now - REF_STALE_SECONDS * 1000"
  let ?refs = "filter (\<lambda>r. \<not> dead_ref ?Z ?alive r) (transfer_refs d)"
  let ?m = "pin_horizon ?Z ?alive ?refs"
  let ?b = "min (z_current_version z - max 1 (z_retain_versions z) + 1) ?m"
  let ?cand = "sort (map v_version_id (filter (\<lambda>v. v_zone v = ?Z \<and> v_version_id v < ?b) (versions d)))"
  have al: "?alive = now - 300000" by (simp add: REF_STALE_SECONDS_def)
  from run z have res: "res = \<lparr>cr_zone = ?Z, cr_deleted = ?cand, cr_delete_before = Some ?b, cr_horizon = Some ?m\<rparr>"
    and d': "d' = finish_task now' (t_task_id task) (fold (delete_version ?Z) ?cand (d\<lparr>transfer_refs := ?refs\<rparr>))"
    by (simp_all add: run_cleanup_def Let_def)
  show ?thesis
  proof (rule that [of ?b])
    show "?b \<le> f_version_id r \<and> ?b \<le> f_min_version r"
      if "r \<in> set (transfer_refs d)" "live_ref ?Z (now - 300000) r" for r
    proof -
      have "r \<in> set ?refs" using that by (auto simp: al live_ref_def dead_ref_def)
      from pin_horizon_le [OF this, of ?Z ?alive] that show ?thesis by (simp add: al min_le_iff_disj)
    qed
    show "set (cr_deleted res) = {n \<in> vids d ?Z. n < ?b}" by (auto simp: res vids_def)
    show "d' = finish_task now' (t_task_id task) (d\<lparr>
       transfer_refs := filter (\<lambda>r. \<not> dead_ref ?Z (now - 300000) r) (transfer_refs d),
       records := filter (\<lambda>r. \<not> (r_zone r = ?Z \<and> r_version_id r \<in> set (cr_deleted res))) (records d),
       changes := filter (\<lambda>c. \<not> (c_zone c = ?Z \<and> c_version_id c \<in> set (cr_deleted res))) (changes d),
       versions := filter (\<lambda>v. \<not> (v_zone v = ?Z \<and> v_version_id v \<in> set (cr_deleted res))) (versions d)\<rparr>)"
      unfolding d' fold_delete_version by (simp add: res al)
  qed (simp_all add: res)
qed

text \<open>Dropping the versions below a bound that is not above the current version.\<close>

lemma wf_db_drop_prefix:
  assumes wf: "wf_db d" and z: "z \<in> set (zones d)" and b: "b \<le> z_current_version z"
    and zs: "zones d' = zones d" and ps: "publish_requests d' = publish_requests d"
    and vs: "versions d' = filter (\<lambda>v. \<not> (v_zone v = z_name z \<and> v_version_id v < b)) (versions d)"
    and rs: "records d' = filter (\<lambda>r. \<not> (r_zone r = z_name z \<and> r_version_id r < b)) (records d)"
    and cs: "changes d' = filter (\<lambda>c. \<not> (c_zone c = z_name z \<and> c_version_id c < b)) (changes d)"
  shows "wf_db d'"
proof -
  have vid: "vids d' zone = (if zone = z_name z then {n \<in> vids d zone. b \<le> n} else vids d zone)" for zone
    by (auto simp: vids_def vs image_iff)
  have co: "content d' zone n = content d zone n \<and> dels d' zone n = dels d zone n \<and> adds d' zone n = adds d zone n \<and>
      iter_changes d' zone n = iter_changes d zone n"
    if "n \<in> vids d' zone" for zone n
  proof -
    have "\<not> (zone = z_name z \<and> n < b)" using that by (auto simp: vid split: if_splits)
    then have "records_of d' zone n = records_of d zone n" "changes_of d' zone n = changes_of d zone n"
      by (auto simp: records_of_def changes_of_def rs cs intro!: filter_cong)
    then show ?thesis using content_cong delta_cong by blast
  qed
  have h: "history_ok d' y" if y: "y \<in> set (zones d')" for y
  proof -
    from wf y obtain lo where lo: "lo \<le> z_current_version y" "vids d (z_name y) = {lo..z_current_version y}"
      and v: "\<exists>v \<in> set (versions d). v_zone v = z_name y \<and> v_version_id v = z_current_version y \<and>
        v_serial v = z_current_serial y" by (auto simp: zs wf_db_def history_ok_def)
    show ?thesis
    proof (cases "z_name y = z_name z")
      case True
      then have "y = z" using wf_db_zone_unique [OF wf _ z] y by (simp add: zs)
      then have "vids d' (z_name y) = {max lo b..z_current_version y}" using lo b by (auto simp: vid)
      then show ?thesis using v lo b \<open>y = z\<close> by (auto simp: history_ok_def vs intro!: exI [of _ "max lo b"])
    next
      case False
      with lo v show ?thesis by (auto simp: history_ok_def vid vs)
    qed
  qed
  have mv: "v_version_id v \<in> vids d' (v_zone v)" if "v \<in> set (versions d')" for v
    using that by (auto simp: mem_vids)
  have sub: "n \<in> vids d zone" if "n \<in> vids d' zone" for zone n using that by (auto simp: vid split: if_splits)
  have "unique_keys d'"
    using wf by (simp add: wf_db_def unique_keys_def zs ps vs rs cs distinct_map_filter)
  moreover have "owned d'"
    using wf by (auto simp: wf_db_def owned_def zs vs rs cs vid)
  moreover have "\<forall>v \<in> set (versions d'). version_ok d' v"
    using wf co [OF mv] by (auto simp: wf_db_def version_ok_def vs)
  moreover have "delta_ok d' zone n" if "n \<in> vids d' zone" "n + 1 \<in> vids d' zone" for zone n
    using wf co that sub by (simp add: wf_db_def delta_ok_def)
  ultimately show ?thesis using h by (simp add: wf_db_def)
qed

lemma finish_task_simps [simp]:
  "zones (finish_task now i d) = zones d" "versions (finish_task now i d) = versions d"
  "records (finish_task now i d) = records d" "changes (finish_task now i d) = changes d"
  "publish_requests (finish_task now i d) = publish_requests d" "keys (finish_task now i d) = keys d"
  "transfer_refs (finish_task now i d) = transfer_refs d"
  by (simp_all add: finish_task_def)

lemma wf_db_same_data':
  "wf_db d \<Longrightarrow> map zone_core (zones d') = map zone_core (zones d) \<Longrightarrow> versions d' = versions d \<Longrightarrow>
    records d' = records d \<Longrightarrow> changes d' = changes d \<Longrightarrow> publish_requests d' = publish_requests d \<Longrightarrow> wf_db d'"
  by (rule wf_db_same_data) (auto simp: wf_db_def unique_keys_def)

text \<open>On a well-formed database the cleanup drops exactly the versions below its bound.\<close>

lemma run_cleanup_prefix:
  assumes wf: "wf_db d" and z: "find_zone d (t_zone task) = Some z" and run: "run_cleanup now now' task d = (res, d')"
  obtains b where "b \<le> z_current_version z - max 1 (z_retain_versions z) + 1" "cr_delete_before res = Some b"
    "\<And>r. r \<in> set (transfer_refs d) \<Longrightarrow> live_ref (t_zone task) (now - 300000) r \<Longrightarrow>
       b \<le> f_version_id r \<and> b \<le> f_min_version r"
    "zones d' = zones d" "publish_requests d' = publish_requests d" "keys d' = keys d"
    "versions d' = filter (\<lambda>v. \<not> (v_zone v = t_zone task \<and> v_version_id v < b)) (versions d)"
    "records d' = filter (\<lambda>r. \<not> (r_zone r = t_zone task \<and> r_version_id r < b)) (records d)"
    "changes d' = filter (\<lambda>c. \<not> (c_zone c = t_zone task \<and> c_version_id c < b)) (changes d)"
    "transfer_refs d' = filter (\<lambda>r. \<not> dead_ref (t_zone task) (now - 300000) r) (transfer_refs d)"
  using z run
proof (rule run_cleanup_effect)
  fix b
  assume b: "b \<le> z_current_version z - max 1 (z_retain_versions z) + 1" "cr_delete_before res = Some b"
    and pins: "\<And>r. r \<in> set (transfer_refs d) \<Longrightarrow> live_ref (t_zone task) (now - 300000) r \<Longrightarrow>
       b \<le> f_version_id r \<and> b \<le> f_min_version r"
    and del: "set (cr_deleted res) = {n \<in> vids d (t_zone task). n < b}"
    and d': "d' = finish_task now' (t_task_id task) (d\<lparr>
       transfer_refs := filter (\<lambda>r. \<not> dead_ref (t_zone task) (now - 300000) r) (transfer_refs d),
       records := filter (\<lambda>r. \<not> (r_zone r = t_zone task \<and> r_version_id r \<in> set (cr_deleted res))) (records d),
       changes := filter (\<lambda>c. \<not> (c_zone c = t_zone task \<and> c_version_id c \<in> set (cr_deleted res))) (changes d),
       versions := filter (\<lambda>v. \<not> (v_zone v = t_zone task \<and> v_version_id v \<in> set (cr_deleted res))) (versions d)\<rparr>)"
  have own: "owned d" using wf by (simp add: wf_db_def)
  show ?thesis
  proof (rule that [OF b pins])
    show "versions d' = filter (\<lambda>v. \<not> (v_zone v = t_zone task \<and> v_version_id v < b)) (versions d)"
      by (auto simp: d' del mem_vids intro!: filter_cong)
    show "records d' = filter (\<lambda>r. \<not> (r_zone r = t_zone task \<and> r_version_id r < b)) (records d)"
      using own by (auto simp: d' del owned_def intro!: filter_cong)
    show "changes d' = filter (\<lambda>c. \<not> (c_zone c = t_zone task \<and> c_version_id c < b)) (changes d)"
      using own by (auto simp: d' del owned_def intro!: filter_cong)
  qed (simp_all add: d')
qed

lemma wf_db_run_cleanup:
  assumes wf: "wf_db d" and run: "run_cleanup now now' task d = (res, d')"
  shows "wf_db d'"
proof (cases "find_zone d (t_zone task)")
  case None
  with run have "d' = finish_task now (t_task_id task) d" by (simp add: run_cleanup_def)
  then show ?thesis by (intro wf_db_same_data' [OF wf]) simp_all
next
  case (Some z)
  note n = find_zone_name [OF Some]
  from wf Some run show ?thesis
  proof (rule run_cleanup_prefix)
    fix b
    assume b: "b \<le> z_current_version z - max 1 (z_retain_versions z) + 1"
      and d': "zones d' = zones d" "publish_requests d' = publish_requests d"
        "versions d' = filter (\<lambda>v. \<not> (v_zone v = t_zone task \<and> v_version_id v < b)) (versions d)"
        "records d' = filter (\<lambda>r. \<not> (r_zone r = t_zone task \<and> r_version_id r < b)) (records d)"
        "changes d' = filter (\<lambda>c. \<not> (c_zone c = t_zone task \<and> c_version_id c < b)) (changes d)"
    show ?thesis
      by (rule wf_db_drop_prefix [OF wf, of z b]) (use n b d' in simp_all)
  qed
qed

end
