(* ===== verification/Api.thy ===== *)
theory Api
  imports Cleanup
begin

text \<open>
  The HTTP management API of \<open>app/api.py\<close> with \<open>valid_u32\<close> of \<open>app/serial.py\<close>.  A
  request is its method, its path (after \<open>urlsplit\<close>), its Content-Length and its raw body.
  Of the standard library, JSON parsing, percent-decoding and SHA-256 are parameters; a
  response is its status with the value the handler renders.
\<close>

subsection \<open>valid_u32 and the request fingerprint\<close>

definition valid_u32 :: "json \<Rightarrow> exn + int option" where
  "valid_u32 v =
     (case py_int v of
        Inl TypeError \<Rightarrow> Inr None
      | Inl ValueError \<Rightarrow> Inr None
      | Inl e \<Rightarrow> Inl e
      | Inr n \<Rightarrow> Inr (if 0 \<le> n \<and> n \<le> 0xFFFFFFFF then Some n else None))"

text \<open>A normalised operation: name, type, action, then TTL and canonical records of a replace.\<close>

record norm_op =
  n_name :: string
  n_type :: string
  n_action :: string
  n_replace :: "(int \<times> rdata list) option"

fun norm_records :: "string \<Rightarrow> string \<Rightarrow> json list \<Rightarrow> exn + rdata list" where
  "norm_records rtype zone [] = Inr []"
| "norm_records rtype zone (v # vs) =
     bindE (canonical_rdata rtype v zone) (\<lambda>(rj, _).
     bindE (norm_records rtype zone vs) (\<lambda>rjs. Inr (rj # rjs)))"

definition norm_op_of :: "string \<Rightarrow> nat \<Rightarrow> json \<Rightarrow> exn + norm_op" where
  "norm_op_of zone idx op =
     (case op of
        JObj kvs \<Rightarrow>
          (let action = py_lower (py_str (obj_get kvs ''action'' (JStr []))) in
           bindE (canonical_name (obj_get kvs ''name'' (JStr [])) zone) (\<lambda>name.
           let rtype = py_upper (py_str (obj_get kvs ''type'' (JStr []))) in
           if action = ''replace'' then
             bindE (check_ttl (obj_get kvs ''ttl'' (JInt 3600))) (\<lambda>ttl.
             case obj_get kvs ''records'' (JList []) of
               JList vals \<Rightarrow>
                 bindE (norm_records rtype zone vals) (\<lambda>rs.
                   Inr \<lparr>n_name = name, n_type = rtype, n_action = action, n_replace = Some (ttl, rs)\<rparr>)
             | _ \<Rightarrow> Inl (op_error idx '': records must be a list''))
           else Inr \<lparr>n_name = name, n_type = rtype, n_action = action, n_replace = None\<rparr>))
      | _ \<Rightarrow> Inl (op_error idx '' must be an object''))"

fun norm_ops_of :: "string \<Rightarrow> nat \<Rightarrow> json list \<Rightarrow> exn + norm_op list" where
  "norm_ops_of zone idx [] = Inr []"
| "norm_ops_of zone idx (op # ops) =
     bindE (norm_op_of zone idx op) (\<lambda>n. bindE (norm_ops_of zone (idx + 1) ops) (\<lambda>ns. Inr (n # ns)))"

text \<open>\<open>json.dumps(..., sort_keys=True, separators=(",", ":"))\<close> of the payload.\<close>

definition norm_op_text :: "norm_op \<Rightarrow> string" where
  "norm_op_text n =
     json_obj ([json_field ''action'' (json_str (n_action n)), json_field ''name'' (json_str (n_name n))] @
       (case n_replace n of None \<Rightarrow> []
        | Some (ttl, rs) \<Rightarrow>
          [json_field ''records'' (''['' @ join_on '','' (map rdata_text rs) @ '']''),
           json_field ''ttl'' (dec_int ttl)]) @
       [json_field ''type'' (json_str (n_type n))])"

definition fingerprint_payload :: "int \<Rightarrow> int \<Rightarrow> norm_op list \<Rightarrow> string" where
  "fingerprint_payload base next ns =
     json_obj [json_field ''baseSerial'' (dec_int base), json_field ''nextSerial'' (dec_int next),
       json_field ''ops'' (''['' @ join_on '','' (map norm_op_text
         (sort_key (\<lambda>n. (n_name n, n_type n, n_action n)) ns)) @ '']'')]"

definition canonical_fingerprint ::
  "(string \<Rightarrow> string) \<Rightarrow> int \<Rightarrow> int \<Rightarrow> json list \<Rightarrow> string \<Rightarrow> exn + string" where
  "canonical_fingerprint sha256 base next ops zone =
     bindE (norm_ops_of zone 0 ops) (\<lambda>ns. Inr (sha256 (fingerprint_payload base next ns)))"

subsection \<open>Requests and responses\<close>

record health_checks =
  h_persistence :: bool
  h_dns_udp :: bool
  h_dns_tcp :: bool

record request_view =
  rv_row :: request_row
  rv_error :: "(error_code \<times> string) option"

datatype api_body =
    Zone_Body zone_meta
  | Zones_Body "zone_meta list"
  | Result_Body publish_result
  | Retention_Body string int
  | Key_Body key_row
  | Keys_Body "key_row list"
  | Revoked_Body string int
  | Request_Body request_view
  | Health_Body health_checks
  | Error_Body error_code string "(string \<times> json) list"

type_synonym response = "int \<times> api_body"

text \<open>
  What a request is served with: the parameters from the standard library, the clock
  readings and the random secret, and the state of the process.
\<close>

record api_env =
  a_sha256 :: "string \<Rightarrow> string"
  a_loads :: "bytes \<Rightarrow> json option"
  a_unquote :: "string \<Rightarrow> string"
  a_now :: int
  a_ts :: int
  a_ts' :: int
  a_secret :: bytes
  a_ping :: bool
  a_dns_ready :: "(bool \<times> bool) option"

definition validation_error :: "string \<Rightarrow> int \<Rightarrow> exn" where
  "validation_error msg st = api_error VALIDATION_ERROR msg st []"

text \<open>\<open>None\<close> of the header is the default \<open>"0"\<close>.\<close>

definition read_json :: "(bytes \<Rightarrow> json option) \<Rightarrow> string option \<Rightarrow> bytes \<Rightarrow> exn + (string \<times> json) list" where
  "read_json loads content_length raw =
     bindE (case int_of_str (case content_length of None \<Rightarrow> ''0'' | Some s \<Rightarrow> s) of
         Inl _ \<Rightarrow> Inl (validation_error ''bad Content-Length'' 400)
       | Inr n \<Rightarrow> Inr n) (\<lambda>n.
     if n \<le> 0 then Inl (api_error MALFORMED_JSON ''request body required'' 400 [])
     else if 4 * 1024 * 1024 < n then Inl (api_error LIMIT_EXCEEDED ''request body too large'' 413 [])
     else case loads (take (nat n) raw) of
       None \<Rightarrow> Inl (api_error MALFORMED_JSON ''body is not valid JSON'' 400 [])
     | Some (JObj kvs) \<Rightarrow> Inr kvs
     | Some _ \<Rightarrow> Inl (api_error MALFORMED_JSON ''request body must be a JSON object'' 400 []))"

definition respond :: "exn + response \<Rightarrow> response" where
  "respond r =
     (case r of
        Inr resp \<Rightarrow> resp
      | Inl (ApiError e) \<Rightarrow> (ae_http_status e, Error_Body (ae_code e) (ae_message e) (ae_details e))
      | Inl _ \<Rightarrow> (500, Error_Body INTERNAL ''internal error'' []))"

definition request_view_of :: "request_row \<Rightarrow> request_view" where
  "request_view_of p =
     \<lparr>rv_row = p, rv_error = (case p_status p of
        COMMITTED _ _ \<Rightarrow> None | FAILED e \<Rightarrow> Some (ae_code e, ae_message e))\<rparr>"

subsection \<open>Routes\<close>

text \<open>\<open>soa.setdefault(field, default)\<close>.\<close>

definition obj_default :: "string \<times> json \<Rightarrow> (string \<times> json) list \<Rightarrow> (string \<times> json) list" where
  "obj_default kv kvs = (if map_of kvs (fst kv) = None then kvs @ [kv] else kvs)"

definition soa_defaults :: "(string \<times> json) list \<Rightarrow> (string \<times> json) list" where
  "soa_defaults soa = fold obj_default
     [(''refresh'', JInt 7200), (''retry'', JInt 3600), (''expire'', JInt 1209600), (''minimum'', JInt 3600)] soa"

fun is_str :: "json \<Rightarrow> bool" where
  "is_str (JStr s) = True"
| "is_str _ = False"

record create_request =
  cq_name :: string
  cq_serial :: int
  cq_soa :: "(string \<times> json) list"
  cq_ns :: "json list"
  cq_retain :: int

definition check_create :: "(string \<times> json) list \<Rightarrow> exn + create_request" where
  "check_create body =
     bindE (canonical_zone (JStr (py_str (obj_get body ''name'' (JStr []))))) (\<lambda>name.
     bindE (valid_u32 (obj_get body ''serial'' JNull)) (\<lambda>serial.
     case serial of
       None \<Rightarrow> Inl (api_error SERIAL_INVALID ''serial must be 0..4294967295'' 422 [])
     | Some serial \<Rightarrow>
     (case obj_get body ''soa'' JNull of
        JObj soa \<Rightarrow>
          if \<not> is_str (obj_get soa ''mname'' JNull) then Inl (validation_error ''soa.mname required'' 400)
          else if \<not> is_str (obj_get soa ''rname'' JNull) then Inl (validation_error ''soa.rname required'' 400)
          else (case obj_get body ''ns'' JNull of
            JList ns \<Rightarrow>
              if ns = [] then Inl (validation_error ''ns must be a non-empty list of name servers'' 400)
              else if MAX_CHANGES_PER_PUBLISH < length ns
                then Inl (api_error LIMIT_EXCEEDED ''too many NS records'' 413 [])
              else bindE (py_int (obj_get body ''retainVersions'' (JInt 10))) (\<lambda>retain.
                if retain < 1 \<or> 100000 < retain
                then Inl (validation_error ''retainVersions must be 1..100000'' 422)
                else Inr \<lparr>cq_name = name, cq_serial = serial, cq_soa = soa_defaults soa,
                  cq_ns = map (\<lambda>n. JStr (py_str n)) ns, cq_retain = retain\<rparr>)
          | _ \<Rightarrow> Inl (validation_error ''ns must be a non-empty list of name servers'' 400))
      | _ \<Rightarrow> Inl (validation_error ''soa object required'' 400))))"

definition api_create_zone :: "api_env \<Rightarrow> (string \<times> json) list \<Rightarrow> db \<Rightarrow> (exn + response) \<times> db" where
  "api_create_zone env body d =
     (case check_create body of
        Inl e \<Rightarrow> (Inl e, d)
      | Inr c \<Rightarrow>
        (case create_zone (a_ts env) (cq_name c) (cq_serial c) (cq_soa c) (cq_ns c) (cq_retain c) d of
           (Inl e, d') \<Rightarrow> (Inl e, d')
         | (Inr _, d') \<Rightarrow>
           (bindE (zone_metadata (cq_name c) d') (\<lambda>m. Inr (201, Zone_Body m)), d')))"

record publish_request =
  bq_zone :: string
  bq_request_id :: string
  bq_base :: int
  bq_next :: int
  bq_ops :: "json list"
  bq_fingerprint :: string

definition bad_request_id :: exn where
  "bad_request_id = validation_error ''requestId must be a non-empty string (<=200 chars)'' 400"

definition check_publish ::
  "(string \<Rightarrow> string) \<Rightarrow> string \<Rightarrow> (string \<times> json) list \<Rightarrow> exn + publish_request" where
  "check_publish sha256 zone_name body =
     bindE (canonical_zone_arg zone_name) (\<lambda>zone.
     bindE (case obj_get body ''requestId'' JNull of
         JStr s \<Rightarrow> if py_strip s = [] \<or> 200 < length s then Inl bad_request_id else Inr (py_strip s)
       | _ \<Rightarrow> Inl bad_request_id) (\<lambda>rid.
     bindE (valid_u32 (obj_get body ''baseSerial'' JNull)) (\<lambda>base.
     bindE (valid_u32 (obj_get body ''nextSerial'' JNull)) (\<lambda>next.
     case (base, next) of
       (Some base, Some next) \<Rightarrow>
         (case obj_get body ''changes'' (obj_get body ''ops'' JNull) of
            JNull \<Rightarrow> Inl (validation_error ''changes required'' 400)
          | JList ops \<Rightarrow>
            if ops = [] then Inl changes_not_list
            else if MAX_CHANGES_PER_PUBLISH < length ops then
              Inl (api_error LIMIT_EXCEEDED
                (''at most '' @ dec_nat MAX_CHANGES_PER_PUBLISH @ '' changes per publish'') 413
                [(''limit'', JInt (int MAX_CHANGES_PER_PUBLISH)), (''count'', JInt (int (length ops)))])
            else bindE (canonical_fingerprint sha256 base next ops zone) (\<lambda>fp.
              Inr \<lparr>bq_zone = zone, bq_request_id = rid, bq_base = base, bq_next = next, bq_ops = ops,
                bq_fingerprint = fp\<rparr>)
          | _ \<Rightarrow> Inl changes_not_list)
     | _ \<Rightarrow> Inl (api_error SERIAL_INVALID ''baseSerial/nextSerial must be 0..4294967295'' 422 [])))))"

definition api_publish :: "api_env \<Rightarrow> string \<Rightarrow> (string \<times> json) list \<Rightarrow> db \<Rightarrow> (exn + response) \<times> db" where
  "api_publish env zone_name body d =
     (case check_publish (a_sha256 env) zone_name body of
        Inl e \<Rightarrow> (Inl e, d)
      | Inr b \<Rightarrow>
        (case publish (a_ts env) (bq_zone b) (bq_request_id b) (bq_base b) (bq_next b) (JList (bq_ops b))
            (bq_fingerprint b) d of
           (Inl e, d') \<Rightarrow> (Inl e, d')
         | (Inr r, d') \<Rightarrow> (Inr (if pr_replayed r then 200 else 201, Result_Body r), d')))"

definition api_set_retention :: "api_env \<Rightarrow> string \<Rightarrow> (string \<times> json) list \<Rightarrow> db \<Rightarrow> (exn + response) \<times> db" where
  "api_set_retention env zone_name body d =
     (case canonical_zone_arg zone_name of
        Inl e \<Rightarrow> (Inl e, d)
      | Inr zone \<Rightarrow>
        (case obj_get body ''retainVersions'' JNull of
           JInt n \<Rightarrow>
             if n < 1 \<or> 100000 < n
             then (Inl (validation_error ''retainVersions must be an integer 1..100000'' 422), d)
             else (case set_retention (a_ts env) (a_ts' env) zone n d of
                 (Inl e, d') \<Rightarrow> (Inl e, d')
               | (Inr _, d') \<Rightarrow> (Inr (200, Retention_Body zone n), d'))
         | _ \<Rightarrow> (Inl (validation_error ''retainVersions must be an integer 1..100000'' 422), d)))"

text \<open>\<open>bool(v)\<close>; a float is false when it prints as zero.\<close>

fun py_truthy :: "json \<Rightarrow> bool" where
  "py_truthy JNull = False"
| "py_truthy (JBool b) = b"
| "py_truthy (JInt i) = (i \<noteq> 0)"
| "py_truthy (JFloat t r) = (r \<noteq> ''0.0'' \<and> r \<noteq> ''-0.0'')"
| "py_truthy (JStr s) = (s \<noteq> [])"
| "py_truthy (JList xs) = (xs \<noteq> [])"
| "py_truthy (JObj kvs) = (kvs \<noteq> [])"

record key_request =
  kq_zone :: string
  kq_key_id :: string
  kq_key_name :: "string option"
  kq_expires :: "int option"

definition check_install :: "int \<Rightarrow> string \<Rightarrow> (string \<times> json) list \<Rightarrow> exn + key_request" where
  "check_install now zone_name body =
     bindE (canonical_zone_arg zone_name) (\<lambda>zone.
     let v = obj_get body ''keyId'' JNull; key_id = py_strip (if py_truthy v then py_str v else []) in
     if key_id = [] \<or> 200 < length key_id
     then Inl (validation_error ''keyId must be a non-empty string (<=200 chars)'' 400)
     else bindE (case obj_get body ''keyName'' JNull of
         JNull \<Rightarrow> Inr None
       | v \<Rightarrow> let n = py_lower (py_strip (py_str v)) in
           if n = [] \<or> 255 < length n then Inl (validation_error ''bad keyName'' 400) else Inr (Some n)) (\<lambda>key_name.
     bindE (case obj_get body ''retireInSeconds'' JNull of
         JNull \<Rightarrow> Inr None
       | JInt secs \<Rightarrow>
           if secs < 1 then Inl (validation_error ''retireInSeconds must be a positive integer'' 400)
           else Inr (Some (now + secs * 1000))
       | _ \<Rightarrow> Inl (validation_error ''retireInSeconds must be a positive integer'' 400)) (\<lambda>expires.
       Inr \<lparr>kq_zone = zone, kq_key_id = key_id, kq_key_name = key_name, kq_expires = expires\<rparr>)))"

definition api_install_key :: "api_env \<Rightarrow> string \<Rightarrow> (string \<times> json) list \<Rightarrow> db \<Rightarrow> (exn + response) \<times> db" where
  "api_install_key env zone_name body d =
     (case check_install (a_now env) zone_name body of
        Inl e \<Rightarrow> (Inl e, d)
      | Inr k \<Rightarrow>
        (case install_key (a_ts env) (a_secret env) (kq_zone k) (kq_key_id k) (kq_key_name k) (kq_expires k) d of
           (Inl e, d') \<Rightarrow> (Inl e, d')
         | (Inr row, d') \<Rightarrow> (Inr (201, Key_Body row), d')))"

definition api_revoke_key :: "api_env \<Rightarrow> string \<Rightarrow> string \<Rightarrow> db \<Rightarrow> (exn + response) \<times> db" where
  "api_revoke_key env zone_name key_id d =
     (case canonical_zone_arg zone_name of
        Inl e \<Rightarrow> (Inl e, d)
      | Inr zone \<Rightarrow>
        (case revoke_key (a_ts env) zone key_id d of
           (Inl e, d') \<Rightarrow> (Inl e, d')
         | (Inr ts, d') \<Rightarrow> (Inr (200, Revoked_Body key_id ts), d')))"

definition api_health :: "api_env \<Rightarrow> response" where
  "api_health env =
     (let (udp, tcp) = (case a_dns_ready env of None \<Rightarrow> (False, False) | Some p \<Rightarrow> p) in
      (if a_ping env \<and> udp \<and> tcp then 200 else 503,
       Health_Body \<lparr>h_persistence = a_ping env, h_dns_udp = udp, h_dns_tcp = tcp\<rparr>))"

subsection \<open>Dispatch\<close>

definition strip_slash :: "string \<Rightarrow> string" where
  "strip_slash s =
     rev (dropWhile (\<lambda>c. c = CHR ''/'') (rev (dropWhile (\<lambda>c. c = CHR ''/'') s)))"

definition path_parts :: "api_env \<Rightarrow> string \<Rightarrow> string list" where
  "path_parts env path = map (a_unquote env) (split_on CHR ''/'' (strip_slash path))"

definition no_such_endpoint :: exn where
  "no_such_endpoint = api_error NOT_FOUND ''no such endpoint'' 404 []"

definition route_get :: "api_env \<Rightarrow> string \<Rightarrow> db \<Rightarrow> exn + response" where
  "route_get env path d =
     (if path = ''/healthz'' then Inr (api_health env)
      else if path = ''/v1/zones'' then
        bindE (mapE (\<lambda>z. zone_metadata (z_name z) d) (list_zones d)) (\<lambda>ms. Inr (200, Zones_Body ms))
      else case path_parts env path of
        [a, b, zone] \<Rightarrow>
          if a = ''v1'' \<and> b = ''zones'' then
            bindE (canonical_zone_arg zone) (\<lambda>z. bindE (zone_metadata z d) (\<lambda>m. Inr (200, Zone_Body m)))
          else Inl no_such_endpoint
      | [a, b, zone, c, rid] \<Rightarrow>
          if a = ''v1'' \<and> b = ''zones'' \<and> c = ''requests'' then
            bindE (canonical_zone_arg zone) (\<lambda>z. bindE (get_request z rid d) (\<lambda>p.
              Inr (200, Request_Body (request_view_of p))))
          else Inl no_such_endpoint
      | [a, b, zone, c] \<Rightarrow>
          if a = ''v1'' \<and> b = ''zones'' \<and> c = ''keys'' then
            bindE (canonical_zone_arg zone) (\<lambda>z. bindE (list_keys z d) (\<lambda>ks. Inr (200, Keys_Body ks)))
          else Inl no_such_endpoint
      | _ \<Rightarrow> Inl no_such_endpoint)"

definition do_GET :: "api_env \<Rightarrow> string \<Rightarrow> db \<Rightarrow> response" where
  "do_GET env path d = respond (route_get env path d)"

definition route_post :: "api_env \<Rightarrow> string \<Rightarrow> (string \<times> json) list \<Rightarrow> db \<Rightarrow> (exn + response) \<times> db" where
  "route_post env path body d =
     (case path_parts env path of
        [a, b] \<Rightarrow>
          if a = ''v1'' \<and> b = ''zones'' then api_create_zone env body d else (Inl no_such_endpoint, d)
      | [a, b, zone, c] \<Rightarrow>
          if a = ''v1'' \<and> b = ''zones'' \<and> c = ''publish'' then api_publish env zone body d
          else if a = ''v1'' \<and> b = ''zones'' \<and> c = ''keys'' then api_install_key env zone body d
          else (Inl no_such_endpoint, d)
      | [a, b, zone, c, key_id, e] \<Rightarrow>
          if a = ''v1'' \<and> b = ''zones'' \<and> c = ''keys'' \<and> e = ''revoke'' then api_revoke_key env zone key_id d
          else (Inl no_such_endpoint, d)
      | _ \<Rightarrow> (Inl no_such_endpoint, d))"

definition do_POST :: "api_env \<Rightarrow> string \<Rightarrow> string option \<Rightarrow> bytes \<Rightarrow> db \<Rightarrow> response \<times> db" where
  "do_POST env path content_length raw d =
     (case read_json (a_loads env) content_length raw of
        Inl e \<Rightarrow> (respond (Inl e), d)
      | Inr body \<Rightarrow> (case route_post env path body d of (r, d') \<Rightarrow> (respond r, d')))"

definition do_PUT :: "api_env \<Rightarrow> string \<Rightarrow> string option \<Rightarrow> bytes \<Rightarrow> db \<Rightarrow> response \<times> db" where
  "do_PUT env path content_length raw d =
     (case read_json (a_loads env) content_length raw of
        Inl e \<Rightarrow> (respond (Inl e), d)
      | Inr body \<Rightarrow>
        (case path_parts env path of
           [a, b, zone, c] \<Rightarrow>
             if a = ''v1'' \<and> b = ''zones'' \<and> c = ''retention'' then
               (case api_set_retention env zone body d of (r, d') \<Rightarrow> (respond r, d'))
             else (respond (Inl no_such_endpoint), d)
         | _ \<Rightarrow> (respond (Inl no_such_endpoint), d)))"

definition do_DELETE :: response where
  "do_DELETE = respond (Inl (api_error METHOD_NOT_ALLOWED ''method not allowed'' 405 []))"

end
