(* ===== verification/Tsig.thy ===== *)
theory Tsig
  imports Message
begin

text \<open>
  \<open>app/dnswire.py\<close>, TSIG digests and signing.  HMAC-SHA256 is the parameter \<open>hm\<close>: the
  key, then the message, then the digest.  Nothing is assumed of it.
\<close>

unbundle bit_operations_syntax

type_synonym mac_fun = "bytes \<Rightarrow> bytes \<Rightarrow> bytes"

definition digest_block ::
  "bytes \<Rightarrow> nat \<Rightarrow> nat \<Rightarrow> string \<Rightarrow> nat \<Rightarrow> nat \<Rightarrow> nat \<Rightarrow> bytes \<Rightarrow> exn + bytes" where
  "digest_block msg tsig_offset final_arcount key_name when fudge error other =
     bindE (patch_arcount (take tsig_offset msg) final_arcount) (\<lambda>base.
     bindE (tsig_variables key_name ALGORITHM_WIRE when fudge error other) (\<lambda>v.
       Inr (base @ v)))"

definition expected_request_mac :: "mac_fun \<Rightarrow> bytes \<Rightarrow> query \<Rightarrow> exn + bytes" where
  "expected_request_mac hm key q =
     (case q_tsig q of
        None \<Rightarrow> Inl TypeError
      | Some t \<Rightarrow>
        let off = (case q_tsig_offset q of None \<Rightarrow> length (q_raw q) | Some off \<Rightarrow> off) in
        bindE (digest_block (q_raw q) off (q_arcount q) (t_name t) (t_time t) (t_fudge t)
            (t_error t) (t_other t)) (\<lambda>block.
          Inr (hm key block)))"

definition prior_mac_wire :: "bytes \<Rightarrow> exn + bytes" where
  "prior_mac_wire prior_mac = bindE (pack16 (length prior_mac)) (\<lambda>l. Inr (l @ prior_mac))"

definition continue_running_mac :: "mac_fun \<Rightarrow> bytes \<Rightarrow> bytes \<Rightarrow> bytes \<Rightarrow> exn + bytes" where
  "continue_running_mac hm key running_mac unsigned_message =
     bindE (prior_mac_wire running_mac) (\<lambda>p. Inr (hm key (p @ unsigned_message)))"

definition sign_response ::
  "mac_fun \<Rightarrow> bytes \<Rightarrow> bytes \<Rightarrow> string \<Rightarrow> bytes \<Rightarrow> nat \<Rightarrow> nat \<Rightarrow> nat \<Rightarrow> nat \<Rightarrow> nat \<Rightarrow> bytes
    \<Rightarrow> exn + bytes \<times> bytes" where
  "sign_response hm key response_no_tsig key_name prior_mac when fudge orig_id arcount_before error other =
     bindE (patch_arcount response_no_tsig (arcount_before + 1)) (\<lambda>base.
     bindE (prior_mac_wire prior_mac) (\<lambda>p.
     bindE (tsig_variables key_name ALGORITHM_WIRE when fudge error other) (\<lambda>v.
     let mac = hm key (p @ base @ v) in
     bindE (append_tsig response_no_tsig key_name when fudge mac orig_id error (Some arcount_before) other)
       (\<lambda>wire. Inr (wire, mac)))))"

definition verify_tsig_time :: "int \<Rightarrow> int \<Rightarrow> int \<Rightarrow> int \<Rightarrow> bool" where
  "verify_tsig_time tsig_time fudge now max_fudge =
     (if \<not> (1 \<le> fudge \<and> fudge \<le> max_fudge) then False else \<bar>now - tsig_time\<bar> \<le> fudge)"

subsection \<open>Encoding a decoded name\<close>

lemma rstrip_dot_no_dot: "s = [] \<or> last s \<noteq> CHR ''.'' \<Longrightarrow> rstrip_dot s = s"
  by (cases s rule: rev_cases) (auto simp: rstrip_dot_def)

lemma rstrip_dot_append_dot [simp]: "rstrip_dot (s @ ''.'') = rstrip_dot s"
  by (simp add: rstrip_dot_def)

lemma rstrip_dot_last: "rstrip_dot s = [] \<or> last (rstrip_dot s) \<noteq> CHR ''.''"
proof (cases "dropWhile (\<lambda>c. c = CHR ''.'') (rev s)")
  case (Cons a l)
  then have "a \<noteq> CHR ''.''" using hd_dropWhile [of "\<lambda>c. c = CHR ''.''" "rev s"] by simp
  then show ?thesis by (simp add: rstrip_dot_def Cons)
qed (simp add: rstrip_dot_def)

lemma last_py_lower: "s \<noteq> [] \<Longrightarrow> last (py_lower s) = lower_char (last s)"
  by (simp add: py_lower_def last_map)

lemma rstrip_dot_wire_name: "rstrip_dot (py_lower (rstrip_dot s)) = py_lower (rstrip_dot s)"
proof (rule rstrip_dot_no_dot)
  show "py_lower (rstrip_dot s) = [] \<or> last (py_lower (rstrip_dot s)) \<noteq> CHR ''.''"
    using rstrip_dot_last [of s] last_py_lower [of "rstrip_dot s"]
    by (cases "rstrip_dot s = []") (simp_all add: lower_char_eq_dot)
qed

lemma label_wire_lower: "label_wire (py_lower l) = label_wire l"
  by (simp add: label_wire_def py_lower_def)

lemma label_ok_lower: "label_ok l \<Longrightarrow> label_ok (py_lower l)"
  using py_lower_ascii [of l] by (simp add: label_ok_def)

lemma encode_wire_name:
  assumes "encode_name name = Inr w"
  shows "encode_name (wire_name_of name) = Inr w"
proof (cases "name = [] \<or> name = ''.''")
  case True
  with assms show ?thesis by (auto simp: encode_name_def wire_name_of_def)
next
  case False
  define ls where "ls = split_on CHR ''.'' (rstrip_dot name)"
  from assms False have ok: "\<forall>l \<in> set ls. label_ok l" and w: "w = concat (map label_wire ls) @ [0]"
    by (auto simp: encode_name_def bindE_Inr_iff encode_labels_Inr_iff ls_def)
  have ne: "rstrip_dot name \<noteq> []"
    using ok by (auto simp: ls_def label_ok_def)
  have "encode_labels (map py_lower ls) = Inr (concat (map label_wire ls))"
    using ok by (simp add: encode_labels_Inr_iff label_ok_lower label_wire_lower comp_def)
  moreover have "split_on CHR ''.'' (rstrip_dot (wire_name_of name)) = map py_lower ls"
    using False by (simp add: wire_name_of_def rstrip_dot_wire_name ls_def py_lower_split)
  ultimately show ?thesis
    using False ne by (simp add: encode_name_def wire_name_of_def w)
qed

subsection \<open>Parsing the TSIG record that was appended\<close>

lemma ALGORITHM_WIRE_name: "encode_name ''hmac-sha256.'' = Inr ALGORITHM_WIRE"
  by (simp add: encode_name_def rstrip_dot_def encode_ascii_def is_ascii_def char_byte_def lower_byte_def
      ALGORITHM_WIRE_def Let_def)

lemma wire_name_of_algorithm: "wire_name_of ''hmac-sha256.'' = ''hmac-sha256.''"
  by (simp add: wire_name_of_def rstrip_dot_def py_lower_def lower_char_def Let_def)

lemma length_ALGORITHM_WIRE [simp]: "length ALGORITHM_WIRE = 13"
  by (simp add: ALGORITHM_WIRE_def)

lemma tsig_rdata_Inr_iff:
  "tsig_rdata alg when fudge mac orig_id error other = Inr r \<longleftrightarrow>
    fudge < 65536 \<and> length mac < 65536 \<and> orig_id < 65536 \<and> error < 65536 \<and> length other < 65536 \<and>
    r = alg @ HIH (take_bit 16 (drop_bit 32 when)) (take_bit 32 when) fudge @ be16 (length mac) @ mac
      @ (be16 orig_id @ be16 error @ be16 (length other)) @ other"
  by (auto simp: tsig_rdata_def bindE_Inr_iff pack_HHH_def split: if_splits)

lemma parse_tsig_rdata_correct:
  assumes r: "tsig_rdata ALGORITHM_WIRE when fudge mac orig_id error other = Inr r"
    and at: "holds_at buf off r"
  shows "parse_tsig_rdata tname buf off (length r) =
    Inr \<lparr>t_name = tname, t_algorithm = ''hmac-sha256.'', t_time = take_bit 48 when, t_fudge = fudge,
      t_mac = mac, t_orig_id = orig_id, t_error = error, t_other = other\<rparr>"
proof -
  let ?T = "HIH (take_bit 16 (drop_bit 32 when)) (take_bit 32 when) fudge"
  let ?tail = "be16 orig_id @ be16 error @ be16 (length other)"
  from r have b: "fudge < 65536" "length mac < 65536" "orig_id < 65536" "error < 65536"
      "length other < 65536"
    and r_def: "r = ALGORITHM_WIRE @ ?T @ be16 (length mac) @ mac @ ?tail @ other"
    by (simp_all add: tsig_rdata_Inr_iff)
  let ?m = "length mac"
  from at have h: "holds_at buf off ALGORITHM_WIRE" "holds_at buf (off + 13) ?T"
      "holds_at buf (off + 21) (be16 ?m)" "holds_at buf (off + 23) mac"
      "holds_at buf (off + 23 + ?m) ?tail" "holds_at buf (off + 29 + ?m) other"
    by (simp_all add: r_def holds_at_append algebra_simps numeral_eq_Suc)
  have d: "decode_name buf off = Inr (''hmac-sha256.'', off + 13)"
    using names.dec_enc [OF ALGORITHM_WIRE_name h(1)] by (simp add: wire_name_of_algorithm)
  have s1: "slice buf (off + 13) (off + 21) = ?T"
    using h(2) by (rule holds_at_slice') simp
  have s2: "slice buf (off + 21) (off + 23) = be16 ?m"
    using h(3) by (rule holds_at_slice') simp
  have s3: "slice buf (off + 23) (off + 23 + ?m) = mac"
    using h(4) by (rule holds_at_slice') simp
  have s4: "slice buf (off + 23 + ?m) (off + 29 + ?m) = ?tail"
    using h(5) by (rule holds_at_slice') simp
  have s5: "slice buf (off + 29 + ?m) (off + 29 + ?m + length other) = other"
    using h(6) by (rule holds_at_slice') simp
  have len: "length r = 29 + ?m + length other" by (simp add: r_def)
  have u1: "unpack_HIH ?T = Inr (take_bit 16 (drop_bit 32 when), take_bit 32 when, fudge)"
    by (rule unpack_HIH_HIH [OF take_bit16_lt take_bit32_lt b(1)])
  have u2: "unpack_HHH ?tail = Inr (orig_id, error, length other)"
    by (rule unpack_HHH_be16 [OF b(3-5)])
  show ?thesis
    unfolding parse_tsig_rdata_def Let_def d len
    using s1 s2 s3 s4 s5 u1 u2 b(2) time48_split [of "when"]
    by (simp add: algebra_simps)
qed

end
