(* ===== verification/Zone_Transfer.thy ===== *)
theory Zone_Transfer
  imports Cleanup Tsig
begin

text \<open>
  Zone transfers of \<open>app/dns_server.py\<close>: message assembly, authorisation with the version
  decision and the pin in one transaction, the AXFR and IXFR record streams, and the signed
  message stream.  A generator is the list of the results it yields; its consumer stops at
  the first exception.
\<close>

unbundle bit_operations_syntax

subsection \<open>Message assembly\<close>

text \<open>\<open>_transfer_budget\<close>, of the configured \<open>XFER_MESSAGE_BUDGET\<close>.\<close>

definition transfer_budget :: "int \<Rightarrow> int" where
  "transfer_budget configured = min configured 65000"

definition type_rr_wire :: "string \<Rightarrow> string \<Rightarrow> int \<Rightarrow> bytes \<Rightarrow> exn + bytes" where
  "type_rr_wire name rtype ttl rdata_wire =
     (case TYPES_BY_NAME rtype of
        None \<Rightarrow> Inl KeyError
      | Some t \<Rightarrow> pack_rr name t CLASS_IN ttl rdata_wire)"

definition rr_wire :: "record_row \<Rightarrow> exn + bytes" where
  "rr_wire r = type_rr_wire (r_name r) (r_rtype r) (r_ttl r) (r_rdata_wire r)"

definition change_wire :: "change_row \<Rightarrow> exn + bytes" where
  "change_wire c = type_rr_wire (c_name c) (c_rtype c) (c_ttl c) (c_rdata_wire c)"

definition question_for :: "string \<Rightarrow> nat \<Rightarrow> exn + bytes" where
  "question_for zone qtype =
     bindE (encode_name zone) (\<lambda>n. bindE (pack_HH qtype CLASS_IN) (\<lambda>t. Inr (n @ t)))"

definition frame :: "bytes \<Rightarrow> exn + bytes" where
  "frame msg = bindE (pack16 (length msg)) (\<lambda>l. Inr (l @ msg))"

definition wrap :: "nat \<Rightarrow> bytes \<Rightarrow> bytes list \<Rightarrow> exn + bytes" where
  "wrap qid question answers =
     bindE (build_header qid ((FLAG_QR OR FLAG_AA) OR RCODE_NOERROR) 1 (length answers) 0 0) (\<lambda>h.
       Inr (h @ question @ concat answers))"

text \<open>The loop of \<open>_rr_batches\<close>: \<open>cur\<close> is the open message, \<open>cur_len\<close> its size.\<close>

fun batch_loop ::
  "nat \<Rightarrow> bytes \<Rightarrow> int \<Rightarrow> bytes list \<Rightarrow> nat \<Rightarrow> (exn + bytes) list \<Rightarrow> (exn + bytes) list" where
  "batch_loop qid question room cur cur_len [] = [wrap qid question cur]"
| "batch_loop qid question room cur cur_len (Inl e # rrs) = [Inl e]"
| "batch_loop qid question room cur cur_len (Inr rr # rrs) =
     (if cur \<noteq> [] \<and> room < int (cur_len + length rr)
      then wrap qid question cur #
        batch_loop qid question room [rr] (12 + length question + length rr) rrs
      else batch_loop qid question room (cur @ [rr]) (cur_len + length rr) rrs)"

definition rr_batches :: "nat \<Rightarrow> bytes \<Rightarrow> (exn + bytes) list \<Rightarrow> int \<Rightarrow> int \<Rightarrow> (exn + bytes) list" where
  "rr_batches qid question rrs budget tsig_space =
     batch_loop qid question (budget - tsig_space) [] (12 + length question) rrs"

subsection \<open>Authorisation\<close>

datatype xfer_mode = MODE_AXFR | MODE_IXFR

record plan =
  tp_mode :: "xfer_mode option"
  tp_zone :: string
  tp_target_version :: int
  tp_target_serial :: int
  tp_min_version :: int
  tp_ref_id :: string
  tp_key_name :: string
  tp_secret :: bytes
  tp_qid :: nat

text \<open>\<open>max(usable, key=gen)\<close>: the first of the greatest.\<close>

definition newest_key :: "key_row \<Rightarrow> key_row list \<Rightarrow> key_row" where
  "newest_key = foldl (\<lambda>best k. if k_gen best < k_gen k then k else best)"

text \<open>\<open>now\<close> is the clock of the time check, \<open>now'\<close> of the expiry check, in seconds.\<close>

definition key_usable :: "int \<Rightarrow> key_row \<Rightarrow> bool" where
  "key_usable now_ms k =
     (k_state k = ACTIVE \<or> (case k_expires_at k of None \<Rightarrow> True | Some e \<Rightarrow> now_ms < e))"

definition resolve_in_tx :: "int \<Rightarrow> int \<Rightarrow> db \<Rightarrow> string \<Rightarrow> tsig_rr \<Rightarrow> nat + key_row" where
  "resolve_in_tx now now' d zone t =
     (let live = filter (\<lambda>k. k_state k \<noteq> REVOKED)
            (filter (\<lambda>k. k_zone k = zone \<and> k_key_name k = t_name t) (keys d)) in
      if live = [] then Inl TSIG_BADKEY
      else if \<not> verify_tsig_time (int (t_time t)) (int (t_fudge t)) now 300 then Inl TSIG_BADTIME
      else case filter (key_usable (now' * 1000)) live of
        [] \<Rightarrow> Inl TSIG_BADKEY
      | k # ks \<Rightarrow> Inr (newest_key k ks))"

definition decide_ixfr :: "db \<Rightarrow> string \<Rightarrow> int \<Rightarrow> int \<Rightarrow> int option \<Rightarrow> xfer_mode" where
  "decide_ixfr d zone target_version target_serial client_serial =
     (case client_serial of
        None \<Rightarrow> MODE_AXFR
      | Some cs \<Rightarrow>
        let rel = compare cs target_serial in
        if rel = EQUAL then MODE_IXFR
        else if rel \<noteq> GREATER then MODE_AXFR
        else case version_by_serial d zone cs of
          None \<Rightarrow> MODE_AXFR
        | Some start \<Rightarrow>
          let v0 = v_version_id start in
          if target_version \<le> v0 then MODE_AXFR
          else if int (length (filter (\<lambda>v. v_zone v = zone \<and> v0 < v_version_id v \<and>
              v_version_id v \<le> target_version) (versions d))) \<noteq> target_version - v0 then MODE_AXFR
          else MODE_IXFR)"

text \<open>The mode and the oldest version the transfer reads; a missing start row is \<open>None[...]\<close>.\<close>

definition transfer_mode :: "db \<Rightarrow> zone_row \<Rightarrow> query \<Rightarrow> exn + xfer_mode option \<times> int" where
  "transfer_mode d z q =
     (let target = z_current_version z in
      if q_qtype q = TYPE_IXFR then
        (let mode = decide_ixfr d (z_name z) target (z_current_serial z) (q_client_soa_serial q) in
         if mode = MODE_IXFR then
           (case q_client_soa_serial q of
              None \<Rightarrow> Inl TypeError
            | Some cs \<Rightarrow>
              (case version_by_serial d (z_name z) cs of
                 None \<Rightarrow> Inl TypeError
               | Some start \<Rightarrow> Inr (Some MODE_IXFR, v_version_id start)))
         else Inr (Some mode, target))
      else Inr (if q_qtype q = TYPE_AXFR then Some MODE_AXFR else None, target))"

definition authorize_transfer ::
  "mac_fun \<Rightarrow> int \<Rightarrow> int \<Rightarrow> int \<Rightarrow> string \<Rightarrow> string \<Rightarrow> query \<Rightarrow> db \<Rightarrow> (exn + plan) \<times> db" where
  "authorize_transfer hm now now' ts instance_id ref_id q d =
     (case q_tsig q of
        None \<Rightarrow> (Inl (TransferDenied None), d)
      | Some t \<Rightarrow>
        let result =
          (case find_zone d (q_qname q) of
             None \<Rightarrow> Inl (TransferDenied (Some TSIG_BADKEY))
           | Some z \<Rightarrow>
             (case resolve_in_tx now now' d (z_name z) t of
                Inl err \<Rightarrow> Inl (TransferDenied (Some err))
              | Inr key \<Rightarrow>
                bindE (expected_request_mac hm (k_secret key) q) (\<lambda>expected.
                if expected \<noteq> t_mac t then Inl (TransferDenied (Some TSIG_BADSIG))
                else bindE (transfer_mode d z q) (\<lambda>(mode, min_version).
                  bindE (pin_transfer ref_id ts (z_name z) instance_id (z_current_version z) min_version
                      (k_gen key) d) (\<lambda>d'.
                    Inr (\<lparr>tp_mode = mode, tp_zone = z_name z, tp_target_version = z_current_version z,
                      tp_target_serial = z_current_serial z, tp_min_version = min_version,
                      tp_ref_id = ref_id, tp_key_name = t_name t, tp_secret = k_secret key,
                      tp_qid = q_id q\<rparr>, d')))))) in
        case result of
          Inl e \<Rightarrow> (Inl e, d)
        | Inr (p, d') \<Rightarrow> (Inr p, d'))"

subsection \<open>Record streams\<close>

definition axfr_rr_stream :: "db \<Rightarrow> plan \<Rightarrow> (exn + bytes) list" where
  "axfr_rr_stream snap p =
     (case find_soa snap (tp_zone p) (tp_target_version p) of
        None \<Rightarrow> [Inl TypeError]
      | Some soa \<Rightarrow>
        rr_wire soa #
        map rr_wire (filter (\<lambda>r. \<not> is_apex_soa (tp_zone p) r)
          (iter_snapshot snap (tp_zone p) (tp_target_version p))) @
        [rr_wire soa])"

definition ixfr_rr_stream :: "db \<Rightarrow> plan \<Rightarrow> int option \<Rightarrow> (exn + bytes) list" where
  "ixfr_rr_stream snap p client_serial =
     (case find_soa snap (tp_zone p) (tp_target_version p) of
        None \<Rightarrow> [Inl TypeError]
      | Some soa \<Rightarrow>
        rr_wire soa #
        (case client_serial of
           None \<Rightarrow> []
         | Some cs \<Rightarrow>
           if compare cs (tp_target_serial p) \<noteq> GREATER then []
           else case version_by_serial snap (tp_zone p) cs of
             None \<Rightarrow> [Inl TypeError]
           | Some start \<Rightarrow>
             concat (map (\<lambda>vid. map change_wire (iter_changes snap (tp_zone p) vid))
               [v_version_id start + 1..tp_target_version p])))"

subsection \<open>The signed stream\<close>

text \<open>
  \<open>send_indexed\<close>: the frame of message number \<open>i\<close> and the MAC of the first response.
  Only the first and the last message are signed.
\<close>

definition send_indexed ::
  "mac_fun \<Rightarrow> plan \<Rightarrow> query \<Rightarrow> nat \<Rightarrow> nat \<Rightarrow> bytes \<Rightarrow> bool \<Rightarrow> bytes option \<Rightarrow> exn + bytes \<times> bytes option" where
  "send_indexed hm p q when i plain is_last first_mac =
     bindE
       (if i = 0 \<or> is_last then
          bindE (if i = 0 then (case q_tsig q of None \<Rightarrow> Inl TypeError | Some t \<Rightarrow> Inr (t_mac t))
                 else (case first_mac of None \<Rightarrow> Inl TypeError | Some m \<Rightarrow> Inr m)) (\<lambda>prior.
          bindE (sign_response hm (tp_secret p) plain (tp_key_name p) prior when 300 (q_id q) 0 0 [])
            (\<lambda>(signed, mac). Inr (signed, if i = 0 then Some mac else first_mac)))
        else Inr (plain, first_mac)) (\<lambda>(out, first_mac').
     bindE (frame out) (\<lambda>f. Inr (f, first_mac')))"

text \<open>The loop with one message of lookahead: the frames sent, and how it ended.\<close>

fun stream_loop ::
  "mac_fun \<Rightarrow> plan \<Rightarrow> query \<Rightarrow> nat \<Rightarrow> nat \<Rightarrow> bytes option \<Rightarrow> bytes option \<Rightarrow> (exn + bytes) list
    \<Rightarrow> bytes list \<times> (exn + unit)" where
  "stream_loop hm p q when i first_mac pending [] =
     (case pending of
        None \<Rightarrow> ([], Inl TypeError)
      | Some m \<Rightarrow>
        (case send_indexed hm p q when i m True first_mac of
           Inl e \<Rightarrow> ([], Inl e)
         | Inr (f, _) \<Rightarrow> ([f], Inr ())))"
| "stream_loop hm p q when i first_mac pending (Inl e # msgs) = ([], Inl e)"
| "stream_loop hm p q when i first_mac pending (Inr m # msgs) =
     (case pending of
        None \<Rightarrow> stream_loop hm p q when i first_mac (Some m) msgs
      | Some pm \<Rightarrow>
        (case send_indexed hm p q when i pm False first_mac of
           Inl e \<Rightarrow> ([], Inl e)
         | Inr (f, first_mac') \<Rightarrow>
           (case stream_loop hm p q when (i + 1) first_mac' (Some m) msgs of
              (fs, r) \<Rightarrow> (f # fs, r))))"

definition stream_signed_transfer ::
  "mac_fun \<Rightarrow> plan \<Rightarrow> query \<Rightarrow> nat \<Rightarrow> (exn + bytes) list \<Rightarrow> bytes list \<times> (exn + unit)" where
  "stream_signed_transfer hm p q when msgs = stream_loop hm p q when 0 None None msgs"

text \<open>The messages of an authorised transfer, read from the database \<open>snap\<close>.\<close>

definition transfer_messages :: "int \<Rightarrow> plan \<Rightarrow> query \<Rightarrow> db \<Rightarrow> exn + (exn + bytes) list" where
  "transfer_messages budget p q snap =
     (let (qtype, rrs) = (if tp_mode p = Some MODE_AXFR then (TYPE_AXFR, axfr_rr_stream snap p)
            else (TYPE_IXFR, ixfr_rr_stream snap p (q_client_soa_serial q))) in
      bindE (question_for (tp_zone p) qtype) (\<lambda>question.
        Inr (rr_batches (q_id q) question rrs (transfer_budget budget) 400)))"

definition send_transfer ::
  "mac_fun \<Rightarrow> int \<Rightarrow> nat \<Rightarrow> plan \<Rightarrow> query \<Rightarrow> db \<Rightarrow> bytes list \<times> (exn + unit)" where
  "send_transfer hm budget when p q snap =
     (case transfer_messages budget p q snap of
        Inl e \<Rightarrow> ([], Inl e)
      | Inr msgs \<Rightarrow> stream_signed_transfer hm p q when msgs)"

text \<open>
  \<open>_handle_transfer\<close>: authorise, stream from a snapshot taken after the pin, one heartbeat
  per frame at the times \<open>beat\<close>, and release the pin however the stream ended.
\<close>

definition handle_transfer ::
  "mac_fun \<Rightarrow> int \<Rightarrow> int \<Rightarrow> int \<Rightarrow> int \<Rightarrow> nat \<Rightarrow> (nat \<Rightarrow> int) \<Rightarrow> int \<Rightarrow> string \<Rightarrow> string \<Rightarrow> query \<Rightarrow> db
    \<Rightarrow> (bytes list \<times> (exn + unit)) \<times> db" where
  "handle_transfer hm budget now now' ts when beat done instance_id ref_id q d =
     (case authorize_transfer hm now now' ts instance_id ref_id q d of
        (Inl e, d') \<Rightarrow> (([], Inl e), d')
      | (Inr p, d') \<Rightarrow>
        let out = send_transfer hm budget when p q d';
            d'' = fold (\<lambda>i. heartbeat_transfer (beat i) ref_id) [0..<length (fst out)] d' in
        (out, release_transfer done ref_id d''))"

end
