(* ===== verification/Endpoints.thy ===== *)
theory Endpoints
  imports Zone_Transfer
begin

text \<open>
  Query answering and the UDP and TCP endpoints of \<open>app/dns_server.py\<close>.  A connection is
  the bytes the peer sends before it closes or idles out, and the frames sent back; socket
  errors, which only cut the exchange short, are not modelled.
\<close>

unbundle bit_operations_syntax

subsection \<open>answer_question\<close>

text \<open>\<open>(-1, None)\<close> is its own constructor; no caller passes it on.\<close>

datatype answer = Reply nat "bytes option" | Transfer_Signal

definition rows_named :: "db \<Rightarrow> string \<Rightarrow> int \<Rightarrow> string \<Rightarrow> record_row list" where
  "rows_named d zone vid name = filter (\<lambda>r. r_name r = name) (records_of d zone vid)"

definition answer_question :: "query \<Rightarrow> db \<Rightarrow> exn + answer" where
  "answer_question q d =
     (if q_qclass q \<noteq> CLASS_IN \<and> q_qclass q \<noteq> CLASS_ANY then Inr (Reply RCODE_REFUSED None)
      else case find_zone_by_name (q_qname q) d of
        None \<Rightarrow> Inr (Reply RCODE_REFUSED None)
      | Some z \<Rightarrow>
        let zone = z_name z; version = z_current_version z;
            named = rows_named d zone version (q_qname q) in
        if q_qname q \<noteq> zone \<and> \<not> ends_with (q_qname q) (''.'' @ zone) then Inr (Reply RCODE_REFUSED None)
        else if q_qtype q = TYPE_AXFR \<or> q_qtype q = TYPE_IXFR then Inr Transfer_Signal
        else if q_qtype q \<noteq> TYPE_ANY \<and> TYPES_BY_VALUE (q_qtype q) = None then Inr (Reply RCODE_NOTIMP None)
        else
          let rows = (if q_qtype q = TYPE_ANY then sort_key (\<lambda>r. (r_rtype r, r_rdata r)) named
                else sort_key r_rdata (filter (\<lambda>r. Some (r_rtype r) = TYPES_BY_VALUE (q_qtype q)) named)) in
          if rows = [] then Inr (Reply (if named \<noteq> [] then RCODE_NOERROR else RCODE_NXDOMAIN) (Some []))
          else bindE (mapE rr_wire rows) (\<lambda>ws. Inr (Reply RCODE_NOERROR (Some (concat ws)))))"

text \<open>The response of both transports: no answers, or all of them as one blob.\<close>

definition simple_reply :: "query \<Rightarrow> answer \<Rightarrow> exn + bytes" where
  "simple_reply q a =
     (case a of
        Transfer_Signal \<Rightarrow> Inl StructError
      | Reply rcode ans \<Rightarrow>
        (case ans of
           None \<Rightarrow> make_simple_response (q_id q) (q_raw_question q) rcode [] True False
         | Some blob \<Rightarrow>
           if blob = [] then make_simple_response (q_id q) (q_raw_question q) rcode [] True False
           else make_simple_response (q_id q) (q_raw_question q) rcode [blob] True False))"

definition answer_rcode :: "answer \<Rightarrow> nat" where
  "answer_rcode a = (case a of Reply rcode _ \<Rightarrow> rcode | Transfer_Signal \<Rightarrow> 0)"

definition bare_response :: "nat \<Rightarrow> exn + bytes" where
  "bare_response rcode = build_header 0 (FLAG_QR OR rcode) 0 0 0 0"

subsection \<open>UDP\<close>

fun has_answers :: "answer \<Rightarrow> bool" where
  "has_answers (Reply rcode (Some blob)) = (blob \<noteq> [])"
| "has_answers _ = False"

definition udp_response :: "query \<Rightarrow> db \<Rightarrow> exn + bytes" where
  "udp_response q d =
     (if q_qtype q = TYPE_AXFR \<or> q_qtype q = TYPE_IXFR then
        make_simple_response (q_id q) (q_raw_question q) RCODE_NOERROR [] True True
      else bindE (answer_question q d) (\<lambda>a.
        bindE (simple_reply q a) (\<lambda>resp.
          if MAX_UDP_PAYLOAD < length resp \<and> has_answers a
          then make_simple_response (q_id q) (q_raw_question q) (answer_rcode a) [] True True
          else Inr resp)))"

text \<open>The datagram sent back, or the exception that ends the handler thread without one.\<close>

definition udp_handle :: "bytes \<Rightarrow> db \<Rightarrow> exn + bytes" where
  "udp_handle data d =
     (case parse_query data of
        Inl (WireError _) \<Rightarrow> bindE (bare_response RCODE_FORMERR) (\<lambda>r. Inr (take 512 r))
      | Inl e \<Rightarrow> Inl e
      | Inr q \<Rightarrow>
        (case udp_response q d of
           Inr resp \<Rightarrow> Inr resp
         | Inl _ \<Rightarrow> make_simple_response (q_id q) (q_raw_question q) RCODE_SERVFAIL [] True False))"

subsection \<open>TCP\<close>

text \<open>\<open>_recv_exact\<close> and \<open>_read_message\<close> on the bytes the peer sends.\<close>

definition recv_exact :: "nat \<Rightarrow> bytes \<Rightarrow> bytes option" where
  "recv_exact n input = (if length input < n then None else Some (take n input))"

definition read_message :: "bytes \<Rightarrow> exn + bytes option" where
  "read_message input =
     (case recv_exact 2 input of
        None \<Rightarrow> Inr None
      | Some head \<Rightarrow>
        bindE (unpack16 head) (\<lambda>n.
          if n < 12 \<or> MAX_TCP_MESSAGE < n then Inr None else Inr (recv_exact n (drop 2 input))))"

definition handle_simple :: "query \<Rightarrow> db \<Rightarrow> exn + bytes" where
  "handle_simple q d =
     bindE (answer_question q d) (\<lambda>a.
     bindE (simple_reply q a) (\<lambda>resp.
     bindE (if MAX_TCP_MESSAGE < length resp
            then make_simple_response (q_id q) (q_raw_question q) RCODE_SERVFAIL [] True False
            else Inr resp) frame))"

definition deny :: "nat \<Rightarrow> nat \<Rightarrow> query \<Rightarrow> nat option \<Rightarrow> exn + bytes" where
  "deny now now' q tsig_error =
     bindE (if tsig_error = None \<or> q_tsig q = None
            then make_simple_response (q_id q) (q_raw_question q) RCODE_REFUSED [] True False
            else make_error_response now now' q RCODE_REFUSED tsig_error) frame"

text \<open>What a connection is served with.\<close>

record tcp_env =
  e_budget :: int
  e_now :: int
  e_now' :: int
  e_ts :: int
  e_when :: nat
  e_beat :: "nat \<Rightarrow> int"
  e_done :: int
  e_instance :: string
  e_ref_id :: string

text \<open>Dispatch of a parsed query: the frames sent and the exception that got out, if any.\<close>

definition tcp_dispatch :: "mac_fun \<Rightarrow> tcp_env \<Rightarrow> query \<Rightarrow> db \<Rightarrow> (bytes list \<times> (exn + unit)) \<times> db" where
  "tcp_dispatch hm env q d =
     (if q_qtype q = TYPE_AXFR \<or> q_qtype q = TYPE_IXFR then
        (case handle_transfer hm (e_budget env) (e_now env) (e_now' env) (e_ts env) (e_when env) (e_beat env)
            (e_done env) (e_instance env) (e_ref_id env) q d of
           ((fs, Inl (TransferDenied err)), d') \<Rightarrow>
             (case deny (e_when env) (e_when env) q err of
                Inl e \<Rightarrow> ((fs, Inl e), d')
              | Inr f \<Rightarrow> ((fs @ [f], Inr ()), d'))
         | (out, d') \<Rightarrow> (out, d'))
      else (case handle_simple q d of
          Inl e \<Rightarrow> (([], Inl e), d)
        | Inr f \<Rightarrow> (([f], Inr ()), d)))"

text \<open>An exception other than a socket error is answered with a bare SERVFAIL.\<close>

definition servfail_frame :: "exn + bytes" where
  "servfail_frame = bindE (bare_response RCODE_SERVFAIL) frame"

definition with_servfail :: "bytes list \<times> (exn + unit) \<Rightarrow> bytes list" where
  "with_servfail out =
     (case out of
        (fs, Inr ()) \<Rightarrow> fs
      | (fs, Inl _) \<Rightarrow> (case servfail_frame of Inl _ \<Rightarrow> fs | Inr f \<Rightarrow> fs @ [f]))"

definition tcp_handle :: "mac_fun \<Rightarrow> tcp_env \<Rightarrow> bytes \<Rightarrow> db \<Rightarrow> bytes list \<times> db" where
  "tcp_handle hm env input d =
     (case read_message input of
        Inl e \<Rightarrow> (with_servfail ([], Inl e), d)
      | Inr None \<Rightarrow> ([], d)
      | Inr (Some msg) \<Rightarrow>
        (case parse_query msg of
           Inl (WireError _) \<Rightarrow>
             (case bindE (bare_response RCODE_FORMERR) frame of
                Inl e \<Rightarrow> (with_servfail ([], Inl e), d)
              | Inr f \<Rightarrow> ([f], d))
         | Inl e \<Rightarrow> (with_servfail ([], Inl e), d)
         | Inr q \<Rightarrow> (case tcp_dispatch hm env q d of (out, d') \<Rightarrow> (with_servfail out, d'))))"

end
