(* ===== verification/System.thy ===== *)
theory System
  imports Db_Inv Api Endpoints
begin

text \<open>
  The service as a transition system on its database.  A step is one committed transaction
  of a process: an HTTP request, the authorisation of a transfer, a heartbeat or the release
  of its pin, the claim of a cleanup task, a cleanup.  Processes interleave between steps.
\<close>

subsection \<open>Requests keep the invariant\<close>

lemma find_request_None:
  "find_request d zone rid = None \<Longrightarrow> (zone, rid) \<notin> request_key ` set (publish_requests d)"
  by (auto simp: find_request_def find_None_iff request_key_def)

lemma wf_db_publish:
  assumes wf: "wf_db d" and nxt: "0 \<le> nxt" "nxt \<le> 0xFFFFFFFF"
    and run: "publish ts zname rid base nxt ops fp d = (res, d')"
  shows "wf_db d'"
  using run
proof (cases rule: publish_cases)
  case (failed z e)
  have "distinct (map request_key (publish_requests d'))"
    using wf find_request_None [OF failed(2)]
    by (simp add: failed wf_db_def unique_keys_def request_key_def request_entry_def)
  then show ?thesis by (intro wf_db_same_data [OF wf]) (simp_all add: failed)
next
  case (committed z rs changed)
  with wf nxt show ?thesis using find_zone_name by (blast intro: wf_db_commit)
qed (use wf in simp_all)

lemma wf_db_set_retention:
  assumes wf: "wf_db d" and run: "set_retention now now' zone n d = (res, d')"
  shows "wf_db d'"
proof (cases "get_zone_row zone d")
  case (Inl e)
  with run wf show ?thesis by (simp add: set_retention_def)
next
  case (Inr z)
  with run have d': "d' = enqueue_cleanup now' zone (d\<lparr>zones := update_zone zone
      (\<lambda>z. z\<lparr>z_retain_versions := n, z_updated_at := now\<rparr>) (zones d)\<rparr>)"
    by (simp add: set_retention_def)
  have "map zone_core (zones d') = map zone_core (zones d)"
    by (simp add: d' enqueue_cleanup_def update_zone_def zone_core_def)
  then show ?thesis by (intro wf_db_same_data' [OF wf]) (simp_all add: d' enqueue_cleanup_def)
qed

lemma valid_u32_Inr: "valid_u32 v = Inr (Some n) \<Longrightarrow> 0 \<le> n \<and> n \<le> 0xFFFFFFFF"
  by (auto simp: valid_u32_def split: sum.splits exn.splits if_splits)

lemma check_create_Inr:
  assumes "check_create body = Inr c"
  shows "canonical_form (cq_name c)" and "0 \<le> cq_serial c \<and> cq_serial c \<le> 0xFFFFFFFF"
    and "cq_ns c \<noteq> []" and "1 \<le> cq_retain c \<and> cq_retain c \<le> 100000"
proof -
  from assms obtain name so where n: "canonical_zone (JStr (py_str (obj_get body ''name'' (JStr [])))) = Inr name"
    and so: "valid_u32 (obj_get body ''serial'' JNull) = Inr so"
    by (auto simp: check_create_def bindE_Inr_iff)
  from assms n so obtain serial where s: "so = Some serial"
    by (cases so) (auto simp: check_create_def)
  from assms n so s obtain soa where soa: "obj_get body ''soa'' JNull = JObj soa"
    by (cases "obj_get body ''soa'' JNull") (auto simp: check_create_def)
  from assms n so s soa obtain ns where ns: "obj_get body ''ns'' JNull = JList ns"
    by (cases "obj_get body ''ns'' JNull") (auto simp: check_create_def split: if_splits)
  from assms n so s soa ns obtain retain where ne: "ns \<noteq> []" and r: "1 \<le> retain" "retain \<le> 100000"
    and c: "c = \<lparr>cq_name = name, cq_serial = serial, cq_soa = soa_defaults soa,
      cq_ns = map (\<lambda>n. JStr (py_str n)) ns, cq_retain = retain\<rparr>"
    by (auto simp: check_create_def bindE_Inr_iff split: if_splits)
  show "canonical_form (cq_name c)" using canonical_zone_sound [OF n] by (simp add: c)
  show "0 \<le> cq_serial c \<and> cq_serial c \<le> 0xFFFFFFFF" using valid_u32_Inr so s by (simp add: c)
  show "cq_ns c \<noteq> []" and "1 \<le> cq_retain c \<and> cq_retain c \<le> 100000" using ne r by (simp_all add: c)
qed

lemma check_publish_Inr:
  assumes "check_publish sha zname body = Inr b"
  shows "canonical_form (bq_zone b)" and "0 \<le> bq_base b \<and> bq_base b \<le> 0xFFFFFFFF"
    and "0 \<le> bq_next b \<and> bq_next b \<le> 0xFFFFFFFF" and "bq_ops b \<noteq> []" and "length (bq_ops b) \<le> 1000"
    and "canonical_fingerprint sha (bq_base b) (bq_next b) (bq_ops b) (bq_zone b) = Inr (bq_fingerprint b)"
proof -
  from assms obtain zone rid bo no where z: "canonical_zone_arg zname = Inr zone"
    and bo: "valid_u32 (obj_get body ''baseSerial'' JNull) = Inr bo"
    and no: "valid_u32 (obj_get body ''nextSerial'' JNull) = Inr no"
    and rest: "(case (bo, no) of
       (Some base, Some next) \<Rightarrow>
         (case obj_get body ''changes'' (obj_get body ''ops'' JNull) of
            JNull \<Rightarrow> Inl (validation_error ''changes required'' 400)
          | JList ops \<Rightarrow>
            if ops = [] then Inl changes_not_list
            else if MAX_CHANGES_PER_PUBLISH < length ops then
              Inl (api_error LIMIT_EXCEEDED
                (''at most '' @ dec_nat MAX_CHANGES_PER_PUBLISH @ '' changes per publish'') 413
                [(''limit'', JInt (int MAX_CHANGES_PER_PUBLISH)), (''count'', JInt (int (length ops)))])
            else bindE (canonical_fingerprint sha base next ops zone) (\<lambda>fp.
              Inr \<lparr>bq_zone = zone, bq_request_id = rid, bq_base = base, bq_next = next, bq_ops = ops,
                bq_fingerprint = fp\<rparr>)
          | _ \<Rightarrow> Inl changes_not_list)
     | _ \<Rightarrow> Inl (api_error SERIAL_INVALID ''baseSerial/nextSerial must be 0..4294967295'' 422 [])) = Inr b"
    by (auto simp: check_publish_def bindE_Inr_iff)
  from rest obtain base nxt where bn: "bo = Some base" "no = Some nxt"
    by (cases bo; cases no) auto
  from rest bn obtain ops where ops: "obj_get body ''changes'' (obj_get body ''ops'' JNull) = JList ops"
    by (cases "obj_get body ''changes'' (obj_get body ''ops'' JNull)") auto
  from rest bn ops obtain fp where "ops \<noteq> []" "length ops \<le> 1000"
    "canonical_fingerprint sha base nxt ops zone = Inr fp"
    "b = \<lparr>bq_zone = zone, bq_request_id = rid, bq_base = base, bq_next = nxt, bq_ops = ops, bq_fingerprint = fp\<rparr>"
    by (auto simp: bindE_Inr_iff MAX_CHANGES_PER_PUBLISH_def split: if_splits)
  then show "canonical_form (bq_zone b)" and "0 \<le> bq_base b \<and> bq_base b \<le> 0xFFFFFFFF"
    and "0 \<le> bq_next b \<and> bq_next b \<le> 0xFFFFFFFF" and "bq_ops b \<noteq> []" and "length (bq_ops b) \<le> 1000"
    and "canonical_fingerprint sha (bq_base b) (bq_next b) (bq_ops b) (bq_zone b) = Inr (bq_fingerprint b)"
    using canonical_zone_arg_sound [OF z] valid_u32_Inr bo no bn by simp_all
qed

subsection \<open>What an HTTP request does\<close>

lemma do_POST_effect:
  assumes "do_POST env path cl raw d = (resp, d')"
  obtains (same) "d' = d"
  | (create) body c res where "read_json (a_loads env) cl raw = Inr body" "check_create body = Inr c"
      "create_zone (a_ts env) (cq_name c) (cq_serial c) (cq_soa c) (cq_ns c) (cq_retain c) d = (res, d')"
  | (publish) body zname b res where "read_json (a_loads env) cl raw = Inr body"
      "check_publish (a_sha256 env) zname body = Inr b"
      "publish (a_ts env) (bq_zone b) (bq_request_id b) (bq_base b) (bq_next b) (JList (bq_ops b))
         (bq_fingerprint b) d = (res, d')"
  | (install) zone key_id key_name expires res where
      "install_key (a_ts env) (a_secret env) zone key_id key_name expires d = (res, d')"
  | (revoke) zone key_id res where "revoke_key (a_ts env) zone key_id d = (res, d')"
proof (cases "read_json (a_loads env) cl raw")
  case (Inl e)
  with assms show ?thesis by (intro same) (simp add: do_POST_def)
next
  case (Inr body)
  from assms Inr obtain r where r: "route_post env path body d = (r, d')"
    by (auto simp: do_POST_def split: prod.splits)
  consider "d' = d" | "api_create_zone env body d = (r, d')" | zn where "api_publish env zn body d = (r, d')"
    | zn where "api_install_key env zn body d = (r, d')" | zn k where "api_revoke_key env zn k d = (r, d')"
    using r by (auto simp: route_post_def split: list.splits if_splits)
  then show ?thesis
  proof cases
    case 2
    then show ?thesis
      by (cases "check_create body") (auto simp: api_create_zone_def split: prod.splits sum.splits intro: same create [OF Inr])
  next
    case 3
    then show ?thesis
      by (cases "check_publish (a_sha256 env) zn body")
        (auto simp: api_publish_def split: prod.splits sum.splits intro: same publish [OF Inr])
  next
    case 4
    then show ?thesis
      by (cases "check_install (a_now env) zn body")
        (auto simp: api_install_key_def split: prod.splits sum.splits intro: same install)
  next
    case 5
    then show ?thesis
      by (cases "canonical_zone_arg zn")
        (auto simp: api_revoke_key_def split: prod.splits sum.splits intro: same revoke)
  qed (rule same)
qed

lemma do_PUT_effect:
  assumes "do_PUT env path cl raw d = (resp, d')"
  obtains (same) "d' = d"
  | (retention) zone n res where "1 \<le> n" "n \<le> 100000" "set_retention (a_ts env) (a_ts' env) zone n d = (res, d')"
proof (cases "read_json (a_loads env) cl raw")
  case (Inl e)
  with assms show ?thesis by (intro same) (simp add: do_PUT_def)
next
  case (Inr body)
  consider "d' = d" | zn r where "api_set_retention env zn body d = (r, d')"
    using assms Inr by (auto simp: do_PUT_def split: list.splits if_splits prod.splits)
  then show ?thesis
  proof cases
    case (2 zn r)
    show ?thesis
    proof (cases "canonical_zone_arg zn")
      case (Inl e)
      with 2 show ?thesis by (intro same) (simp add: api_set_retention_def)
    next
      case (Inr zone)
      show ?thesis
      proof (cases "\<exists>n. obj_get body ''retainVersions'' JNull = JInt n \<and> \<not> (n < 1 \<or> 100000 < n)")
        case True
        then obtain n where n: "obj_get body ''retainVersions'' JNull = JInt n" "\<not> (n < 1 \<or> 100000 < n)" by auto
        from 2 Inr n obtain res where "set_retention (a_ts env) (a_ts' env) zone n d = (res, d')"
          by (auto simp: api_set_retention_def split: prod.splits sum.splits)
        with n show ?thesis by (intro retention [of n zone res]) auto
      next
        case False
        with 2 Inr show ?thesis
          by (intro same) (auto simp: api_set_retention_def split: json.splits if_splits)
      qed
    qed
  qed (rule same)
qed

subsection \<open>Steps\<close>

datatype event = Request | Begin_Transfer string | Beat string | Release string | Claim | Clean int | Fail

text \<open>
  A create request is excluded when its SOA object carries a \<open>_ttl\<close> outside the TTL range:
  the service stores it, and the zone cannot be served (\<open>bad_ttl_zone_unservable\<close>).
\<close>

definition ttl_guard :: "api_env \<Rightarrow> string option \<Rightarrow> bytes \<Rightarrow> bool" where
  "ttl_guard env cl raw \<longleftrightarrow>
     (case read_json (a_loads env) cl raw of
        Inl _ \<Rightarrow> True
      | Inr body \<Rightarrow> (case check_create body of Inl _ \<Rightarrow> True | Inr c \<Rightarrow> soa_ttl_ok (cq_soa c)))"

inductive step :: "db \<Rightarrow> event \<Rightarrow> db \<Rightarrow> bool" where
  step_post: "do_POST env path cl raw d = (resp, d') \<Longrightarrow> ttl_guard env cl raw \<Longrightarrow> step d Request d'"
| step_put: "do_PUT env path cl raw d = (resp, d') \<Longrightarrow> step d Request d'"
| step_begin: "authorize_transfer hm now now' ts inst ref_id q d = (res, d') \<Longrightarrow> step d (Begin_Transfer ref_id) d'"
| step_beat: "step d (Beat ref_id) (heartbeat_transfer now ref_id d)"
| step_release: "step d (Release ref_id) (release_transfer now ref_id d)"
| step_claim: "claim_cleanup_task token now d = (t, d') \<Longrightarrow> step d Claim d'"
| step_clean: "run_cleanup now now' task d = (res, d') \<Longrightarrow> step d (Clean now) d'"
| step_fail: "step d Fail (cleanup_failed msg task d)"

inductive reachable :: "db \<Rightarrow> bool" where
  reach_start: "reachable empty_db"
| reach_step: "reachable d \<Longrightarrow> step d e d' \<Longrightarrow> reachable d'"

inductive_cases step_RequestE: "step d Request d'"
inductive_cases step_BeginE: "step d (Begin_Transfer r) d'"
inductive_cases step_BeatE: "step d (Beat r) d'"
inductive_cases step_ReleaseE: "step d (Release r) d'"
inductive_cases step_ClaimE: "step d Claim d'"
inductive_cases step_CleanE: "step d (Clean now) d'"
inductive_cases step_FailE: "step d Fail d'"
inductive_simps reachable_iff: "reachable d"

lemma authorize_transfer_effect:
  assumes "authorize_transfer hm now now' ts inst ref_id q d = (res, d')"
  obtains (denied) e where "res = Inl e" "d' = d"
  | (granted) p z t key where "res = Inr p" "q_tsig q = Some t" "find_zone d (q_qname q) = Some z"
      "resolve_in_tx now now' d (z_name z) t = Inr key"
      "expected_request_mac hm (k_secret key) q = Inr (t_mac t)"
      "transfer_mode d z q = Inr (tp_mode p, tp_min_version p)"
      "pin_transfer ref_id ts (z_name z) inst (z_current_version z) (tp_min_version p) (k_gen key) d = Inr d'"
      "p = \<lparr>tp_mode = tp_mode p, tp_zone = z_name z, tp_target_version = z_current_version z,
         tp_target_serial = z_current_serial z, tp_min_version = tp_min_version p, tp_ref_id = ref_id,
         tp_key_name = t_name t, tp_secret = k_secret key, tp_qid = q_id q\<rparr>"
proof (cases res)
  case (Inl e)
  with assms show ?thesis
    by (intro denied) (auto simp: authorize_transfer_def Let_def split: option.splits sum.splits prod.splits)
next
  case (Inr p)
  from assms Inr obtain t where t: "q_tsig q = Some t"
    by (cases "q_tsig q") (auto simp: authorize_transfer_def)
  from assms Inr t obtain z where z: "find_zone d (q_qname q) = Some z"
    by (cases "find_zone d (q_qname q)") (auto simp: authorize_transfer_def)
  from assms Inr t z obtain key where k: "resolve_in_tx now now' d (z_name z) t = Inr key"
    by (cases "resolve_in_tx now now' d (z_name z) t") (auto simp: authorize_transfer_def)
  from assms Inr t z k have
    "(case bindE (expected_request_mac hm (k_secret key) q) (\<lambda>expected.
                if expected \<noteq> t_mac t then Inl (TransferDenied (Some TSIG_BADSIG))
                else bindE (transfer_mode d z q) (\<lambda>(mode, min_version).
                  bindE (pin_transfer ref_id ts (z_name z) inst (z_current_version z) min_version
                      (k_gen key) d) (\<lambda>d'.
                    Inr (\<lparr>tp_mode = mode, tp_zone = z_name z, tp_target_version = z_current_version z,
                      tp_target_serial = z_current_serial z, tp_min_version = min_version,
                      tp_ref_id = ref_id, tp_key_name = t_name t, tp_secret = k_secret key,
                      tp_qid = q_id q\<rparr>, d')))) of
          Inl e \<Rightarrow> (Inl e, d)
        | Inr (p, d') \<Rightarrow> (Inr p, d')) = (Inr p, d')"
    by (simp add: authorize_transfer_def)
  then show ?thesis
    by (intro granted [OF Inr t z k]) (auto simp: bindE_Inr_iff split: sum.splits if_splits)
qed

lemma wf_db_step:
  assumes "step d e d'" and wf: "wf_db d"
  shows "wf_db d'"
  using assms(1)
proof cases
  case (step_post env path cl raw resp)
  from step_post(2) show ?thesis
  proof (cases rule: do_POST_effect)
    case same
    with wf show ?thesis by simp
  next
    case (create body c res)
    then have "soa_ttl_ok (cq_soa c)" using step_post(3) by (simp add: ttl_guard_def)
    with create check_create_Inr [OF create(2)] wf show ?thesis
      by (cases res) (auto dest: create_zone_Inl intro: wf_db_create_zone)
  next
    case (publish body zn b res)
    with check_publish_Inr(3) [OF publish(2)] wf show ?thesis by (blast intro: wf_db_publish)
  next
    case (install zone k n x res)
    have "zones d' = zones d \<and> versions d' = versions d \<and> records d' = records d \<and> changes d' = changes d \<and>
        publish_requests d' = publish_requests d"
      using install by (cases res) (auto dest: install_key_Inl elim!: install_key_Inr)
    then show ?thesis by (intro wf_db_same_data' [OF wf]) simp_all
  next
    case (revoke zone k res)
    have "zones d' = zones d \<and> versions d' = versions d \<and> records d' = records d \<and> changes d' = changes d \<and>
        publish_requests d' = publish_requests d"
      using revoke by (cases res) (auto dest: revoke_key_Inl elim!: revoke_key_Inr)
    then show ?thesis by (intro wf_db_same_data' [OF wf]) simp_all
  qed
next
  case (step_put env path cl raw resp)
  from step_put(2) show ?thesis
    by (cases rule: do_PUT_effect) (use wf wf_db_set_retention in blast)+
next
  case (step_begin hm now now' ts inst ref_id q res)
  from step_begin(2) show ?thesis
  proof (cases rule: authorize_transfer_effect)
    case (granted p z t key)
    then show ?thesis by (intro wf_db_same_data' [OF wf]) (auto simp: pin_transfer_def bindE_Inr_iff)
  qed (use wf in simp)
next
  case (step_claim token now t)
  then show ?thesis
    by (intro wf_db_same_data' [OF wf]) (auto simp: claim_cleanup_task_def Let_def split: option.splits)
next
  case (step_clean now now' task res)
  with wf show ?thesis by (blast intro: wf_db_run_cleanup)
qed (auto intro!: wf_db_same_data' [OF wf] simp: heartbeat_transfer_def release_transfer_def cleanup_failed_def)

end
