(* ===== verification/Isolation.thy ===== *)
theory Isolation
  imports System
begin

text \<open>
  Reachable databases are well formed, and a pinned transfer is isolated: whatever else
  happens while its pin is alive, the versions it reads keep their rows.
\<close>

lemma reachable_wf: "reachable d \<Longrightarrow> wf_db d"
proof (induction rule: reachable.induct)
  case reach_start
  show ?case
    by (simp add: empty_db_def wf_db_def unique_keys_def owned_def vids_def)
next
  case (reach_step d e d')
  then show ?case by (blast intro: wf_db_step)
qed

subsection \<open>Keys\<close>

lemma keys_unchanged:
  "create_zone ts zone serial soa ns retain d = (res, d') \<Longrightarrow> keys d' = keys d"
  "publish ts' zname rid base nxt ops fp d = (res', d') \<Longrightarrow> keys d' = keys d"
  "set_retention now now' zone n d = (res'', d') \<Longrightarrow> keys d' = keys d"
proof -
  show "keys d' = keys d" if "create_zone ts zone serial soa ns retain d = (res, d')"
    using that by (cases res) (auto dest: create_zone_Inl elim!: create_zone_Inr)
  show "keys d' = keys d" if "publish ts' zname rid base nxt ops fp d = (res', d')"
    using that by (cases rule: publish_cases) (auto elim!: commit_publish_Inr)
  show "keys d' = keys d" if "set_retention now now' zone n d = (res'', d')"
    using that by (auto simp: set_retention_def enqueue_cleanup_def split: sum.splits)
qed

lemma run_cleanup_keys: "run_cleanup now now' task d = (res, d') \<Longrightarrow> keys d' = keys d"
  by (cases "find_zone d (t_zone task)")
    (auto simp: run_cleanup_def Let_def fold_delete_version finish_task_def)

lemma wf_keys_step:
  assumes "step d e d'" and wf: "wf_keys d"
  shows "wf_keys d'"
  using assms(1)
proof cases
  case (step_post env path cl raw resp)
  from step_post(2) show ?thesis
  proof (cases rule: do_POST_effect)
    case (install zone k n x res)
    with wf_keys_install_key [OF wf, of "a_ts env" "a_secret env" zone k n x] show ?thesis by simp
  next
    case (revoke zone k res)
    with wf_keys_revoke_key [OF wf, of "a_ts env" zone k] show ?thesis by simp
  qed (use wf keys_unchanged in \<open>auto simp: wf_keys_def\<close>)
next
  case (step_put env path cl raw resp)
  from step_put(2) show ?thesis
    by (cases rule: do_PUT_effect) (use wf keys_unchanged in \<open>auto simp: wf_keys_def\<close>)
next
  case (step_begin hm now now' ts inst ref_id q res)
  from step_begin(2) show ?thesis
    by (cases rule: authorize_transfer_effect) (use wf in \<open>auto simp: wf_keys_def pin_transfer_def bindE_Inr_iff\<close>)
next
  case (step_claim token now t)
  with wf show ?thesis by (auto simp: claim_cleanup_task_def Let_def wf_keys_def split: option.splits)
next
  case (step_clean now now' task res)
  with wf show ?thesis by (auto simp: wf_keys_def dest: run_cleanup_keys)
qed (use wf in \<open>auto simp: wf_keys_def heartbeat_transfer_def release_transfer_def cleanup_failed_def\<close>)

lemma reachable_wf_keys: "reachable d \<Longrightarrow> wf_keys d"
proof (induction rule: reachable.induct)
  case reach_start
  show ?case by (simp add: empty_db_def wf_keys_def wf_key_list_def)
next
  case (reach_step d e d')
  then show ?case by (blast intro: wf_keys_step)
qed

subsection \<open>Runs with a live pin\<close>

text \<open>The pin is not released, and its heartbeat is younger than the limit at every cleanup.\<close>

definition pin_alive :: "string \<Rightarrow> db \<Rightarrow> event \<Rightarrow> bool" where
  "pin_alive rid d e \<longleftrightarrow>
     (case e of
        Release r \<Rightarrow> r \<noteq> rid
      | Clean now \<Rightarrow> \<forall>r \<in> set (transfer_refs d). f_ref_id r = rid \<longrightarrow> now - 300000 < f_last_seen r
      | _ \<Rightarrow> True)"

inductive run_pinned :: "string \<Rightarrow> db \<Rightarrow> db \<Rightarrow> bool" for rid where
  run_refl: "run_pinned rid d d"
| run_step: "run_pinned rid d d' \<Longrightarrow> step d' e d'' \<Longrightarrow> pin_alive rid d' e \<Longrightarrow> run_pinned rid d d''"

definition holds_pin :: "string \<Rightarrow> string \<Rightarrow> int \<Rightarrow> int \<Rightarrow> db \<Rightarrow> bool" where
  "holds_pin rid zone lo hi d \<longleftrightarrow>
     (\<exists>r \<in> set (transfer_refs d). f_ref_id r = rid \<and> f_zone r = zone \<and> f_state r = OPEN \<and>
        f_version_id r = hi \<and> f_min_version r = lo)"

definition same_versions :: "string \<Rightarrow> int \<Rightarrow> int \<Rightarrow> db \<Rightarrow> db \<Rightarrow> bool" where
  "same_versions zone lo hi d d' \<longleftrightarrow>
     (\<forall>n \<in> {lo..hi}. records_of d' zone n = records_of d zone n \<and> changes_of d' zone n = changes_of d zone n \<and>
        (\<forall>v. v_zone v = zone \<and> v_version_id v = n \<longrightarrow> v \<in> set (versions d) \<longrightarrow> v \<in> set (versions d')))"

lemma same_versions_refl: "same_versions zone lo hi d d"
  by (simp add: same_versions_def)

lemma same_versions_trans:
  "same_versions zone lo hi d d' \<Longrightarrow> same_versions zone lo hi d' d'' \<Longrightarrow> same_versions zone lo hi d d''"
  by (simp add: same_versions_def)

lemma same_versions_data:
  "records d' = records d \<Longrightarrow> changes d' = changes d \<Longrightarrow> versions d' = versions d \<Longrightarrow> same_versions zone lo hi d d'"
  by (simp add: same_versions_def records_of_def changes_of_def)

lemma same_versions_vids:
  "same_versions zone lo hi d d' \<Longrightarrow> {lo..hi} \<subseteq> vids d zone \<Longrightarrow> {lo..hi} \<subseteq> vids d' zone"
  unfolding same_versions_def subset_eq mem_vids by (meson)

lemma publish_same_versions:
  assumes wf: "wf_db d" and run: "publish ts zname rid base nxt ops fp d = (res, d')"
    and v: "{lo..hi} \<subseteq> vids d zone"
  shows "same_versions zone lo hi d d'"
  using run
proof (cases rule: publish_cases)
  case (committed z rs changed)
  note zz = find_zone_name [OF committed(1)]
  let ?Z = "z_name z" and ?N = "z_current_version z + 1"
  have new: "?N \<notin> vids d ?Z" using next_not_in_vids [OF wf] zz by blast
  have ne: "?N \<noteq> z_current_version z" by simp
  have none: "changes_of d ?Z ?N = []" using no_orphans [OF _ new] wf by (simp add: wf_db_def)
  show ?thesis
    using committed(4)
  proof (rule commit_publish_Inr)
    fix d1
    assume m: "materialize ?Z (z_current_version z) ?N rs changed d = Inr d1"
      and vs: "versions d' = versions d @ [\<lparr>v_zone = ?Z, v_version_id = ?N, v_serial = nxt, v_request_id = rid,
          v_created_at = ts\<rparr>]"
      and r: "records d' = records d1" "changes d' = changes d1"
    show ?thesis
      unfolding same_versions_def
    proof (intro ballI conjI)
      fix n assume "n \<in> {lo..hi}"
      with v new have zn: "(zone, n) \<noteq> (?Z, ?N)" by auto
      have "records_of d1 zone n = records_of d zone n"
        using materialize_elim [OF m ne] zn by metis
      then show "records_of d' zone n = records_of d zone n" by (simp add: records_of_def r)
      show "changes_of d' zone n = changes_of d zone n"
        using materialize_changes(2) [OF m ne none zn] by (simp add: changes_of_def r)
    qed (simp add: vs)
  qed
qed (simp_all add: same_versions_data)

lemma create_same_versions:
  assumes wf: "wf_db d" and run: "create_zone ts zn serial soa ns retain d = (res, d')"
    and v: "{lo..hi} \<subseteq> vids d zone"
  shows "same_versions zone lo hi d d'"
proof (cases res)
  case (Inl e)
  with run have "d' = d" by (auto dest: create_zone_Inl)
  then show ?thesis by (simp add: same_versions_refl)
next
  case (Inr u)
  with run have "create_zone ts zn serial soa ns retain d = (Inr (), d')" by simp
  then show ?thesis
  proof (rule create_zone_Inr)
    fix rows :: "(string \<times> int \<times> rdata \<times> bytes) list"
    assume f: "find_zone d zn = None"
      and d': "d' = d\<lparr>zones := zones d @ [\<lparr>z_name = zn, z_current_serial = serial, z_current_version = 0,
            z_retain_versions = retain, z_record_count = int (length rows), z_rrset_count = 2,
            z_created_at = ts, z_updated_at = ts\<rparr>],
          versions := versions d @ [\<lparr>v_zone = zn, v_version_id = 0, v_serial = serial,
            v_request_id = ''__create__'', v_created_at = ts\<rparr>],
          records := records d @ map (create_row zn) rows\<rparr>"
    have "zn \<notin> z_name ` set (zones d)" using f by (auto simp: find_zone_def find_None_iff)
    then have none: "vids d zn = {}" using wf by (auto simp: wf_db_def owned_def vids_def)
    have rz: "r_zone r = zn" if "r \<in> set (map (create_row zn) rows)" for r
      using that by (auto simp: create_row_def split: prod.splits)
    show ?thesis
      unfolding same_versions_def
    proof (intro ballI conjI)
      fix n assume "n \<in> {lo..hi}"
      with v none have "zone \<noteq> zn" by auto
      then have "filter (\<lambda>r. r_zone r = zone \<and> r_version_id r = n) (map (create_row zn) rows) = []"
        using rz by (intro filter_False) auto
      then show "records_of d' zone n = records_of d zone n" by (simp add: records_of_def d')
      show "changes_of d' zone n = changes_of d zone n" by (simp add: changes_of_def d')
    qed (simp add: d')
  qed
qed

lemma cleanup_same_versions:
  assumes wf: "wf_db d" and run: "run_cleanup now now' task d = (res, d')"
    and v: "{lo..hi} \<subseteq> vids d zone" and pin: "holds_pin rid zone lo hi d" and live: "pin_alive rid d (Clean now)"
  shows "same_versions zone lo hi d d' \<and> holds_pin rid zone lo hi d'"
proof (cases "find_zone d (t_zone task)")
  case None
  with run have "d' = finish_task now (t_task_id task) d" by (simp add: run_cleanup_def)
  with pin show ?thesis by (simp add: same_versions_data holds_pin_def)
next
  case (Some z)
  from pin obtain r where r: "r \<in> set (transfer_refs d)" "f_ref_id r = rid" "f_zone r = zone" "f_state r = OPEN"
    "f_version_id r = hi" "f_min_version r = lo" by (auto simp: holds_pin_def)
  with live have beat: "now - 300000 < f_last_seen r" by (simp add: pin_alive_def)
  from wf Some run show ?thesis
  proof (rule run_cleanup_prefix)
    fix b
    assume pins: "\<And>r. r \<in> set (transfer_refs d) \<Longrightarrow> live_ref (t_zone task) (now - 300000) r \<Longrightarrow>
        b \<le> f_version_id r \<and> b \<le> f_min_version r"
      and vs: "versions d' = filter (\<lambda>v. \<not> (v_zone v = t_zone task \<and> v_version_id v < b)) (versions d)"
      and rs: "records d' = filter (\<lambda>r. \<not> (r_zone r = t_zone task \<and> r_version_id r < b)) (records d)"
      and cs: "changes d' = filter (\<lambda>c. \<not> (c_zone c = t_zone task \<and> c_version_id c < b)) (changes d)"
      and tr: "transfer_refs d' = filter (\<lambda>r. \<not> dead_ref (t_zone task) (now - 300000) r) (transfer_refs d)"
    have keep: "\<not> (zone = t_zone task \<and> n < b)" if "n \<in> {lo..hi}" for n
    proof
      assume c: "zone = t_zone task \<and> n < b"
      then have "live_ref (t_zone task) (now - 300000) r" using r beat by (simp add: live_ref_def)
      from pins [OF r(1) this] r that c show False by auto
    qed
    have "same_versions zone lo hi d d'"
      unfolding same_versions_def
    proof (intro ballI conjI)
      fix n assume n: "n \<in> {lo..hi}"
      show "records_of d' zone n = records_of d zone n" "changes_of d' zone n = changes_of d zone n"
        using keep [OF n] by (auto simp: records_of_def changes_of_def rs cs intro!: filter_cong)
      show "\<forall>v. v_zone v = zone \<and> v_version_id v = n \<longrightarrow> v \<in> set (versions d) \<longrightarrow> v \<in> set (versions d')"
        using keep [OF n] by (auto simp: vs)
    qed
    moreover have "r \<in> set (transfer_refs d')"
      using r beat by (auto simp: tr dead_ref_def)
    ultimately show ?thesis using r by (auto simp: holds_pin_def)
  qed
qed

lemma holds_pin_refs: "transfer_refs d' = transfer_refs d \<Longrightarrow> holds_pin rid zone lo hi d \<Longrightarrow> holds_pin rid zone lo hi d'"
  by (simp add: holds_pin_def)

lemma holds_pin_update:
  assumes "holds_pin rid zone lo hi d"
    and "transfer_refs d' = map (\<lambda>r. if f_ref_id r = i then f r else r) (transfer_refs d)"
    and "\<And>r. f_ref_id r = rid \<Longrightarrow> i = rid \<Longrightarrow> f_ref_id (f r) = f_ref_id r \<and> f_zone (f r) = f_zone r \<and>
      f_state (f r) = f_state r \<and> f_version_id (f r) = f_version_id r \<and> f_min_version (f r) = f_min_version r"
  shows "holds_pin rid zone lo hi d'"
proof -
  from assms(1) obtain r where r: "r \<in> set (transfer_refs d)" "f_ref_id r = rid" "f_zone r = zone" "f_state r = OPEN"
    "f_version_id r = hi" "f_min_version r = lo" by (auto simp: holds_pin_def)
  let ?r = "if f_ref_id r = i then f r else r"
  have "?r \<in> set (transfer_refs d')" using r(1) by (auto simp: assms(2))
  moreover have "f_ref_id ?r = rid \<and> f_zone ?r = zone \<and> f_state ?r = OPEN \<and> f_version_id ?r = hi \<and> f_min_version ?r = lo"
    using r assms(3) [of r] by auto
  ultimately show ?thesis unfolding holds_pin_def by blast
qed

lemma create_zone_refs: "create_zone ts zn serial soa ns retain d = (res, d') \<Longrightarrow> transfer_refs d' = transfer_refs d"
  by (cases res) (auto dest: create_zone_Inl elim!: create_zone_Inr)

lemma publish_refs: "publish ts zn rid base nxt ops fp d = (res, d') \<Longrightarrow> transfer_refs d' = transfer_refs d"
  by (erule publish_cases) (auto elim!: commit_publish_Inr)

lemma pinned_step:
  assumes "step d e d'" and wf: "wf_db d" and alive: "pin_alive rid d e"
    and pin: "holds_pin rid zone lo hi d" and v: "{lo..hi} \<subseteq> vids d zone"
  shows "same_versions zone lo hi d d' \<and> holds_pin rid zone lo hi d'"
  using assms(1)
proof cases
  case (step_post env path cl raw resp)
  from step_post(2) show ?thesis
  proof (cases rule: do_POST_effect)
    case same
    with pin show ?thesis by (simp add: same_versions_refl)
  next
    case (create body c res)
    from create_same_versions [OF wf create(3) v] create_zone_refs [OF create(3)] pin
    show ?thesis by (simp add: holds_pin_def)
  next
    case (publish body zn b res)
    from publish_same_versions [OF wf publish(3) v] publish_refs [OF publish(3)] pin
    show ?thesis by (simp add: holds_pin_def)
  next
    case (install z k n x res)
    then show ?thesis
      using pin by (cases res) (auto intro!: same_versions_data simp: holds_pin_def same_versions_refl
          dest: install_key_Inl elim!: install_key_Inr)
  next
    case (revoke z k res)
    then show ?thesis
      using pin by (cases res) (auto intro!: same_versions_data simp: holds_pin_def same_versions_refl
          dest: revoke_key_Inl elim!: revoke_key_Inr)
  qed
next
  case (step_put env path cl raw resp)
  from step_put(2) show ?thesis
    by (cases rule: do_PUT_effect)
      (use pin in \<open>auto simp: same_versions_refl set_retention_def enqueue_cleanup_def holds_pin_def
        intro!: same_versions_data split: sum.splits\<close>)
next
  case (step_begin hm now now' ts inst ref_id q res)
  from step_begin(2) show ?thesis
    by (cases rule: authorize_transfer_effect)
      (use pin in \<open>auto simp: same_versions_refl pin_transfer_def bindE_Inr_iff insert_unique_def holds_pin_def
        intro!: same_versions_data split: if_splits\<close>)
next
  case (step_beat ref_id now)
  have "holds_pin rid zone lo hi d'"
    by (rule holds_pin_update [OF pin, of d' ref_id "\<lambda>r. r\<lparr>f_last_seen := now\<rparr>"])
      (simp_all add: step_beat heartbeat_transfer_def update_ref_def)
  then show ?thesis by (simp add: step_beat heartbeat_transfer_def same_versions_data)
next
  case (step_release ref_id now)
  with alive have "ref_id \<noteq> rid" by (simp add: pin_alive_def)
  have "holds_pin rid zone lo hi d'"
    by (rule holds_pin_update [OF pin, of d' ref_id "\<lambda>r. r\<lparr>f_state := REF_DONE, f_last_seen := now\<rparr>"])
      (use \<open>ref_id \<noteq> rid\<close> in \<open>simp_all add: step_release release_transfer_def update_ref_def\<close>)
  then show ?thesis by (simp add: step_release release_transfer_def same_versions_data)
next
  case (step_claim token now t)
  with pin show ?thesis
    by (auto simp: claim_cleanup_task_def Let_def same_versions_refl holds_pin_def intro!: same_versions_data
        split: option.splits)
next
  case (step_clean now now' task res)
  with alive show ?thesis using cleanup_same_versions [OF wf step_clean(2) v pin] by simp
next
  case (step_fail msg task)
  with pin show ?thesis by (auto simp: cleanup_failed_def holds_pin_def intro: same_versions_data)
qed

lemma pinned_run:
  "run_pinned rid d d' \<Longrightarrow> wf_db d \<Longrightarrow> holds_pin rid zone lo hi d \<Longrightarrow> {lo..hi} \<subseteq> vids d zone \<Longrightarrow>
    wf_db d' \<and> same_versions zone lo hi d d' \<and> holds_pin rid zone lo hi d'"
proof (induction rule: run_pinned.induct)
  case (run_refl d)
  then show ?case by (simp add: same_versions_refl)
next
  case (run_step d d' e d'')
  then have ih: "wf_db d'" "same_versions zone lo hi d d'" "holds_pin rid zone lo hi d'" by simp_all
  have v: "{lo..hi} \<subseteq> vids d' zone" using same_versions_vids ih(2) run_step.prems(3) by blast
  from pinned_step [OF run_step.hyps(2) ih(1) run_step.hyps(3) ih(3) v] ih wf_db_step [OF run_step.hyps(2) ih(1)]
  show ?case by (auto intro: same_versions_trans)
qed

subsection \<open>Streams under a pin\<close>

lemma axfr_stream_same:
  assumes "same_versions zone lo hi d d'" and "tp_zone p = zone" and "tp_target_version p \<in> {lo..hi}"
  shows "axfr_rr_stream d' p = axfr_rr_stream d p"
proof -
  have rec: "records_of d' zone (tp_target_version p) = records_of d zone (tp_target_version p)"
    using assms(1,3) by (simp add: same_versions_def)
  show ?thesis unfolding axfr_rr_stream_def find_soa_def iter_snapshot_def assms(2) rec ..
qed

lemma version_by_serial_unique:
  assumes wf: "wf_db d" and "v \<in> set (versions d)" "v_zone v = zone" "v_serial v = s"
  shows "version_by_serial d zone s = Some v"
proof (cases "version_by_serial d zone s")
  case None
  with assms show ?thesis by (auto simp: version_by_serial_def find_None_iff)
next
  case (Some u)
  then have u: "u \<in> set (versions d)" "v_zone u = zone" "v_serial u = s"
    by (auto simp: version_by_serial_def find_Some_iff)
  have "inj_on version_serial_key (set (versions d))"
    using wf by (simp add: wf_db_def unique_keys_def distinct_map)
  then have "u = v" by (rule inj_onD) (use u assms in \<open>simp_all add: version_serial_key_def\<close>)
  with Some show ?thesis by simp
qed

lemma version_by_serial_Some:
  "version_by_serial d zone s = Some v \<Longrightarrow> v \<in> set (versions d) \<and> v_zone v = zone \<and> v_serial v = s"
  by (auto simp: version_by_serial_def find_Some_iff)

lemma ixfr_stream_same:
  assumes wf: "wf_db d'" and sv: "same_versions zone lo hi d d'" and p: "tp_zone p = zone" "tp_target_version p = hi"
    and start: "version_by_serial d zone cs = Some v" "v_version_id v = lo" and le: "lo \<le> hi"
  shows "ixfr_rr_stream d' p (Some cs) = ixfr_rr_stream d p (Some cs)"
proof -
  note v = version_by_serial_Some [OF start(1)]
  have rec: "records_of d' zone hi = records_of d zone hi" using sv le by (simp add: same_versions_def)
  have "v \<in> set (versions d')" using sv le v start(2) by (auto simp: same_versions_def)
  then have vs: "version_by_serial d' zone cs = Some v" using version_by_serial_unique [OF wf] v by blast
  have ch: "iter_changes d' zone n = iter_changes d zone n" if "n \<in> set [lo + 1..hi]" for n
    using sv that by (auto simp: iter_changes_def same_versions_def)
  have mp: "map (\<lambda>n. map change_wire (iter_changes d' zone n)) [lo + 1..hi] =
      map (\<lambda>n. map change_wire (iter_changes d zone n)) [lo + 1..hi]"
    using ch by (intro map_cong) auto
  show ?thesis
    unfolding ixfr_rr_stream_def find_soa_def p rec option.case vs start mp ..
qed

lemma find_zone_in: "find_zone d name = Some z \<Longrightarrow> z \<in> set (zones d) \<and> z_name z = name"
  by (auto simp: find_zone_def find_Some_iff)

text \<open>The versions a transfer pins exist when it is authorised.\<close>

lemma transfer_mode_range:
  assumes wf: "wf_db d" and z: "z \<in> set (zones d)" and m: "transfer_mode d z q = Inr (mode, lo)"
  shows "lo \<le> z_current_version z" and "{lo..z_current_version z} \<subseteq> vids d (z_name z)"
    and "mode = Some MODE_IXFR \<Longrightarrow> \<exists>cs v. q_client_soa_serial q = Some cs \<and>
      version_by_serial d (z_name z) cs = Some v \<and> v_version_id v = lo"
    and "mode \<noteq> Some MODE_IXFR \<Longrightarrow> lo = z_current_version z"
proof -
  from wf z obtain l where l: "vids d (z_name z) = {l..z_current_version z}" "l \<le> z_current_version z"
    by (auto simp: wf_db_def history_ok_def)
  show ix: "\<exists>cs v. q_client_soa_serial q = Some cs \<and> version_by_serial d (z_name z) cs = Some v \<and> v_version_id v = lo"
    if "mode = Some MODE_IXFR"
    using m that by (auto simp: transfer_mode_def Let_def split: if_splits option.splits)
  show ax: "lo = z_current_version z" if "mode \<noteq> Some MODE_IXFR"
    using m that by (auto simp: transfer_mode_def Let_def split: if_splits option.splits)
  have "lo \<in> vids d (z_name z)"
  proof (cases "mode = Some MODE_IXFR")
    case True
    with ix version_by_serial_Some show ?thesis unfolding mem_vids by metis
  next
    case False
    with ax l show ?thesis by simp
  qed
  then show "lo \<le> z_current_version z" and "{lo..z_current_version z} \<subseteq> vids d (z_name z)"
    using l by auto
qed

lemma authorized_pin:
  assumes wf: "wf_db d" and a: "authorize_transfer hm now now' ts inst rid q d = (Inr p, d1)"
  shows "wf_db d1 \<and> holds_pin rid (tp_zone p) (tp_min_version p) (tp_target_version p) d1 \<and>
    tp_min_version p \<le> tp_target_version p \<and> {tp_min_version p..tp_target_version p} \<subseteq> vids d1 (tp_zone p) \<and>
    versions d1 = versions d \<and> records d1 = records d \<and> changes d1 = changes d"
  using a
proof (cases rule: authorize_transfer_effect)
  case (granted p' z t key)
  then have p: "p' = p" by simp
  note z = find_zone_in [OF granted(3)]
  note r = transfer_mode_range [OF wf z [THEN conjunct1] granted(6)]
  from granted(7) have d1: "zones d1 = zones d" "versions d1 = versions d" "records d1 = records d" "changes d1 = changes d"
    "publish_requests d1 = publish_requests d"
    and h: "holds_pin rid (z_name z) (tp_min_version p) (z_current_version z) d1"
    by (auto simp: pin_transfer_def bindE_Inr_iff insert_unique_def holds_pin_def p split: if_splits)
  have pz: "tp_zone p = z_name z" "tp_target_version p = z_current_version z"
    using granted(8) unfolding p by (metis plan.select_convs(2), metis plan.select_convs(3))
  have "wf_db d1" by (rule wf_db_same_data' [OF wf]) (simp_all add: d1)
  with h r(1,2) d1 show ?thesis unfolding pz vids_def by (simp add: p)
qed simp

end
