(* ===== verification/Publish_Spec.thy ===== *)
theory Publish_Spec
  imports Isolation
begin

text \<open>
  What a publish promises, on finite maps: a changeset is a list of edits of an RRset map,
  the dictionaries of \<open>_apply_ops\<close> refine that map, and a commit stores its result as the
  content of the next version.
\<close>

subsection \<open>Edits of an RRset map\<close>

datatype edit = Del_Set rrkey | Put_Set rrkey int "entry list"

type_synonym rrmap = "rrkey \<Rightarrow> rrset option"

text \<open>
  A deletion is skipped when the changeset has already touched the RRset; a replacement by no
  records removes it.  The second component collects the touched keys.
\<close>

fun edit_step :: "edit \<Rightarrow> rrmap \<times> rrkey set \<Rightarrow> rrmap \<times> rrkey set" where
  "edit_step (Del_Set k) (m, C) = (if m k \<noteq> None \<and> k \<notin> C then (m(k := None), insert k C) else (m, C))"
| "edit_step (Put_Set k ttl es) (m, C) =
     (m(k := (if es = [] then None else Some (ttl, es))),
      if m k = None \<or> m k \<noteq> Some (ttl, es) then insert k C else C)"

definition abs_rrsets :: "rrsets \<Rightarrow> rrmap" where
  "abs_rrsets rs k = rr_lookup rs (fst k) (snd k)"

definition abs_state :: "rrsets \<times> rrkey list \<Rightarrow> rrmap \<times> rrkey set" where
  "abs_state st = (abs_rrsets (fst st), set (snd st))"

lemma abs_rrsets_store: "abs_rrsets (rr_store rs n t s) = (abs_rrsets rs)((n, t) := Some s)"
  and abs_rrsets_remove: "abs_rrsets (rr_remove rs n t) = (abs_rrsets rs)((n, t) := None)"
  by (auto simp: abs_rrsets_def rr_simps fun_eq_iff)

lemma apply_delete_refines: "abs_state (apply_delete n t st) = edit_step (Del_Set (n, t)) (abs_state st)"
proof -
  obtain rs C where st: "st = (rs, C)" by (cases st)
  have l: "abs_rrsets rs (n, t) = rr_lookup rs n t" by (simp add: abs_rrsets_def)
  show ?thesis
    by (cases "rr_lookup rs n t") (auto simp: st apply_delete_def abs_state_def abs_rrsets_remove l)
qed

lemma apply_replace_refines:
  "abs_state (apply_replace n t ttl es st) = edit_step (Put_Set (n, t) ttl es) (abs_state st)"
proof -
  obtain rs C where st: "st = (rs, C)" by (cases st)
  have l: "abs_rrsets rs (n, t) = rr_lookup rs n t" by (simp add: abs_rrsets_def)
  show ?thesis
    by (cases "es = []"; cases "rr_lookup rs n t")
      (auto simp: st apply_replace_def Let_def abs_state_def abs_rrsets_store abs_rrsets_remove l fun_eq_iff)
qed

subsection \<open>Reading a changeset\<close>

text \<open>Validation and canonicalisation of one operation do not look at the zone's RRsets.\<close>

definition read_edit :: "string \<Rightarrow> nat \<Rightarrow> json \<Rightarrow> exn + edit" where
  "read_edit zone idx op =
     (case op of
        JObj kvs \<Rightarrow>
          bindE (canonical_name (obj_get kvs ''name'' (JStr [])) zone) (\<lambda>name.
          let action = py_lower (py_str (obj_get kvs ''action'' (JStr [])));
              rtype = py_upper (py_str (obj_get kvs ''type'' (JStr []))) in
          if rtype \<notin> set SUPPORTED_TYPES then Inl (op_error idx ('': unsupported type '' @ repr_str rtype))
          else if action = ''delete'' then Inr (Del_Set (name, rtype))
          else if action = ''replace'' then
            bindE (check_ttl (obj_get kvs ''ttl'' (JInt 3600))) (\<lambda>ttl.
              case obj_get kvs ''records'' (JList []) of
                JList vals \<Rightarrow> bindE (canon_records idx zone name rtype vals []) (\<lambda>es. Inr (Put_Set (name, rtype) ttl es))
              | _ \<Rightarrow> Inl (op_error idx '': records must be a list''))
          else Inl (op_error idx ('': action must be '' @ repr_str ''replace'' @ ''|'' @ repr_str ''delete'')))
      | _ \<Rightarrow> Inl (op_error idx '' must be an object''))"

fun run_edit :: "edit \<Rightarrow> rrsets \<times> rrkey list \<Rightarrow> rrsets \<times> rrkey list" where
  "run_edit (Del_Set k) st = apply_delete (fst k) (snd k) st"
| "run_edit (Put_Set k ttl es) st = apply_replace (fst k) (snd k) ttl es st"

fun read_edits :: "string \<Rightarrow> nat \<Rightarrow> json list \<Rightarrow> exn + edit list" where
  "read_edits zone idx [] = Inr []"
| "read_edits zone idx (op # ops) =
     bindE (read_edit zone idx op) (\<lambda>e. bindE (read_edits zone (idx + 1) ops) (\<lambda>es. Inr (e # es)))"

lemma apply_op_read: "apply_op zone idx op st = bindE (read_edit zone idx op) (\<lambda>e. Inr (run_edit e st))"
proof (cases op)
  case (JObj kvs)
  show ?thesis
    by (cases "canonical_name (obj_get kvs ''name'' (JStr [])) zone";
        cases "check_ttl (obj_get kvs ''ttl'' (JInt 3600))";
        cases "obj_get kvs ''records'' (JList [])")
      (simp_all add: JObj apply_op_def read_edit_def Let_def bindE_assoc)
qed (simp_all add: apply_op_def read_edit_def)

lemma apply_op_list_read:
  "apply_op_list zone idx ops st = bindE (read_edits zone idx ops) (\<lambda>es. Inr (fold run_edit es st))"
proof (induction ops arbitrary: idx st)
  case (Cons op ops)
  show ?case
    by (cases "read_edit zone idx op") (simp_all add: apply_op_read Cons.IH bindE_assoc)
qed simp

lemma run_edit_refines: "abs_state (run_edit e st) = edit_step e (abs_state st)"
  by (cases e) (simp_all add: apply_delete_refines apply_replace_refines)

lemma run_edits_refine: "abs_state (fold run_edit es st) = fold edit_step es (abs_state st)"
  by (induction es arbitrary: st) (simp_all add: run_edit_refines)

definition map_content :: "rrmap \<Rightarrow> delta_row set" where
  "map_content m = {(n, t, ttl, rd, w) | n t ttl rd w es. m (n, t) = Some (ttl, es) \<and> (rd, w) \<in> set es}"

lemma map_content_rrsets: "map_content (abs_rrsets rs) = rrs_content rs"
  by (auto simp: map_content_def abs_rrsets_def mem_rrs_content)

definition edited :: "edit list \<Rightarrow> rrmap \<Rightarrow> rrmap" where
  "edited es m = fst (fold edit_step es (m, {}))"

lemma apply_ops_refines:
  assumes "apply_ops zone (JList ops) (rs0, []) = Inr (rs, changed)"
  obtains es where "read_edits zone 0 ops = Inr es" "abs_rrsets rs = edited es (abs_rrsets rs0)"
proof -
  from assms have "apply_op_list zone 0 ops (rs0, []) = Inr (rs, changed)"
    by (simp add: apply_ops_def split: if_splits)
  then obtain es where es: "read_edits zone 0 ops = Inr es" "fold run_edit es (rs0, []) = (rs, changed)"
    by (auto simp: apply_op_list_read bindE_Inr_iff)
  have "abs_state (rs, changed) = fold edit_step es (abs_rrsets rs0, {})"
    using run_edits_refine [of es "(rs0, [])"] by (simp add: es(2)) (simp add: abs_state_def)
  then have "abs_rrsets rs = edited es (abs_rrsets rs0)"
    by (metis abs_state_def edited_def fst_conv)
  with es(1) show ?thesis by (rule that)
qed

subsection \<open>A committed publish\<close>

text \<open>What a commit leaves: the new version at the head, the old ones as they were.\<close>

lemma committed_version:
  assumes wf: "wf_db d" and z: "z \<in> set (zones d)"
    and plan: "plan_publish d z base nxt (JList ops) = Inr (rs, changed)"
    and c: "commit_publish ts z rid fp base nxt rs changed d = Inr d'"
  obtains es where "read_edits (z_name z) 0 ops = Inr es"
    "content d' (z_name z) (z_current_version z + 1) =
       map_content (edited es (abs_rrsets (load_rrsets d (z_name z) (z_current_version z))))"
    "valid_content (z_name z) nxt (content d' (z_name z) (z_current_version z + 1))"
    "servable_content (z_name z) (content d' (z_name z) (z_current_version z + 1))"
    "delta_ok d' (z_name z) (z_current_version z)"
    "\<And>zone n. (zone, n) \<noteq> (z_name z, z_current_version z + 1) \<Longrightarrow> content d' zone n = content d zone n"
    "map_content (abs_rrsets (load_rrsets d (z_name z) (z_current_version z))) =
       content d (z_name z) (z_current_version z)"
proof -
  let ?Z = "z_name z" and ?C = "z_current_version z"
  from c obtain d1 where m: "materialize ?Z ?C (?C + 1) rs changed d = Inr d1"
    and r: "records d' = records d1" "changes d' = changes d1" by (rule commit_publish_Inr)
  have rec: "records_of d' = records_of d1" and chg: "changes_of d' = changes_of d1"
    by (simp_all add: records_of_def changes_of_def r fun_eq_iff)
  have co: "content d' zone n = content d1 zone n" for zone n by (simp add: content_def rec)
  have dl: "delta_ok d' ?Z ?C = delta_ok d1 ?Z ?C"
    by (simp add: delta_ok_def co dels_def adds_def iter_changes_def chg)
  note p = planned_version [OF wf z plan m]
  from plan_publish_Inr(3) [OF plan] obtain es where es: "read_edits ?Z 0 ops = Inr es"
    "abs_rrsets rs = edited es (abs_rrsets (load_rrsets d ?Z ?C))" by (rule apply_ops_refines)
  obtain v where "v_zone v = ?Z" "v_version_id v = ?C" "version_ok d v" by (rule current_version_row [OF wf z])
  then have u: "uniform_ttl (content d ?Z ?C)" by (auto simp: version_ok_def valid_content_def)
  have ne: "?C + 1 \<noteq> ?C" by simp
  show ?thesis
  proof (rule that [OF es(1)])
    show "content d' ?Z (?C + 1) = map_content (edited es (abs_rrsets (load_rrsets d ?Z ?C)))"
      by (simp add: co p(1) es(2) [symmetric] map_content_rrsets)
    show "content d' zone n = content d zone n" if "(zone, n) \<noteq> (?Z, ?C + 1)" for zone n
      using materialize_elim [OF m ne] that unfolding co by (metis content_cong)
    show "map_content (abs_rrsets (load_rrsets d ?Z ?C)) = content d ?Z ?C"
      by (simp add: map_content_rrsets load_content [OF u])
  qed (use p in \<open>simp_all add: co dl\<close>)
qed

end
