(* ===== verification/Queue.thy ===== *)
theory Queue
  imports Isolation
begin

text \<open>
  The cleanup queue: task ids are unique, a lease is exclusive until it expires, and what a
  cleanup keeps.
\<close>

subsection \<open>The task table\<close>

definition wf_tasks :: "db \<Rightarrow> bool" where
  "wf_tasks d \<longleftrightarrow> distinct (map t_task_id (cleanup_tasks d)) \<and>
     (\<forall>t \<in> set (cleanup_tasks d). t_task_id t < next_task_id d \<and>
        (t_state t = RUNNING \<longrightarrow> t_token t \<noteq> None \<and> t_lease_expires t \<noteq> None))"

lemma wf_tasks_same: "cleanup_tasks d' = cleanup_tasks d \<Longrightarrow> next_task_id d' = next_task_id d \<Longrightarrow> wf_tasks d \<Longrightarrow> wf_tasks d'"
  by (simp add: wf_tasks_def)

lemma wf_tasks_update:
  assumes "wf_tasks d" and "\<And>t. t_task_id (f t) = t_task_id t"
    and "\<And>t. t_state (f t) = RUNNING \<Longrightarrow> t_token (f t) \<noteq> None \<and> t_lease_expires (f t) \<noteq> None"
  shows "wf_tasks (d\<lparr>cleanup_tasks := update_task i f (cleanup_tasks d)\<rparr>)"
proof -
  have ids: "map t_task_id (update_task i f (cleanup_tasks d)) = map t_task_id (cleanup_tasks d)"
    by (simp add: update_task_def assms(2))
  have "t_task_id t < next_task_id d \<and> (t_state t = RUNNING \<longrightarrow> t_token t \<noteq> None \<and> t_lease_expires t \<noteq> None)"
    if "t \<in> set (update_task i f (cleanup_tasks d))" for t
  proof -
    from that obtain u where "u \<in> set (cleanup_tasks d)" "t = (if t_task_id u = i then f u else u)"
      by (auto simp: update_task_def)
    moreover from this(1) assms(1) have "t_task_id u < next_task_id d \<and>
        (t_state u = RUNNING \<longrightarrow> t_token u \<noteq> None \<and> t_lease_expires u \<noteq> None)" by (simp add: wf_tasks_def)
    ultimately show ?thesis using assms(2,3) by (cases "t_task_id u = i") auto
  qed
  with assms(1) ids show ?thesis by (simp add: wf_tasks_def)
qed

lemma wf_tasks_enqueue: "wf_tasks d \<Longrightarrow> wf_tasks (enqueue_cleanup ts zone d)"
  by (force simp: wf_tasks_def enqueue_cleanup_def)

lemma wf_tasks_finish: "wf_tasks d \<Longrightarrow> wf_tasks (finish_task now i d)"
  unfolding finish_task_def by (rule wf_tasks_update) auto

lemma lease_task_simps [simp]:
  "t_task_id (lease_task token now t) = t_task_id t" "t_state (lease_task token now t) = RUNNING"
  "t_token (lease_task token now t) = Some token" "t_lease_expires (lease_task token now t) = Some (now + 30)"
  "t_zone (lease_task token now t) = t_zone t"
  by (simp_all add: lease_task_def CLEANUP_LEASE_SECONDS_def)

lemma wf_tasks_claim: "wf_tasks d \<Longrightarrow> wf_tasks (snd (claim_cleanup_task token now d))"
  by (cases "claimable now d") (auto simp: claim_cleanup_task_def Let_def intro: wf_tasks_update)

lemma run_cleanup_tasks:
  "run_cleanup now now' task d = (res, d') \<Longrightarrow>
    (\<exists>n. cleanup_tasks d' = update_task (t_task_id task) (\<lambda>t. t\<lparr>t_state := TASK_DONE, t_finished_at := Some n\<rparr>) (cleanup_tasks d)) \<and>
    next_task_id d' = next_task_id d"
  by (cases "find_zone d (t_zone task)")
    (auto simp: run_cleanup_def Let_def fold_delete_version finish_task_def)

lemma wf_tasks_run_cleanup:
  assumes "run_cleanup now now' task d = (res, d')" and wf: "wf_tasks d"
  shows "wf_tasks d'"
proof -
  from run_cleanup_tasks [OF assms(1)] obtain n where
    "cleanup_tasks d' = update_task (t_task_id task) (\<lambda>t. t\<lparr>t_state := TASK_DONE, t_finished_at := Some n\<rparr>) (cleanup_tasks d)"
    "next_task_id d' = next_task_id d" by blast
  then show ?thesis
    by (intro wf_tasks_same [OF _ _ wf_tasks_finish [OF wf, of n "t_task_id task"]]) (simp_all add: finish_task_def)
qed

lemma tasks_unchanged:
  "create_zone ts zone serial soa ns retain d = (res, d') \<Longrightarrow> cleanup_tasks d' = cleanup_tasks d \<and> next_task_id d' = next_task_id d"
  "install_key ts secret zone key_id key_name expires d = (res', d') \<Longrightarrow> cleanup_tasks d' = cleanup_tasks d \<and> next_task_id d' = next_task_id d"
  "revoke_key ts zone key_id d = (res'', d') \<Longrightarrow> cleanup_tasks d' = cleanup_tasks d \<and> next_task_id d' = next_task_id d"
proof -
  show "cleanup_tasks d' = cleanup_tasks d \<and> next_task_id d' = next_task_id d"
    if "create_zone ts zone serial soa ns retain d = (res, d')"
    using that by (cases res) (auto dest: create_zone_Inl elim!: create_zone_Inr)
  show "cleanup_tasks d' = cleanup_tasks d \<and> next_task_id d' = next_task_id d"
    if "install_key ts secret zone key_id key_name expires d = (res', d')"
    using that by (cases res') (auto dest: install_key_Inl elim!: install_key_Inr)
  show "cleanup_tasks d' = cleanup_tasks d \<and> next_task_id d' = next_task_id d"
    if "revoke_key ts zone key_id d = (res'', d')"
    using that by (cases res'') (auto dest: revoke_key_Inl elim!: revoke_key_Inr)
qed

lemma wf_tasks_publish:
  assumes "publish ts zname rid base nxt ops fp d = (res, d')" and wf: "wf_tasks d"
  shows "wf_tasks d'"
  using assms(1)
proof (cases rule: publish_cases)
  case (committed z rs changed)
  from committed(4) have "cleanup_tasks d' = cleanup_tasks (enqueue_cleanup ts (z_name z) d)"
    "next_task_id d' = next_task_id (enqueue_cleanup ts (z_name z) d)"
    by (auto elim!: commit_publish_Inr simp: enqueue_cleanup_def)
  then show ?thesis by (rule wf_tasks_same [OF _ _ wf_tasks_enqueue [OF wf]])
qed (use wf in \<open>simp_all add: wf_tasks_def\<close>)

lemma wf_tasks_failed: "wf_tasks d \<Longrightarrow> wf_tasks (cleanup_failed msg task d)"
  by (auto simp: wf_tasks_def cleanup_failed_def update_task_def comp_def if_distrib [of t_task_id] cong: if_cong)

lemma wf_tasks_step:
  assumes "step d e d'" and wf: "wf_tasks d"
  shows "wf_tasks d'"
  using assms(1)
proof cases
  case (step_post env path cl raw resp)
  from step_post(2) show ?thesis
  proof (cases rule: do_POST_effect)
    case same
    with wf show ?thesis by simp
  next
    case (create body c res)
    from wf_tasks_same [OF _ _ wf] tasks_unchanged(1) [OF create(3)] show ?thesis by simp
  next
    case (publish body zn b res)
    from publish(3) wf show ?thesis by (rule wf_tasks_publish)
  next
    case (install zone k n x res)
    from wf_tasks_same [OF _ _ wf] tasks_unchanged(2) [OF install] show ?thesis by simp
  next
    case (revoke zone k res)
    from wf_tasks_same [OF _ _ wf] tasks_unchanged(3) [OF revoke] show ?thesis by simp
  qed
next
  case (step_put env path cl raw resp)
  from step_put(2) show ?thesis
  proof (cases rule: do_PUT_effect)
    case (retention zone n res)
    then show ?thesis
      using wf wf_tasks_enqueue [of "d\<lparr>zones := zs\<rparr>" for zs]
      by (cases "get_zone_row zone d") (auto simp: set_retention_def wf_tasks_def intro!: wf_tasks_enqueue)
  qed (use wf in simp)
next
  case (step_begin hm now now' ts inst ref_id q res)
  from step_begin(2) show ?thesis
    by (cases rule: authorize_transfer_effect)
      (use wf in \<open>auto simp: pin_transfer_def bindE_Inr_iff intro: wf_tasks_same [of _ d]\<close>)
next
  case (step_claim token now t)
  with wf_tasks_claim [OF wf, of token now] show ?thesis by simp
next
  case (step_clean now now' task res)
  with wf show ?thesis by (blast intro: wf_tasks_run_cleanup)
next
  case (step_fail msg task)
  with wf_tasks_failed [OF wf] show ?thesis by simp
qed (use wf in \<open>auto simp: heartbeat_transfer_def release_transfer_def intro: wf_tasks_same [of _ d]\<close>)

lemma reachable_wf_tasks: "reachable d \<Longrightarrow> wf_tasks d"
proof (induction rule: reachable.induct)
  case reach_start
  show ?case by (simp add: empty_db_def wf_tasks_def)
next
  case (reach_step d e d')
  then show ?case by (blast intro: wf_tasks_step)
qed

subsection \<open>Leases\<close>

definition leased :: "string \<Rightarrow> int \<Rightarrow> nat \<Rightarrow> db \<Rightarrow> bool" where
  "leased token e i d \<longleftrightarrow>
     (\<exists>t \<in> set (cleanup_tasks d). t_task_id t = i \<and> t_state t = RUNNING \<and> t_token t = Some token \<and> t_lease_expires t = Some e)"

lemma leasedI: "lease_task token now v \<in> set (cleanup_tasks d) \<Longrightarrow> leased token (now + 30) (t_task_id v) d"
  unfolding leased_def by (intro bexI [of _ "lease_task token now v"]) simp_all

lemma find_SomeD: "find P xs = Some x \<Longrightarrow> x \<in> set xs \<and> P x"
  by (auto simp: find_Some_iff)

lemma claimable_Some:
  assumes "claimable now d = Some t"
  shows "t \<in> set (cleanup_tasks d)" and "t_state t = PENDING \<or> lease_expired now t"
proof -
  let ?ts = "sort_key t_task_id (cleanup_tasks d)"
  have "t \<in> set ?ts \<and> (t_state t = PENDING \<or> lease_expired now t)"
  proof (cases "find (\<lambda>t. t_state t = PENDING) ?ts")
    case None
    with assms have "find (lease_expired now) ?ts = Some t" by (simp add: claimable_def Let_def)
    then show ?thesis by (blast dest: find_SomeD)
  next
    case (Some u)
    with assms have "u = t" by (simp add: claimable_def Let_def)
    with find_SomeD [OF Some] show ?thesis by blast
  qed
  then show "t \<in> set (cleanup_tasks d)" and "t_state t = PENDING \<or> lease_expired now t" by auto
qed

text \<open>With a fresh token the claim returns the leased row of the claimable task.\<close>

lemma claim_Some:
  assumes c: "claim_cleanup_task token now d = (Some t, d')" and fresh: "\<forall>u \<in> set (cleanup_tasks d). t_token u \<noteq> Some token"
    and wf: "wf_tasks d"
  obtains u where "claimable now d = Some u" "t = lease_task token now u"
    "cleanup_tasks d' = update_task (t_task_id u) (lease_task token now) (cleanup_tasks d)"
proof -
  from c obtain u where u: "claimable now d = Some u" by (cases "claimable now d") (auto simp: claim_cleanup_task_def)
  let ?ts = "update_task (t_task_id u) (lease_task token now) (cleanup_tasks d)"
  from c u have d': "cleanup_tasks d' = ?ts" and f: "find (\<lambda>t. t_token t = Some token) ?ts = Some t"
    by (auto simp: claim_cleanup_task_def Let_def)
  from f have "t \<in> set ?ts" "t_token t = Some token" by (auto simp: find_Some_iff)
  then obtain v where v: "v \<in> set (cleanup_tasks d)" "t = (if t_task_id v = t_task_id u then lease_task token now v else v)"
    by (auto simp: update_task_def)
  with fresh \<open>t_token t = Some token\<close> have vu: "t_task_id v = t_task_id u" by (auto split: if_splits)
  have "v = u"
    using wf v(1) claimable_Some(1) [OF u] vu by (auto simp: wf_tasks_def distinct_map inj_on_def)
  with v vu u d' show ?thesis by (intro that [of u]) simp_all
qed


text \<open>A lease that has not expired is not handed to another worker.\<close>

lemma claim_respects_lease:
  assumes c: "claim_cleanup_task token now d = (Some t, d')" and fresh: "\<forall>u \<in> set (cleanup_tasks d). t_token u \<noteq> Some token"
    and wf: "wf_tasks d" and l: "leased tok e i d" and live: "now \<le> e"
  shows "t_task_id t \<noteq> i \<and> leased tok e i d' \<and> leased token (now + 30) (t_task_id t) d'"
proof -
  from claim_Some [OF c fresh wf] obtain u where u: "claimable now d = Some u" "t = lease_task token now u"
    "cleanup_tasks d' = update_task (t_task_id u) (lease_task token now) (cleanup_tasks d)" by blast
  from l obtain w where w: "w \<in> set (cleanup_tasks d)" "t_task_id w = i" "t_state w = RUNNING" "t_token w = Some tok"
    "t_lease_expires w = Some e" by (auto simp: leased_def)
  note um = claimable_Some [OF u(1)]
  have "t_task_id u \<noteq> i"
  proof
    assume "t_task_id u = i"
    then have "u = w" using wf w(1,2) um(1) by (auto simp: wf_tasks_def distinct_map inj_on_def)
    with um(2) w live show False by (simp add: lease_expired_def)
  qed
  then have "w \<in> set (cleanup_tasks d')" "t \<in> set (cleanup_tasks d')"
    using w um(1) by (auto simp: u(2,3) update_task_def)
  moreover from this(1) w have "leased tok e i d'" unfolding leased_def by blast
  ultimately show ?thesis using \<open>t_task_id u \<noteq> i\<close> leasedI [of token "now" u d'] by (simp add: u(2))
qed

text \<open>A PENDING task is always claimed, the oldest first.\<close>

lemma sorted_find_first:
  assumes "sorted (map f xs)" and "find P xs = Some x" and "y \<in> set xs" and "P y"
  shows "f x \<le> f y"
  using assms by (induction xs) (auto split: if_splits)

lemma claim_pending:
  assumes wf: "wf_tasks d" and fresh: "\<forall>u \<in> set (cleanup_tasks d). t_token u \<noteq> Some token"
    and p: "u \<in> set (cleanup_tasks d)" "t_state u = PENDING"
  shows "\<exists>t d'. claim_cleanup_task token now d = (Some t, d') \<and> t_task_id t \<le> t_task_id u \<and>
    leased token (now + 30) (t_task_id t) d' \<and>
    (\<exists>v \<in> set (cleanup_tasks d). t_task_id v = t_task_id t \<and> t_state v = PENDING)"
proof -
  let ?ts = "sort_key t_task_id (cleanup_tasks d)"
  have "find (\<lambda>t. t_state t = PENDING) ?ts \<noteq> None"
    using p by (simp add: find_None_iff) blast
  then obtain v where v: "find (\<lambda>t. t_state t = PENDING) ?ts = Some v" by blast
  then have cl: "claimable now d = Some v" by (simp add: claimable_def Let_def)
  have vm: "v \<in> set (cleanup_tasks d)" "t_state v = PENDING" using find_SomeD [OF v] by auto
  have le: "t_task_id v \<le> t_task_id u"
    by (rule sorted_find_first [OF _ v]) (use p in simp_all)
  let ?us = "update_task (t_task_id v) (lease_task token now) (cleanup_tasks d)"
  have "lease_task token now v \<in> set ?us" using vm by (auto simp: update_task_def)
  then have "find (\<lambda>t. t_token t = Some token) ?us \<noteq> None" by (auto simp: find_None_iff)
  then obtain t where t: "find (\<lambda>t. t_token t = Some token) ?us = Some t" by blast
  then have c: "claim_cleanup_task token now d = (Some t, d\<lparr>cleanup_tasks := ?us\<rparr>)"
    by (simp add: claim_cleanup_task_def cl Let_def)
  from claim_Some [OF c fresh wf] cl have tv: "t = lease_task token now v" by auto
  have "leased token (now + 30) (t_task_id t) (d\<lparr>cleanup_tasks := ?us\<rparr>)"
    using \<open>lease_task token now v \<in> set ?us\<close> leasedI [of token "now" v] by (simp add: tv)
  with c le vm show ?thesis by (auto simp: tv)
qed

subsection \<open>What a cleanup keeps\<close>

lemma cleanup_vids:
  assumes wf: "wf_db d" and z: "find_zone d (t_zone task) = Some z" and run: "run_cleanup now now' task d = (res, d')"
  obtains b where "cr_delete_before res = Some b" "b \<le> z_current_version z - max 1 (z_retain_versions z) + 1"
    "\<And>r. r \<in> set (transfer_refs d) \<Longrightarrow> live_ref (t_zone task) (now - 300000) r \<Longrightarrow> b \<le> f_version_id r \<and> b \<le> f_min_version r"
    "\<And>zone n. n \<in> vids d' zone \<longleftrightarrow> n \<in> vids d zone \<and> \<not> (zone = t_zone task \<and> n < b)"
    "\<And>zone n. n \<in> vids d' zone \<Longrightarrow> content d' zone n = content d zone n"
    "\<And>zone n. n \<in> vids d' zone \<Longrightarrow> iter_changes d' zone n = iter_changes d zone n"
    "zones d' = zones d" "keys d' = keys d" "publish_requests d' = publish_requests d"
proof (rule run_cleanup_prefix [OF wf z run])
  fix b
  assume b: "b \<le> z_current_version z - max 1 (z_retain_versions z) + 1" "cr_delete_before res = Some b"
    and pins: "\<And>r. r \<in> set (transfer_refs d) \<Longrightarrow> live_ref (t_zone task) (now - 300000) r \<Longrightarrow> b \<le> f_version_id r \<and> b \<le> f_min_version r"
    and same: "zones d' = zones d" "publish_requests d' = publish_requests d" "keys d' = keys d"
    and vs: "versions d' = filter (\<lambda>v. \<not> (v_zone v = t_zone task \<and> v_version_id v < b)) (versions d)"
    and rs: "records d' = filter (\<lambda>r. \<not> (r_zone r = t_zone task \<and> r_version_id r < b)) (records d)"
    and cs: "changes d' = filter (\<lambda>c. \<not> (c_zone c = t_zone task \<and> c_version_id c < b)) (changes d)"
  have vid: "n \<in> vids d' zone \<longleftrightarrow> n \<in> vids d zone \<and> \<not> (zone = t_zone task \<and> n < b)" for zone n
    by (auto simp: mem_vids vs)
  have "records_of d' zone n = records_of d zone n" "changes_of d' zone n = changes_of d zone n"
    if "n \<in> vids d' zone" for zone n
    using that vid by (auto simp: records_of_def changes_of_def rs cs intro!: filter_cong)
  then have "content d' zone n = content d zone n" "iter_changes d' zone n = iter_changes d zone n"
    if "n \<in> vids d' zone" for zone n using that content_cong delta_cong by blast+
  from that [OF b(2,1) pins vid this same(1,3,2)] show ?thesis by blast
qed

end
