(* ===== verification/History.thy ===== *)
theory History
  imports Publish_Spec Queue
begin

text \<open>
  What a run of the service never takes back: zones stay, the current version of a zone never
  decreases, a version id is never reused and its snapshot and delta never change while it is
  retained, the ledger only grows, and a revoked key stays revoked.
\<close>

inductive steps :: "db \<Rightarrow> db \<Rightarrow> bool" where
  steps_refl: "steps d d"
| steps_step: "steps d d' \<Longrightarrow> step d' e d'' \<Longrightarrow> steps d d''"

lemma steps_one: "step d e d' \<Longrightarrow> steps d d'"
  by (rule steps_step [OF steps_refl])

lemma steps_reachable: "steps d d' \<Longrightarrow> reachable d \<Longrightarrow> reachable d'"
  by (induction rule: steps.induct) (blast intro: reach_step)+

subsection \<open>What a step does to the zone data\<close>

lemma step_data_cases:
  assumes "step d e d'"
  obtains (same) "map zone_core (zones d') = map zone_core (zones d)" "versions d' = versions d"
      "records d' = records d" "changes d' = changes d" "publish_requests d' = publish_requests d"
  | (create) ts zone serial soa ns retain where "create_zone ts zone serial soa ns retain d = (Inr (), d')"
  | (publish) ts zname rid base nxt ops fp res where "publish ts zname rid base nxt (JList ops) fp d = (res, d')"
  | (clean) now now' task z res where "find_zone d (t_zone task) = Some z" "run_cleanup now now' task d = (res, d')"
  using assms
proof cases
  case (step_post env path cl raw resp)
  from step_post(2) show ?thesis
  proof (cases rule: do_POST_effect)
    case same
    then show ?thesis by (intro that(1)) simp_all
  next
    case (create body c res)
    show ?thesis
    proof (cases res)
      case (Inl e)
      with create have "d' = d" by (auto dest: create_zone_Inl)
      then show ?thesis by (intro that(1)) simp_all
    next
      case (Inr u)
      with create that(2) show ?thesis by simp
    qed
  next
    case (publish body zn b res)
    from publish(3) show ?thesis by (rule that(3))
  next
    case (install zone k n x res)
    then show ?thesis
      by (intro that(1); cases res) (auto dest: install_key_Inl elim!: install_key_Inr)
  next
    case (revoke zone k res)
    then show ?thesis
      by (intro that(1); cases res) (auto dest: revoke_key_Inl elim!: revoke_key_Inr)
  qed
next
  case (step_put env path cl raw resp)
  from step_put(2) show ?thesis
  proof (cases rule: do_PUT_effect)
    case same
    then show ?thesis by (intro that(1)) simp_all
  next
    case (retention zone n res)
    then show ?thesis
      by (intro that(1); cases "get_zone_row zone d")
        (auto simp: set_retention_def enqueue_cleanup_def update_zone_def zone_core_def)
  qed
next
  case (step_begin hm now now' ts inst ref_id q res)
  from step_begin(2) show ?thesis
    by (cases rule: authorize_transfer_effect)
      (intro that(1); auto simp: pin_transfer_def bindE_Inr_iff)+
next
  case (step_claim token now t)
  then show ?thesis
    by (intro that(1)) (auto simp: claim_cleanup_task_def Let_def split: option.splits)
next
  case (step_clean now now' task res)
  show ?thesis
  proof (cases "find_zone d (t_zone task)")
    case None
    with step_clean show ?thesis by (intro that(1)) (auto simp: run_cleanup_def)
  next
    case (Some z)
    with step_clean that(4) show ?thesis by blast
  qed
qed (intro that(1); simp add: heartbeat_transfer_def release_transfer_def cleanup_failed_def)+

subsection \<open>Zones, versions, ledger\<close>

definition zones_kept :: "db \<Rightarrow> db \<Rightarrow> bool" where
  "zones_kept d d' \<longleftrightarrow>
     (\<forall>z \<in> set (zones d). \<exists>z' \<in> set (zones d'). z_name z' = z_name z \<and> z_current_version z \<le> z_current_version z')"

definition history_kept :: "db \<Rightarrow> db \<Rightarrow> bool" where
  "history_kept d d' \<longleftrightarrow>
     (\<forall>z \<in> set (zones d). \<forall>n \<le> z_current_version z. n \<in> vids d' (z_name z) \<longrightarrow>
        n \<in> vids d (z_name z) \<and> same_versions (z_name z) n n d d')"

lemma zones_kept_core:
  assumes "map zone_core (zones d') = map zone_core (zones d)"
  shows "zones_kept d d'"
proof -
  have s: "zone_core ` set (zones d') = zone_core ` set (zones d)" by (metis assms list.set_map)
  have "\<exists>z' \<in> set (zones d'). zone_core z' = zone_core z" if "z \<in> set (zones d)" for z
    using that s by (metis image_iff)
  then show ?thesis by (fastforce simp: zones_kept_def zone_core_def)
qed

lemma history_kept_same:
  "versions d' = versions d \<Longrightarrow> records d' = records d \<Longrightarrow> changes d' = changes d \<Longrightarrow> history_kept d d'"
  by (simp add: history_kept_def vids_def same_versions_data)

lemma update_zone_mem: "y \<in> set zs \<Longrightarrow> (if z_name y = n then f y else y) \<in> set (update_zone n f zs)"
  by (auto simp: update_zone_def)

lemma find_zone_update:
  assumes "\<And>z. z_name (f z) = z_name z" and "find_zone d n = Some z" and "zones d' = update_zone n f (zones d)"
  shows "find_zone d' n = Some (f z)"
proof -
  have "find (\<lambda>z. z_name z = n) (update_zone n f zs) = map_option f (find (\<lambda>z. z_name z = n) zs)" for zs
    by (induction zs) (simp_all add: update_zone_def assms(1))
  with assms(2,3) show ?thesis by (simp add: find_zone_def)
qed

lemma publish_kept:
  assumes wf: "wf_db d" and run: "publish ts zname rid base nxt ops fp d = (res, d')"
  shows "zones_kept d d' \<and> history_kept d d' \<and> (\<exists>ps. publish_requests d' = publish_requests d @ ps)"
  using run
proof (cases rule: publish_cases)
  case (committed z rs changed)
  note zz = find_zone_name [OF committed(1)]
  let ?N = "z_current_version z + 1"
  from committed(4) show ?thesis
  proof (rule commit_publish_Inr)
    assume vs: "versions d' = versions d @ [\<lparr>v_zone = z_name z, v_version_id = ?N, v_serial = nxt,
        v_request_id = rid, v_created_at = ts\<rparr>]"
      and zs: "zones d' = update_zone (z_name z) (\<lambda>y. y\<lparr>z_current_serial := nxt,
        z_current_version := ?N, z_record_count := int (count_records rs),
        z_rrset_count := int (count_rrsets rs), z_updated_at := ts\<rparr>) (zones d)"
      and ps: "publish_requests d' = publish_requests d @
        [request_entry ts (z_name z) rid fp (COMMITTED ?N nxt) base nxt]"
    have "\<exists>y' \<in> set (zones d'). z_name y' = z_name y \<and> z_current_version y \<le> z_current_version y'"
      if y: "y \<in> set (zones d)" for y
      unfolding zs using zz wf_db_zone_unique [OF wf y]
      by (intro bexI [OF _ update_zone_mem [OF y]]) auto
    moreover have "n \<in> vids d (z_name y) \<and> same_versions (z_name y) n n d d'"
      if y: "y \<in> set (zones d)" "n \<le> z_current_version y" "n \<in> vids d' (z_name y)" for y n
    proof -
      have n: "n \<in> vids d (z_name y)"
      proof (cases "z_name y = z_name z")
        case True
        with wf_db_zone_unique [OF wf y(1)] zz have "y = z" by blast
        with y(2,3) show ?thesis by (simp add: vids_append [OF vs])
      next
        case False
        with y(3) show ?thesis by (simp add: vids_append [OF vs])
      qed
      with publish_same_versions [OF wf run, of n n] show ?thesis by simp
    qed
    ultimately show ?thesis using ps unfolding zones_kept_def history_kept_def by simp
  qed
qed (simp_all add: zones_kept_core history_kept_same)

lemma create_kept:
  assumes wf: "wf_db d" and run: "create_zone ts zone serial soa ns retain d = (Inr (), d')"
  shows "zones_kept d d' \<and> history_kept d d' \<and> publish_requests d' = publish_requests d"
  using run
proof (rule create_zone_Inr)
  fix rows :: "(string \<times> int \<times> rdata \<times> bytes) list"
  assume f: "find_zone d zone = None"
    and "d' = d\<lparr>zones := zones d @ [\<lparr>z_name = zone, z_current_serial = serial, z_current_version = 0,
            z_retain_versions = retain, z_record_count = int (length rows), z_rrset_count = 2,
            z_created_at = ts, z_updated_at = ts\<rparr>],
          versions := versions d @ [\<lparr>v_zone = zone, v_version_id = 0, v_serial = serial,
            v_request_id = ''__create__'', v_created_at = ts\<rparr>],
          records := records d @ map (create_row zone) rows\<rparr>"
  then have d': "zones d' = zones d @ [\<lparr>z_name = zone, z_current_serial = serial, z_current_version = 0,
            z_retain_versions = retain, z_record_count = int (length rows), z_rrset_count = 2,
            z_created_at = ts, z_updated_at = ts\<rparr>]"
      "versions d' = versions d @ [\<lparr>v_zone = zone, v_version_id = 0, v_serial = serial,
            v_request_id = ''__create__'', v_created_at = ts\<rparr>]"
      "publish_requests d' = publish_requests d" by simp_all
  have ne: "z_name y \<noteq> zone" if "y \<in> set (zones d)" for y
    using f that by (auto simp: find_zone_def find_None_iff)
  have "zones_kept d d'" by (fastforce simp: zones_kept_def d')
  moreover have "history_kept d d'"
    unfolding history_kept_def
    using create_same_versions [OF wf run] by (auto simp: vids_append [OF d'(2)] ne)
  ultimately show ?thesis using d' by simp
qed

lemma cleanup_kept:
  assumes wf: "wf_db d" and z: "find_zone d (t_zone task) = Some z" and run: "run_cleanup now now' task d = (res, d')"
  shows "zones_kept d d' \<and> history_kept d d' \<and> publish_requests d' = publish_requests d"
  using wf z run
proof (rule run_cleanup_prefix)
  fix b
  assume same: "zones d' = zones d" "publish_requests d' = publish_requests d"
    and vs: "versions d' = filter (\<lambda>v. \<not> (v_zone v = t_zone task \<and> v_version_id v < b)) (versions d)"
    and rs: "records d' = filter (\<lambda>r. \<not> (r_zone r = t_zone task \<and> r_version_id r < b)) (records d)"
    and cs: "changes d' = filter (\<lambda>c. \<not> (c_zone c = t_zone task \<and> c_version_id c < b)) (changes d)"
  have "n \<in> vids d zone \<and> same_versions zone n n d d'" if n: "n \<in> vids d' zone" for n zone
  proof -
    from n have k: "n \<in> vids d zone" "\<not> (zone = t_zone task \<and> n < b)" by (auto simp: mem_vids vs)
    then show ?thesis
      by (auto simp: same_versions_def records_of_def changes_of_def rs cs vs intro!: filter_cong)
  qed
  then show ?thesis using same by (auto simp: history_kept_def zones_kept_def)
qed

lemma step_kept:
  assumes "step d e d'" and wf: "wf_db d"
  shows "zones_kept d d' \<and> history_kept d d' \<and> (\<exists>ps. publish_requests d' = publish_requests d @ ps)"
  using assms(1)
proof (cases rule: step_data_cases)
  case same
  then show ?thesis by (simp add: zones_kept_core history_kept_same)
next
  case (publish ts zname rid base nxt ops fp res)
  from publish_kept [OF wf publish] show ?thesis .
qed (use create_kept [OF wf] cleanup_kept [OF wf] in \<open>simp_all\<close>)

lemma vids_current:
  "wf_db d \<Longrightarrow> z \<in> set (zones d) \<Longrightarrow> n \<in> vids d (z_name z) \<Longrightarrow> n \<le> z_current_version z"
  by (force simp: wf_db_def history_ok_def)

lemma zones_kept_trans:
  assumes "zones_kept d d'" and "zones_kept d' d''"
  shows "zones_kept d d''"
  unfolding zones_kept_def
proof
  fix z assume "z \<in> set (zones d)"
  with assms(1) obtain y where y: "y \<in> set (zones d')" "z_name y = z_name z" "z_current_version z \<le> z_current_version y"
    by (auto simp: zones_kept_def)
  with assms(2) obtain x where "x \<in> set (zones d'')" "z_name x = z_name y" "z_current_version y \<le> z_current_version x"
    by (auto simp: zones_kept_def)
  with y show "\<exists>z' \<in> set (zones d''). z_name z' = z_name z \<and> z_current_version z \<le> z_current_version z'" by force
qed

lemma history_kept_trans:
  assumes "zones_kept d d'" and "history_kept d d'" and "history_kept d' d''"
  shows "history_kept d d''"
  unfolding history_kept_def
proof (intro ballI allI impI)
  fix z n assume a: "z \<in> set (zones d)" "n \<le> z_current_version z" "n \<in> vids d'' (z_name z)"
  from assms(1) a(1) obtain y where y: "y \<in> set (zones d')" "z_name y = z_name z" "z_current_version z \<le> z_current_version y"
    by (auto simp: zones_kept_def)
  with assms(3) a have "n \<in> vids d' (z_name z)" "same_versions (z_name z) n n d' d''"
    unfolding history_kept_def by (metis order.trans)+
  with assms(2) a show "n \<in> vids d (z_name z) \<and> same_versions (z_name z) n n d d''"
    unfolding history_kept_def using same_versions_trans by blast
qed

lemma steps_kept:
  assumes "steps d d'" and "reachable d"
  shows "zones_kept d d' \<and> history_kept d d' \<and> (\<exists>ps. publish_requests d' = publish_requests d @ ps)"
  using assms
proof (induction rule: steps.induct)
  case (steps_refl d)
  show ?case by (simp add: zones_kept_core history_kept_same)
next
  case (steps_step d d' e d'')
  have k: "zones_kept d d'" "history_kept d d'" "\<exists>ps. publish_requests d' = publish_requests d @ ps"
    using steps_step by blast+
  have "wf_db d'" using steps_step.hyps(1) steps_step.prems by (blast intro: reachable_wf steps_reachable)
  from step_kept [OF steps_step.hyps(2) this] k show ?case
    using zones_kept_trans history_kept_trans by (metis append.assoc)
qed

lemma find_append_None: "find P xs = None \<Longrightarrow> find P (xs @ ys) = find P ys"
  by (induction xs) (auto split: if_splits)

lemma find_append_Some: "find P xs = Some x \<Longrightarrow> find P (xs @ ys) = Some x"
  by (induction xs) auto

lemma find_request_append:
  "find_request d zone rid = Some l \<Longrightarrow> publish_requests d' = publish_requests d @ ps \<Longrightarrow>
    find_request d' zone rid = Some l"
  by (simp add: find_request_def find_append_Some)

lemma find_zone_kept: "zones_kept d d' \<Longrightarrow> find_zone d name = Some z \<Longrightarrow> \<exists>z'. find_zone d' name = Some z'"
  unfolding zones_kept_def find_zone_def by (metis find_None_iff find_SomeD not_None_eq)

subsection \<open>Keys\<close>

definition revoked_kept :: "db \<Rightarrow> db \<Rightarrow> bool" where
  "revoked_kept d d' \<longleftrightarrow> (\<forall>k \<in> set (keys d). k_state k = REVOKED \<longrightarrow> k \<in> set (keys d'))"

lemma install_revoked_kept:
  assumes "install_key ts secret zone key_id key_name expires d = (res, d')"
  shows "revoked_kept d d'"
proof (cases res)
  case (Inl e)
  with assms have "d' = d" by (auto dest: install_key_Inl)
  then show ?thesis by (simp add: revoked_kept_def)
next
  case (Inr row)
  with assms have "install_key ts secret zone key_id key_name expires d = (Inr row, d')" by simp
  then show ?thesis
  proof (rule install_key_Inr)
    fix e
    assume "d' = d\<lparr>keys := map (retire_active zone e) (keys d) @ [row]\<rparr>"
    then show ?thesis by (force simp: revoked_kept_def retire_active_def image_iff)
  qed
qed

lemma revoke_revoked_kept:
  assumes wf: "wf_keys d" and run: "revoke_key ts zone key_id d = (res, d')"
  shows "revoked_kept d d'"
proof (cases res)
  case (Inl e)
  with run have "d' = d" by (auto dest: revoke_key_Inl)
  then show ?thesis by (simp add: revoked_kept_def)
next
  case (Inr r)
  with run have "revoke_key ts zone key_id d = (Inr r, d')" by simp
  then obtain l where l: "find (\<lambda>k. k_zone k = zone \<and> k_key_id k = key_id) (keys d) = Some l" "k_state l \<noteq> REVOKED"
    and d': "keys d' = map (revoke_row ts zone key_id) (keys d)" by (rule revoke_key_Inr) (erule that; simp)
  from find_SomeD [OF l(1)] have lm: "l \<in> set (keys d)" "key_key l = (zone, key_id)" by (auto simp: key_key_def)
  have "k \<in> set (keys d')" if k: "k \<in> set (keys d)" "k_state k = REVOKED" for k
  proof -
    have "key_key k \<noteq> (zone, key_id)"
    proof
      assume "key_key k = (zone, key_id)"
      then have "k = l" using wf k(1) lm by (auto simp: wf_keys_def wf_key_list_def distinct_map inj_on_def)
      with k(2) l(2) show False by simp
    qed
    then have "revoke_row ts zone key_id k = k" by (auto simp: revoke_row_def key_key_def)
    with k(1) show ?thesis unfolding d' by (metis image_eqI list.set_map)
  qed
  then show ?thesis by (simp add: revoked_kept_def)
qed

lemma step_revoked_kept:
  assumes "step d e d'" and wf: "wf_keys d"
  shows "revoked_kept d d'"
  using assms(1)
proof cases
  case (step_post env path cl raw resp)
  from step_post(2) show ?thesis
  proof (cases rule: do_POST_effect)
    case (install zone k n x res)
    then show ?thesis by (rule install_revoked_kept)
  next
    case (revoke zone k res)
    with wf show ?thesis by (rule revoke_revoked_kept)
  qed (use keys_unchanged in \<open>auto simp: revoked_kept_def\<close>)
next
  case (step_put env path cl raw resp)
  from step_put(2) show ?thesis
    by (cases rule: do_PUT_effect) (use keys_unchanged in \<open>auto simp: revoked_kept_def\<close>)
next
  case (step_begin hm now now' ts inst ref_id q res)
  from step_begin(2) show ?thesis
    by (cases rule: authorize_transfer_effect) (auto simp: revoked_kept_def pin_transfer_def bindE_Inr_iff)
next
  case (step_claim token now t)
  then show ?thesis by (auto simp: claim_cleanup_task_def Let_def revoked_kept_def split: option.splits)
next
  case (step_clean now now' task res)
  then show ?thesis by (auto simp: revoked_kept_def dest: run_cleanup_keys)
qed (auto simp: revoked_kept_def heartbeat_transfer_def release_transfer_def cleanup_failed_def)

lemma steps_wf_keys: "steps d d' \<Longrightarrow> wf_keys d \<Longrightarrow> wf_keys d'"
  by (induction rule: steps.induct) (blast intro: wf_keys_step)+

lemma steps_revoked_kept: "steps d d' \<Longrightarrow> wf_keys d \<Longrightarrow> revoked_kept d d'"
proof (induction rule: steps.induct)
  case (steps_step d d' e d'')
  then have "wf_keys d'" by (blast intro: steps_wf_keys)
  from step_revoked_kept [OF steps_step.hyps(2) this] steps_step show ?case by (auto simp: revoked_kept_def)
qed (simp add: revoked_kept_def)

end
