(* ===== verification/Demo.thy ===== *)
theory Demo
  imports Isolation "HOL-Library.Code_Target_Nat"
begin

text \<open>
  A concrete run of the service, evaluated in the kernel: create a zone, install a key, publish
  a changeset.  The witnesses of the properties start from these databases.
\<close>

definition demo_env :: "(string \<times> json) list \<Rightarrow> int \<Rightarrow> api_env" where
  "demo_env body ts = \<lparr>a_sha256 = (\<lambda>s. ''f''), a_loads = (\<lambda>_. Some (JObj body)), a_unquote = (\<lambda>s. s), a_now = ts, a_ts = ts,
     a_ts' = ts, a_secret = [1, 2, 3], a_ping = True, a_dns_ready = Some (True, True)\<rparr>"

definition demo_post :: "string \<Rightarrow> (string \<times> json) list \<Rightarrow> int \<Rightarrow> db \<Rightarrow> response \<times> db" where
  "demo_post path body ts d = do_POST (demo_env body ts) path (Some ''1'') [0] d"

definition demo_soa :: "int \<Rightarrow> (string \<times> json) list" where
  "demo_soa serial = [(''mname'', JStr ''n.a.''), (''rname'', JStr ''h.a.''), (''serial'', JInt serial),
     (''refresh'', JInt 7200), (''retry'', JInt 3600), (''expire'', JInt 1209600), (''minimum'', JInt 3600)]"

definition demo_create :: "(string \<times> json) list" where
  "demo_create = [(''name'', JStr ''a.''), (''serial'', JInt 1), (''soa'', JObj (demo_soa 1)),
     (''ns'', JList [JStr ''n.a.''])]"

definition demo_key :: "(string \<times> json) list" where
  "demo_key = [(''keyId'', JStr ''k1''), (''keyName'', JStr ''k.'')]"

definition demo_ops :: "int \<Rightarrow> json list" where
  "demo_ops serial = [
     JObj [(''action'', JStr ''replace''), (''name'', JStr ''@''), (''type'', JStr ''SOA''), (''records'', JList [JObj (demo_soa serial)])],
     JObj [(''action'', JStr ''replace''), (''name'', JStr ''w''), (''type'', JStr ''A''), (''records'', JList [JObj [(''address'', JStr ''192.0.2.1'')]])]]"

definition demo_publish :: "int \<Rightarrow> (string \<times> json) list" where
  "demo_publish serial = [(''requestId'', JStr ''r1''), (''baseSerial'', JInt (serial - 1)), (''nextSerial'', JInt serial),
     (''changes'', JList (demo_ops serial))]"

definition demo1 :: db where
  "demo1 =
     \<lparr>zones = [\<lparr>z_name = ''a.'', z_current_serial = 1, z_current_version = 0,
     z_retain_versions = 10, z_record_count = 2, z_rrset_count = 2, z_created_at = 1000,
     z_updated_at = 1000\<rparr>], versions = [\<lparr>v_zone = ''a.'', v_version_id = 0, v_serial =
     1, v_request_id = ''__create__'', v_created_at = 1000\<rparr>], records = [\<lparr>r_zone =
     ''a.'', r_version_id = 0, r_name = ''a.'', r_rtype = ''SOA'', r_ttl = 3600, r_rdata = Soa
     \<lparr>s_mname = ''n.a.'', s_rname = ''h.a.'', s_serial = 1, s_refresh = 7200, s_retry = 3600,
     s_expire = 1209600, s_minimum = 3600\<rparr>, r_rdata_wire = [1, 110, 1, 97, 0, 1, 104, 1, 97,
     0, 0, 0, 0, 1, 0, 0, 28, 32, 0, 0, 14, 16, 0, 18, 117, 0, 0, 0, 14, 16]\<rparr>, \<lparr>r_zone
     = ''a.'', r_version_id = 0, r_name = ''a.'', r_rtype = ''NS'', r_ttl = 3600, r_rdata = Target
     ''n.a.'', r_rdata_wire = [1, 110, 1, 97, 0]\<rparr>], changes = [], publish_requests = [], keys
     = [], transfer_refs = [], cleanup_tasks = [], next_task_id = 1\<rparr>"

definition demo2 :: db where
  "demo2 =
     \<lparr>zones = [\<lparr>z_name = ''a.'', z_current_serial = 1, z_current_version = 0,
     z_retain_versions = 10, z_record_count = 2, z_rrset_count = 2, z_created_at = 1000,
     z_updated_at = 1000\<rparr>], versions = [\<lparr>v_zone = ''a.'', v_version_id = 0, v_serial =
     1, v_request_id = ''__create__'', v_created_at = 1000\<rparr>], records = [\<lparr>r_zone =
     ''a.'', r_version_id = 0, r_name = ''a.'', r_rtype = ''SOA'', r_ttl = 3600, r_rdata = Soa
     \<lparr>s_mname = ''n.a.'', s_rname = ''h.a.'', s_serial = 1, s_refresh = 7200, s_retry = 3600,
     s_expire = 1209600, s_minimum = 3600\<rparr>, r_rdata_wire = [1, 110, 1, 97, 0, 1, 104, 1, 97,
     0, 0, 0, 0, 1, 0, 0, 28, 32, 0, 0, 14, 16, 0, 18, 117, 0, 0, 0, 14, 16]\<rparr>, \<lparr>r_zone
     = ''a.'', r_version_id = 0, r_name = ''a.'', r_rtype = ''NS'', r_ttl = 3600, r_rdata = Target
     ''n.a.'', r_rdata_wire = [1, 110, 1, 97, 0]\<rparr>], changes = [], publish_requests = [], keys
     = [\<lparr>k_zone = ''a.'', k_key_id = ''k1'', k_gen = 0, k_key_name = ''k.'', k_secret = [1,
     2, 3], k_state = ACTIVE, k_created_at = 2000, k_expires_at = None, k_revoked_at =
     None\<rparr>], transfer_refs = [], cleanup_tasks = [], next_task_id = 1\<rparr>"

definition demo3 :: db where
  "demo3 =
     \<lparr>zones = [\<lparr>z_name = ''a.'', z_current_serial = 2, z_current_version = 1,
     z_retain_versions = 10, z_record_count = 3, z_rrset_count = 3, z_created_at = 1000,
     z_updated_at = 3000\<rparr>], versions = [\<lparr>v_zone = ''a.'', v_version_id = 0, v_serial =
     1, v_request_id = ''__create__'', v_created_at = 1000\<rparr>, \<lparr>v_zone = ''a.'',
     v_version_id = 1, v_serial = 2, v_request_id = ''r1'', v_created_at = 3000\<rparr>], records =
     [\<lparr>r_zone = ''a.'', r_version_id = 0, r_name = ''a.'', r_rtype = ''SOA'', r_ttl = 3600,
     r_rdata = Soa \<lparr>s_mname = ''n.a.'', s_rname = ''h.a.'', s_serial = 1, s_refresh = 7200,
     s_retry = 3600, s_expire = 1209600, s_minimum = 3600\<rparr>, r_rdata_wire = [1, 110, 1, 97, 0,
     1, 104, 1, 97, 0, 0, 0, 0, 1, 0, 0, 28, 32, 0, 0, 14, 16, 0, 18, 117, 0, 0, 0, 14, 16]\<rparr>,
     \<lparr>r_zone = ''a.'', r_version_id = 0, r_name = ''a.'', r_rtype = ''NS'', r_ttl = 3600,
     r_rdata = Target ''n.a.'', r_rdata_wire = [1, 110, 1, 97, 0]\<rparr>, \<lparr>r_zone = ''a.'',
     r_version_id = 1, r_name = ''a.'', r_rtype = ''NS'', r_ttl = 3600, r_rdata = Target ''n.a.'',
     r_rdata_wire = [1, 110, 1, 97, 0]\<rparr>, \<lparr>r_zone = ''a.'', r_version_id = 1, r_name =
     ''w.a.'', r_rtype = ''A'', r_ttl = 3600, r_rdata = Address ''192.0.2.1'', r_rdata_wire = [192,
     0, 2, 1]\<rparr>, \<lparr>r_zone = ''a.'', r_version_id = 1, r_name = ''a.'', r_rtype =
     ''SOA'', r_ttl = 3600, r_rdata = Soa \<lparr>s_mname = ''n.a.'', s_rname = ''h.a.'', s_serial =
     2, s_refresh = 7200, s_retry = 3600, s_expire = 1209600, s_minimum = 3600\<rparr>, r_rdata_wire
     = [1, 110, 1, 97, 0, 1, 104, 1, 97, 0, 0, 0, 0, 2, 0, 0, 28, 32, 0, 0, 14, 16, 0, 18, 117, 0,
     0, 0, 14, 16]\<rparr>], changes = [\<lparr>c_zone = ''a.'', c_version_id = 1, c_seq = 1, c_op =
     DEL, c_name = ''a.'', c_rtype = ''SOA'', c_ttl = 3600, c_rdata = Soa \<lparr>s_mname =
     ''n.a.'', s_rname = ''h.a.'', s_serial = 1, s_refresh = 7200, s_retry = 3600, s_expire =
     1209600, s_minimum = 3600\<rparr>, c_rdata_wire = [1, 110, 1, 97, 0, 1, 104, 1, 97, 0, 0, 0, 0,
     1, 0, 0, 28, 32, 0, 0, 14, 16, 0, 18, 117, 0, 0, 0, 14, 16]\<rparr>, \<lparr>c_zone = ''a.'',
     c_version_id = 1, c_seq = 2, c_op = ADD, c_name = ''a.'', c_rtype = ''SOA'', c_ttl = 3600,
     c_rdata = Soa \<lparr>s_mname = ''n.a.'', s_rname = ''h.a.'', s_serial = 2, s_refresh = 7200,
     s_retry = 3600, s_expire = 1209600, s_minimum = 3600\<rparr>, c_rdata_wire = [1, 110, 1, 97, 0,
     1, 104, 1, 97, 0, 0, 0, 0, 2, 0, 0, 28, 32, 0, 0, 14, 16, 0, 18, 117, 0, 0, 0, 14, 16]\<rparr>,
     \<lparr>c_zone = ''a.'', c_version_id = 1, c_seq = 3, c_op = ADD, c_name = ''w.a.'', c_rtype =
     ''A'', c_ttl = 3600, c_rdata = Address ''192.0.2.1'', c_rdata_wire = [192, 0, 2, 1]\<rparr>],
     publish_requests = [\<lparr>p_zone = ''a.'', p_request_id = ''r1'', p_fingerprint = ''f'',
     p_status = COMMITTED 1 2, p_base_serial = 1, p_next_serial = 2, p_created_at = 3000\<rparr>],
     keys = [\<lparr>k_zone = ''a.'', k_key_id = ''k1'', k_gen = 0, k_key_name = ''k.'', k_secret =
     [1, 2, 3], k_state = ACTIVE, k_created_at = 2000, k_expires_at = None, k_revoked_at =
     None\<rparr>], transfer_refs = [], cleanup_tasks = [\<lparr>t_task_id = 1, t_zone = ''a.'',
     t_state = PENDING, t_token = None, t_leased_at = None, t_lease_expires = None, t_attempts = 0,
     t_last_error = None, t_created_at = 3000, t_finished_at = None\<rparr>], next_task_id =
     2\<rparr>"

text \<open>Each database is what the handler leaves.\<close>

lemma demo1_run: "demo_post ''/v1/zones'' demo_create 1000 empty_db = (fst (demo_post ''/v1/zones'' demo_create 1000 empty_db), demo1)"
proof -
  have "snd (demo_post ''/v1/zones'' demo_create 1000 empty_db) = demo1" by code_simp
  then show ?thesis by (metis prod.collapse)
qed

lemma demo2_run: "demo_post ''/v1/zones/a./keys'' demo_key 2000 demo1 = (fst (demo_post ''/v1/zones/a./keys'' demo_key 2000 demo1), demo2)"
proof -
  have "snd (demo_post ''/v1/zones/a./keys'' demo_key 2000 demo1) = demo2" by code_simp
  then show ?thesis by (metis prod.collapse)
qed

lemma demo3_run: "demo_post ''/v1/zones/a./publish'' (demo_publish 2) 3000 demo2 =
    (fst (demo_post ''/v1/zones/a./publish'' (demo_publish 2) 3000 demo2), demo3)"
proof -
  have "snd (demo_post ''/v1/zones/a./publish'' (demo_publish 2) 3000 demo2) = demo3" by code_simp
  then show ?thesis by (metis prod.collapse)
qed

lemma demo_reachable: "reachable demo1" "reachable demo2" "reachable demo3"
proof -
  have g: "ttl_guard (demo_env demo_create 1000) (Some ''1'') [0]" "ttl_guard (demo_env demo_key 2000) (Some ''1'') [0]"
    "ttl_guard (demo_env (demo_publish 2) 3000) (Some ''1'') [0]" by code_simp+
  have 1: "step empty_db Request demo1" using step_post [OF demo1_run [unfolded demo_post_def] g(1)] .
  have 2: "step demo1 Request demo2" using step_post [OF demo2_run [unfolded demo_post_def] g(2)] .
  have 3: "step demo2 Request demo3" using step_post [OF demo3_run [unfolded demo_post_def] g(3)] .
  show "reachable demo1" by (rule reach_step [OF reach_start 1])
  then show "reachable demo2" by (rule reach_step [OF _ 2])
  then show "reachable demo3" by (rule reach_step [OF _ 3])
qed

end
