(* ===== verification/Store_Theorems.thy ===== *)
theory Store_Theorems
  imports History Demo
begin

text \<open>
  The properties of the zone store: the invariant of reachable databases, what a publish
  commits, what a failed one leaves, exactly-once outcomes, and immutable snapshots.
\<close>

subsection \<open>The demo publish at the store\<close>

lemma demo_publish_run:
  "publish 3000 ''a.'' ''r1'' 1 2 (JList (demo_ops 2)) ''f'' demo2 =
     (Inr \<lparr>pr_zone = ''a.'', pr_request_id = ''r1'', pr_version_id = 1, pr_serial = 2, pr_replayed = False\<rparr>, demo3)"
  by code_simp

lemma committed_result:
  assumes "publish ts zname rid base nxt ops fp d = (Inr r, d')" and "\<not> pr_replayed r"
  obtains z rs changed where "find_zone d zname = Some z" "z_name z = zname" "z \<in> set (zones d)"
    "find_request d zname rid = None"
    "plan_publish d z base nxt ops = Inr (rs, changed)" "commit_publish ts z rid fp base nxt rs changed d = Inr d'"
    "r = \<lparr>pr_zone = zname, pr_request_id = rid, pr_version_id = z_current_version z + 1, pr_serial = nxt,
       pr_replayed = False\<rparr>"
  using assms(1)
proof (cases rule: publish_cases)
  case (replay z l)
  with assms(2) show ?thesis by (auto simp: ledger_result_def api_error_def split: if_splits request_status.splits)
next
  case (committed z rs changed)
  with find_zone_name [OF committed(1)] that show ?thesis by auto
qed simp_all

lemma commit_ledger:
  assumes "commit_publish ts z rid fp base nxt rs changed d = Inr d'" and "find_request d (z_name z) rid = None"
  shows "find_request d' (z_name z) rid =
    Some (request_entry ts (z_name z) rid fp (COMMITTED (z_current_version z + 1) nxt) base nxt)"
  using assms(1)
proof (rule commit_publish_Inr)
  assume "publish_requests d' = publish_requests d @
      [request_entry ts (z_name z) rid fp (COMMITTED (z_current_version z + 1) nxt) base nxt]"
  with assms(2) show ?thesis
    by (simp add: find_request_def find_append_None request_entry_def)
qed

lemma commit_zone_row:
  assumes z: "find_zone d zname = Some z" and c: "commit_publish ts z rid fp base nxt rs changed d = Inr d'"
  shows "find_zone d' zname = Some (z\<lparr>z_current_serial := nxt, z_current_version := z_current_version z + 1,
    z_record_count := int (count_records rs), z_rrset_count := int (count_rrsets rs), z_updated_at := ts\<rparr>)"
  using c
proof (rule commit_publish_Inr)
  assume "zones d' = update_zone (z_name z) (\<lambda>y. y\<lparr>z_current_serial := nxt,
      z_current_version := z_current_version z + 1, z_record_count := int (count_records rs),
      z_rrset_count := int (count_rrsets rs), z_updated_at := ts\<rparr>) (zones d)"
  from find_zone_update [OF _ _ this, of z] find_zone_name [OF z] z show ?thesis by simp
qed

lemma demo_steps: "steps demo2 demo3"
proof -
  have "ttl_guard (demo_env (demo_publish 2) 3000) (Some ''1'') [0]" by code_simp
  from steps_one [OF step_post [OF demo3_run [unfolded demo_post_def] this]] show ?thesis .
qed

subsection \<open>Properties\<close>

text \<open>
  C5.  Every zone of a reachable database has a contiguous range of retained versions that ends
  with its current one, whose serial is the serial of the zone; each retained version holds
  exactly one apex SOA, with that version's serial, an apex NS record, CNAMEs only alone, one TTL
  per RRset, and only owner names in the zone with records that fit a message; and the
  stored delta between two consecutive retained versions turns the older one into the newer.
\<close>

theorem zone_history_valid:
  assumes "reachable d" and "z \<in> set (zones d)"
  shows "\<exists>lo \<le> z_current_version z. vids d (z_name z) = {lo..z_current_version z} \<and>
    (\<exists>v \<in> set (versions d). v_zone v = z_name z \<and> v_version_id v = z_current_version z \<and> v_serial v = z_current_serial z) \<and>
    (\<forall>v \<in> set (versions d). v_zone v = z_name z \<longrightarrow> 0 \<le> v_serial v \<and> v_serial v \<le> 0xFFFFFFFF \<and>
       valid_content (z_name z) (v_serial v) (content d (z_name z) (v_version_id v)) \<and>
       servable_content (z_name z) (content d (z_name z) (v_version_id v))) \<and>
    (\<forall>n \<in> {lo..<z_current_version z}. delta_ok d (z_name z) n)"
proof -
  from reachable_wf [OF assms(1)] have wf: "wf_db d" .
  then have h: "history_ok d z" and ok: "\<forall>v \<in> set (versions d). version_ok d v"
    and dl: "\<forall>zone n. n \<in> vids d zone \<longrightarrow> n + 1 \<in> vids d zone \<longrightarrow> delta_ok d zone n"
    using assms(2) by (simp_all add: wf_db_def)
  from h obtain lo where lo: "lo \<le> z_current_version z" "vids d (z_name z) = {lo..z_current_version z}"
    and cur: "\<exists>v \<in> set (versions d). v_zone v = z_name z \<and> v_version_id v = z_current_version z \<and> v_serial v = z_current_serial z"
    by (auto simp: history_ok_def)
  have "delta_ok d (z_name z) n" if "n \<in> {lo..<z_current_version z}" for n
    using dl lo that by simp
  moreover have "0 \<le> v_serial v \<and> v_serial v \<le> 0xFFFFFFFF \<and>
       valid_content (z_name z) (v_serial v) (content d (z_name z) (v_version_id v)) \<and>
       servable_content (z_name z) (content d (z_name z) (v_version_id v))"
    if "v \<in> set (versions d)" "v_zone v = z_name z" for v
    using ok that by (auto simp: version_ok_def)
  ultimately show ?thesis using lo cur by (intro exI [of _ lo]) simp
qed

theorem zone_history_valid_witness:
  "\<exists>z \<in> set (zones demo3). \<exists>lo. vids demo3 (z_name z) = {lo..z_current_version z}"
proof -
  have "zones demo3 \<noteq> []" by (simp add: demo3_def)
  then have "hd (zones demo3) \<in> set (zones demo3)" by simp
  with zone_history_valid [OF demo_reachable(3) this] show ?thesis by blast
qed

text \<open>
  C4.  A committed publish does what its changeset says: the base was current, the new serial is
  ahead of it, and the content of the new version is the RRset map of the old version after the
  edits of the changeset, in order; the zone moves to the new version and serial, the ledger
  records the commit, the stored delta is exact, and no other version of any zone changes.
\<close>

theorem publish_commits:
  assumes "reachable d" and "publish ts zname rid base nxt (JList ops) fp d = (Inr r, d')" and "\<not> pr_replayed r"
  shows "\<exists>z z' es. find_zone d zname = Some z \<and> find_zone d' zname = Some z' \<and>
    compare base nxt = GREATER \<and> compare (z_current_serial z) base = EQUAL \<and>
    z_current_version z' = z_current_version z + 1 \<and> z_current_serial z' = nxt \<and>
    read_edits zname 0 ops = Inr es \<and>
    map_content (abs_rrsets (load_rrsets d zname (z_current_version z))) = content d zname (z_current_version z) \<and>
    content d' zname (z_current_version z') =
      map_content (edited es (abs_rrsets (load_rrsets d zname (z_current_version z)))) \<and>
    delta_ok d' zname (z_current_version z) \<and>
    (\<forall>zone n. (zone, n) \<noteq> (zname, z_current_version z') \<longrightarrow> content d' zone n = content d zone n) \<and>
    find_request d' zname rid =
      Some (request_entry ts zname rid fp (COMMITTED (z_current_version z') nxt) base nxt)"
proof -
  note wf = reachable_wf [OF assms(1)]
  obtain z rs changed where z: "find_zone d zname = Some z" "z_name z = zname" "z \<in> set (zones d)"
    and new: "find_request d zname rid = None" and p: "plan_publish d z base nxt (JList ops) = Inr (rs, changed)"
    and c: "commit_publish ts z rid fp base nxt rs changed d = Inr d'"
    using assms(2,3) by (rule committed_result)
  obtain es where v: "read_edits (z_name z) 0 ops = Inr es"
    "content d' (z_name z) (z_current_version z + 1) =
       map_content (edited es (abs_rrsets (load_rrsets d (z_name z) (z_current_version z))))"
    "delta_ok d' (z_name z) (z_current_version z)"
    "\<And>zone n. (zone, n) \<noteq> (z_name z, z_current_version z + 1) \<Longrightarrow> content d' zone n = content d zone n"
    "map_content (abs_rrsets (load_rrsets d (z_name z) (z_current_version z))) =
       content d (z_name z) (z_current_version z)"
    using wf z(3) p c by (rule committed_version) (rule that, assumption, assumption, assumption, blast, assumption)
  obtain z' where z': "find_zone d' zname = Some z'" "z_current_version z' = z_current_version z + 1" "z_current_serial z' = nxt"
    using commit_zone_row [OF z(1) c] by (rule that) simp_all
  show ?thesis
    using z v z' plan_publish_Inr(1,2) [OF p] commit_ledger [OF c] new by (intro exI [of _ z] exI [of _ z'] exI [of _ es]) simp
qed

theorem publish_commits_witness:
  "\<exists>z z' es. find_zone demo2 ''a.'' = Some z \<and> find_zone demo3 ''a.'' = Some z' \<and>
    read_edits ''a.'' 0 (demo_ops 2) = Inr es \<and>
    content demo3 ''a.'' (z_current_version z') =
      map_content (edited es (abs_rrsets (load_rrsets demo2 ''a.'' (z_current_version z))))"
  using publish_commits [OF demo_reachable(2) demo_publish_run] by auto

text \<open>
  C20.  A publish that fails changes no zone data: either the database is as before, or the only
  change is one FAILED row in the ledger, for a request that was not there, and then the error is
  one of the semantic failures and names itself in the row.
\<close>

theorem publish_failure:
  assumes "publish ts zname rid base nxt ops fp d = (Inl e, d')"
  shows "d' = d \<or> (\<exists>a. e = ApiError a \<and> ae_code a \<in> set LEDGERABLE_FAILURES \<and> find_request d zname rid = None \<and>
    d' = d\<lparr>publish_requests := publish_requests d @ [request_entry ts zname rid fp (FAILED a) base nxt]\<rparr>)"
  using assms
proof (cases rule: publish_cases)
  case (failed z a)
  with find_zone_name [OF failed(1)] show ?thesis by auto
qed simp_all

theorem publish_failure_witness:
  "\<exists>e d' a. publish 4000 ''a.'' ''r2'' 1 2 (JList (demo_ops 2)) ''g'' demo3 = (Inl e, d') \<and>
    d' = demo3\<lparr>publish_requests := publish_requests demo3 @ [request_entry 4000 ''a.'' ''r2'' ''g'' (FAILED a) 1 2]\<rparr>"
proof -
  have "length (publish_requests (snd (publish 4000 ''a.'' ''r2'' 1 2 (JList (demo_ops 2)) ''g'' demo3))) \<noteq>
      length (publish_requests demo3)"
    and "\<not> isl (fst (publish 4000 ''a.'' ''r2'' 1 2 (JList (demo_ops 2)) ''g'' demo3)) = False" by code_simp+
  then obtain e d' where p: "publish 4000 ''a.'' ''r2'' 1 2 (JList (demo_ops 2)) ''g'' demo3 = (Inl e, d')"
    and "d' \<noteq> demo3" by (metis isl_def prod.collapse snd_conv)
  with publish_failure [OF p] show ?thesis by blast
qed


subsection \<open>Stale bases\<close>

lemma check_forward_ok: "compare base nxt = GREATER \<Longrightarrow> check_forward base nxt = Inr ()"
  by (simp add: check_forward_def is_forward_def Let_def)

lemma compare_moved: "compare a b = GREATER \<Longrightarrow> compare b a \<noteq> EQUAL"
  by (metis compare_EQUAL_iff compare_GREATER_iff cancel_comm_monoid_add_class.diff_cancel less_irrefl mod_0
      mod_diff_cong)

lemma stale_base:
  assumes z: "find_zone d zname = Some z" and new: "find_request d (z_name z) rid = None"
    and f: "compare base nxt = GREATER" and stale: "compare (z_current_serial z) base \<noteq> EQUAL"
  shows "\<exists>a. ae_code a = VERSION_CONFLICT \<and> publish ts zname rid base nxt ops fp d =
    (Inl (ApiError a), d\<lparr>publish_requests := publish_requests d @ [request_entry ts (z_name z) rid fp (FAILED a) base nxt]\<rparr>)"
proof -
  obtain a where a: "check_base (z_current_serial z) base = Inl (ApiError a)" "ae_code a = VERSION_CONFLICT"
    using stale by (simp add: check_base_def Let_def api_error_def)
  then have "plan_publish d z base nxt ops = Inl (ApiError a)"
    by (simp add: plan_publish_def Let_def check_forward_ok [OF f])
  then have "publish ts zname rid base nxt ops fp d =
      (Inl (ApiError a), fail_or_rollback ts (z_name z) rid fp base nxt a d d)"
    by (simp add: publish_def Let_def z new)
  with a(2) new show ?thesis by (auto simp: fail_or_rollback_def LEDGERABLE_FAILURES_def)
qed

text \<open>
  C11.  No update is lost: when a publish has committed, a second one that was prepared against the
  same base serial is refused with VERSION_CONFLICT, whatever it wants to change, as soon as its
  request id is new and its own serials are in order; it changes nothing but the ledger, where
  the refusal is recorded.
\<close>

theorem lost_update_refused:
  assumes "publish ts zname rid base nxt (JList ops) fp d = (Inr r, d')" and "\<not> pr_replayed r"
    and "find_request d' zname rid2 = None" and "compare base nxt2 = GREATER"
  shows "\<exists>a. ae_code a = VERSION_CONFLICT \<and> publish ts2 zname rid2 base nxt2 (JList ops2) fp2 d' =
    (Inl (ApiError a),
     d'\<lparr>publish_requests := publish_requests d' @ [request_entry ts2 zname rid2 fp2 (FAILED a) base nxt2]\<rparr>)"
proof -
  obtain z rs changed where z: "find_zone d zname = Some z" "z_name z = zname"
    and p: "plan_publish d z base nxt (JList ops) = Inr (rs, changed)"
    and c: "commit_publish ts z rid fp base nxt rs changed d = Inr d'"
    using assms(1,2) by (rule committed_result)
  obtain z' where z': "find_zone d' zname = Some z'" "z_name z' = zname" "z_current_serial z' = nxt"
    using commit_zone_row [OF z(1) c] by (rule that) (simp_all add: z)
  have "compare (z_current_serial z') base \<noteq> EQUAL"
    using compare_moved [OF plan_publish_Inr(1) [OF p]] z'(3) by simp
  from stale_base [OF z'(1) _ assms(4) this] assms(3) show ?thesis by (simp add: z'(2))
qed

theorem lost_update_refused_witness:
  "\<exists>a. ae_code a = VERSION_CONFLICT \<and>
    fst (publish 4000 ''a.'' ''r2'' 1 3 (JList (demo_ops 3)) ''g'' demo3) = Inl (ApiError a)"
proof -
  have "find_request demo3 ''a.'' ''r2'' = None" "compare 1 3 = GREATER" by code_simp+
  with lost_update_refused [OF demo_publish_run, of "''r2''" 3 4000 "demo_ops 3" "''g''"] show ?thesis by auto
qed

lemma replayed_later:
  assumes "reachable d'" and "publish ts zname rid base nxt (JList ops) fp d = (Inr r, d')" and "\<not> pr_replayed r"
    and "steps d' d2"
  shows "publish ts2 zname rid base2 nxt2 ops2 fp2 d2 =
    (if fp2 = fp then Inr (r\<lparr>pr_replayed := True\<rparr>)
     else Inl (idempotency_conflict (request_entry ts zname rid fp (COMMITTED (pr_version_id r) nxt) base nxt)), d2)"
proof -
  obtain z rs changed where z: "find_zone d zname = Some z" "z_name z = zname" "find_request d zname rid = None"
    and c: "commit_publish ts z rid fp base nxt rs changed d = Inr d'"
    and r: "r = \<lparr>pr_zone = zname, pr_request_id = rid, pr_version_id = z_current_version z + 1, pr_serial = nxt,
       pr_replayed = False\<rparr>"
    using assms(2,3) by (rule committed_result)
  let ?l = "request_entry ts zname rid fp (COMMITTED (z_current_version z + 1) nxt) base nxt"
  have l: "find_request d' zname rid = Some ?l" using commit_ledger [OF c] z by simp
  note commit_zone_row [OF z(1) c]
  moreover obtain ps where k: "zones_kept d' d2" "publish_requests d2 = publish_requests d' @ ps"
    using steps_kept [OF assms(4,1)] by blast
  ultimately obtain z2 where z2: "find_zone d2 zname = Some z2" using find_zone_kept by blast
  then have n: "z_name z2 = zname" using find_zone_name by blast
  have l2: "find_request d2 (z_name z2) rid = Some ?l" using find_request_append [OF l k(2)] n by simp
  show ?thesis
    unfolding publish_replay [OF z2 l2] r
    by (auto simp: request_entry_def ledger_result_def)
qed

text \<open>
  C10.  A publish happens at most once: after a request has committed, the same request id with the
  same fingerprint returns the same version and serial, marked as a replay, and changes nothing,
  however many steps of the service lie between; with another fingerprint it is refused
  as IDEMPOTENCY_CONFLICT, and changes nothing either.
\<close>

theorem publish_exactly_once:
  assumes "reachable d'" and "publish ts zname rid base nxt (JList ops) fp d = (Inr r, d')" and "\<not> pr_replayed r"
    and "steps d' d2"
  shows "publish ts2 zname rid base2 nxt2 ops2 fp2 d2 =
    (if fp2 = fp then Inr (r\<lparr>pr_replayed := True\<rparr>)
     else Inl (idempotency_conflict (request_entry ts zname rid fp (COMMITTED (pr_version_id r) nxt) base nxt)), d2)"
  by (rule replayed_later [OF assms])

theorem publish_exactly_once_witness:
  "publish 9000 ''a.'' ''r1'' 1 2 (JList (demo_ops 2)) ''f'' (heartbeat_transfer 5000 ''r'' demo3) =
    (Inr \<lparr>pr_zone = ''a.'', pr_request_id = ''r1'', pr_version_id = 1, pr_serial = 2, pr_replayed = True\<rparr>,
     heartbeat_transfer 5000 ''r'' demo3)"
  using publish_exactly_once [OF demo_reachable(3) demo_publish_run _ steps_one [OF step_beat]] by simp

subsection \<open>Snapshots\<close>

text \<open>
  C9.  Published versions are immutable: over any run of the service, a version of a zone that
  exists at the end and is not newer than the zone's current version at the start was already
  there at the start, with the same records in the same order, the same delta and the same row.
\<close>

theorem snapshots_immutable:
  assumes "reachable d" and "steps d d'" and "find_zone d zname = Some z" and "n \<le> z_current_version z"
    and "v \<in> set (versions d')" and "v_zone v = zname" and "v_version_id v = n"
  shows "v \<in> set (versions d) \<and> iter_snapshot d' zname n = iter_snapshot d zname n \<and>
    iter_changes d' zname n = iter_changes d zname n"
proof -
  note zz = find_zone_name [OF assms(3)]
  have "n \<in> vids d' zname" using assms(5-7) by (auto simp: mem_vids)
  with steps_kept [OF assms(2,1)] zz assms(4) have k: "n \<in> vids d zname" "same_versions zname n n d d'"
    unfolding history_kept_def by blast+
  from k(1) obtain v0 where v0: "v0 \<in> set (versions d)" "v_zone v0 = zname" "v_version_id v0 = n" by (auto simp: mem_vids)
  then have "v0 \<in> set (versions d')" using k(2) by (auto simp: same_versions_def)
  moreover have "distinct (map version_key (versions d'))"
    using reachable_wf [OF steps_reachable [OF assms(2,1)]] by (simp add: wf_db_def unique_keys_def)
  ultimately have "v = v0"
    using v0 assms(5-7) by (auto simp: distinct_map inj_on_def version_key_def)
  with v0 k(2) show ?thesis by (simp add: same_versions_def iter_snapshot_def iter_changes_def)
qed

theorem snapshots_immutable_witness:
  "iter_snapshot demo3 ''a.'' 0 = iter_snapshot demo2 ''a.'' 0"
proof -
  obtain z where z: "find_zone demo2 ''a.'' = Some z" "0 \<le> z_current_version z"
    by (simp add: find_zone_def demo2_def)
  have "hd (versions demo3) \<in> set (versions demo3)" "v_zone (hd (versions demo3)) = ''a.''"
    "v_version_id (hd (versions demo3)) = 0" by (simp_all add: demo3_def)
  from snapshots_immutable [OF demo_reachable(2) demo_steps z this] show ?thesis by simp
qed

end
