(* ===== verification/Retention_Theorems.thy ===== *)
theory Retention_Theorems
  imports Store_Theorems
begin

text \<open>
  The properties of retention: what a cleanup keeps and what it removes, that running it again
  is harmless, and that the cleanup queue hands a task to one worker at a time.
\<close>

definition demo_task :: task_row where
  "demo_task = \<lparr>t_task_id = 1, t_zone = ''a.'', t_state = PENDING, t_token = None, t_leased_at = None,
     t_lease_expires = None, t_attempts = 0, t_last_error = None, t_created_at = 3000, t_finished_at = None\<rparr>"

lemma demo_zone_row: "\<exists>z. find_zone demo3 ''a.'' = Some z \<and> z_current_version z = 1 \<and> z_retain_versions z = 10"
  by (simp add: find_zone_def demo3_def)

lemma demo_task_row: "demo_task \<in> set (cleanup_tasks demo3)" "t_state demo_task = PENDING" "t_task_id demo_task = 1"
  by (simp_all add: demo_task_def demo3_def)

subsection \<open>Cleanups\<close>

lemma pin_horizon_none:
  assumes "\<And>r. r \<in> set refs \<Longrightarrow> \<not> live_ref zone alive r"
  shows "pin_horizon zone alive refs = NO_PIN"
proof -
  have "filter (live_ref zone alive) refs = []" using assms by (simp add: filter_empty_conv)
  then show ?thesis by (simp add: pin_horizon_def)
qed

lemma filter_dead_idem:
  "filter (\<lambda>r. \<not> dead_ref zone t r) (filter (\<lambda>r. \<not> dead_ref zone t r) xs) = filter (\<lambda>r. \<not> dead_ref zone t r) xs"
  by simp

text \<open>
  C14.  A cleanup never removes what is needed: of a reachable database it keeps, with their rows
  and deltas as they are, every version of another zone, the newest versions of its zone up to
  the retention count and at least the current one, and every version from the oldest that
  a transfer with a live pin may still read.
\<close>

theorem cleanup_retains:
  assumes "reachable d" and "find_zone d (t_zone task) = Some z" and "run_cleanup now now' task d = (res, d')"
    and "n \<in> vids d zone"
    and "zone \<noteq> t_zone task \<or> z_current_version z - max 1 (z_retain_versions z) < n \<or>
      (\<exists>r \<in> set (transfer_refs d). f_zone r = zone \<and> f_state r = OPEN \<and> now - 300000 < f_last_seen r \<and>
         min (f_version_id r) (f_min_version r) \<le> n)"
  shows "n \<in> vids d' zone \<and> content d' zone n = content d zone n \<and> iter_changes d' zone n = iter_changes d zone n"
  using reachable_wf [OF assms(1)] assms(2,3)
proof (rule cleanup_vids)
  fix b
  assume b: "b \<le> z_current_version z - max 1 (z_retain_versions z) + 1"
    and pins: "\<And>r. r \<in> set (transfer_refs d) \<Longrightarrow> live_ref (t_zone task) (now - 300000) r \<Longrightarrow>
        b \<le> f_version_id r \<and> b \<le> f_min_version r"
    and vid: "\<And>zone n. n \<in> vids d' zone \<longleftrightarrow> n \<in> vids d zone \<and> \<not> (zone = t_zone task \<and> n < b)"
    and same: "\<And>zone n. n \<in> vids d' zone \<Longrightarrow> content d' zone n = content d zone n"
      "\<And>zone n. n \<in> vids d' zone \<Longrightarrow> iter_changes d' zone n = iter_changes d zone n"
  have "\<not> (zone = t_zone task \<and> n < b)"
  proof
    assume c: "zone = t_zone task \<and> n < b"
    with assms(5) b obtain r where "r \<in> set (transfer_refs d)" "live_ref (t_zone task) (now - 300000) r"
      "min (f_version_id r) (f_min_version r) \<le> n" by (auto simp: live_ref_def)
    with pins [of r] c show False by auto
  qed
  with assms(4) vid have "n \<in> vids d' zone" by blast
  with same show ?thesis by blast
qed

theorem cleanup_retains_witness:
  "\<exists>res d'. run_cleanup 9000 9000 demo_task demo3 = (res, d') \<and> 0 \<in> vids d' ''a.''"
proof -
  obtain res d' where r: "run_cleanup 9000 9000 demo_task demo3 = (res, d')" by (cases "run_cleanup 9000 9000 demo_task demo3")
  obtain z where z: "find_zone demo3 ''a.'' = Some z" "z_current_version z = 1" "z_retain_versions z = 10"
    using demo_zone_row by blast
  have v: "0 \<in> vids demo3 ''a.''" by (auto simp: mem_vids demo3_def)
  have "find_zone demo3 (t_zone demo_task) = Some z" by (simp add: demo_task_def z)
  from cleanup_retains [OF demo_reachable(3) this r v] z r show ?thesis by auto
qed

text \<open>
  A cleanup removes the rest: when no transfer of the zone has a live pin, the versions of the
  zone that are left are exactly the retained ones among the newest, as many as the retention
  count says (for version numbers below the constant that stands for "no pin").
\<close>

theorem cleanup_trims:
  assumes "reachable d" and "find_zone d (t_zone task) = Some z" and "run_cleanup now now' task d = (res, d')"
    and "\<forall>r \<in> set (transfer_refs d). f_zone r = t_zone task \<longrightarrow> f_state r = OPEN \<longrightarrow> f_last_seen r \<le> now - 300000"
    and "z_current_version z \<le> 999999999"
  shows "vids d' (t_zone task) =
    vids d (t_zone task) \<inter> {z_current_version z - max 1 (z_retain_versions z) + 1..z_current_version z}"
  using reachable_wf [OF assms(1)] assms(2,3)
proof (rule cleanup_vids)
  fix b
  assume b: "cr_delete_before res = Some b"
    and vid: "\<And>zone n. n \<in> vids d' zone \<longleftrightarrow> n \<in> vids d zone \<and> \<not> (zone = t_zone task \<and> n < b)"
  let ?refs = "filter (\<lambda>r. \<not> dead_ref (t_zone task) (now - REF_STALE_SECONDS * 1000) r) (transfer_refs d)"
  have "pin_horizon (t_zone task) (now - REF_STALE_SECONDS * 1000) ?refs = NO_PIN"
    using assms(4) by (intro pin_horizon_none) (auto simp: live_ref_def REF_STALE_SECONDS_def)
  then have "b = min (z_current_version z - max 1 (z_retain_versions z) + 1) NO_PIN"
    using assms(2,3) b by (auto simp: run_cleanup_def Let_def)
  then have "b = z_current_version z - max 1 (z_retain_versions z) + 1"
    using assms(5) by (simp add: NO_PIN_def)
  moreover have "n \<le> z_current_version z" if "n \<in> vids d (t_zone task)" for n
    using vids_current [OF reachable_wf [OF assms(1)]] find_zone_name [OF assms(2)] that by metis
  ultimately show ?thesis using vid by auto
qed

theorem cleanup_trims_witness:
  "\<exists>res d'. run_cleanup 9000 9000 demo_task demo3 = (res, d') \<and> vids d' ''a.'' = vids demo3 ''a.'' \<inter> {-8..1}"
proof -
  obtain res d' where r: "run_cleanup 9000 9000 demo_task demo3 = (res, d')" by (cases "run_cleanup 9000 9000 demo_task demo3")
  obtain z where z: "find_zone demo3 ''a.'' = Some z" "z_current_version z = 1" "z_retain_versions z = 10"
    using demo_zone_row by blast
  have "find_zone demo3 (t_zone demo_task) = Some z" by (simp add: demo_task_def z)
  from cleanup_trims [OF demo_reachable(3) this r] z r show ?thesis
    by (auto simp: demo_task_def demo3_def)
qed

text \<open>
  Cleanups may be run again: a second cleanup of the same zone with the same clock reading,
  as after a worker that died before its task was marked, deletes nothing.
\<close>

theorem cleanup_idempotent:
  assumes "run_cleanup now now1 task d = (res1, d1)" and "run_cleanup now now2 task2 d1 = (res2, d2)"
    and "t_zone task2 = t_zone task"
  shows "cr_deleted res2 = [] \<and> zones d2 = zones d1 \<and> versions d2 = versions d1 \<and> records d2 = records d1 \<and>
    changes d2 = changes d1 \<and> transfer_refs d2 = transfer_refs d1"
proof (cases "find_zone d (t_zone task)")
  case None
  with assms(1) have "d1 = finish_task now (t_task_id task) d" by (auto simp: run_cleanup_def)
  moreover from this None have "find_zone d1 (t_zone task) = None" by (simp add: find_zone_def)
  ultimately show ?thesis using assms(2,3) by (auto simp: run_cleanup_def)
next
  case (Some z)
  let ?Z = "t_zone task" and ?al = "now - REF_STALE_SECONDS * 1000"
  let ?refs = "filter (\<lambda>r. \<not> dead_ref ?Z ?al r) (transfer_refs d)"
  let ?b = "min (z_current_version z - max 1 (z_retain_versions z) + 1) (pin_horizon ?Z ?al ?refs)"
  let ?cand = "sort (map v_version_id (filter (\<lambda>v. v_zone v = ?Z \<and> v_version_id v < ?b) (versions d)))"
  from assms(1) Some have d1: "d1 = finish_task now1 (t_task_id task) (fold (delete_version ?Z) ?cand (d\<lparr>transfer_refs := ?refs\<rparr>))"
    by (simp add: run_cleanup_def Let_def)
  have s: "zones d1 = zones d" "transfer_refs d1 = ?refs"
    "versions d1 = filter (\<lambda>v. \<not> (v_zone v = ?Z \<and> v_version_id v \<in> set ?cand)) (versions d)"
    by (simp_all add: d1 fold_delete_version)
  have f: "find_zone d1 ?Z = Some z" using Some by (simp add: find_zone_def s)
  have "filter (\<lambda>v. v_zone v = ?Z \<and> v_version_id v < ?b) (versions d1) = []"
    by (auto simp: s filter_empty_conv)
  then have c: "sort (map v_version_id (filter (\<lambda>v. v_zone v = ?Z \<and> v_version_id v < ?b) (versions d1))) = []" by simp
  have fr: "filter (\<lambda>r. \<not> dead_ref ?Z ?al r) (transfer_refs d1) = transfer_refs d1" by (simp add: s)
  have e: "d1\<lparr>transfer_refs := transfer_refs d1\<rparr> = d1" by simp
  have "run_cleanup now now2 task2 d1 =
      (\<lparr>cr_zone = ?Z, cr_deleted = [], cr_delete_before = Some ?b, cr_horizon = Some (pin_horizon ?Z ?al ?refs)\<rparr>,
       finish_task now2 (t_task_id task2) d1)"
    unfolding run_cleanup_def Let_def assms(3) f option.case fr unfolding s(2)
    using c e [unfolded s(2)] by simp
  with assms(2) show ?thesis by auto
qed

theorem cleanup_idempotent_witness:
  "\<exists>res1 d1 res2 d2. run_cleanup 9000 9000 demo_task demo3 = (res1, d1) \<and>
    run_cleanup 9000 9001 demo_task d1 = (res2, d2) \<and> cr_deleted res2 = []"
proof -
  obtain res1 d1 where r1: "run_cleanup 9000 9000 demo_task demo3 = (res1, d1)" by (metis surj_pair)
  obtain res2 d2 where r2: "run_cleanup 9000 9001 demo_task d1 = (res2, d2)" by (metis surj_pair)
  from cleanup_idempotent [OF r1 r2 refl] r1 r2 show ?thesis by blast
qed

subsection \<open>The queue\<close>

text \<open>
  C31.  A cleanup task has one worker at a time: in a reachable database, a claim with a fresh
  token neither returns a task whose lease has not expired nor disturbs that lease, and the
  task it returns is leased to the caller for thirty seconds.
\<close>

theorem claim_exclusive:
  assumes "reachable d" and "claim_cleanup_task token now d = (Some t, d')"
    and "\<forall>u \<in> set (cleanup_tasks d). t_token u \<noteq> Some token" and "leased tok e i d" and "now \<le> e"
  shows "t_task_id t \<noteq> i \<and> leased tok e i d' \<and> leased token (now + 30) (t_task_id t) d'"
  by (rule claim_respects_lease [OF assms(2,3) reachable_wf_tasks [OF assms(1)] assms(4,5)])

text \<open>A worker holds the first task while a change of the retention count queues a second.\<close>

definition demo_leased :: db where
  "demo_leased = snd (do_PUT (demo_env [(''retainVersions'', JInt 5)] 5000) ''/v1/zones/a./retention'' (Some ''1'') [0]
     (snd (claim_cleanup_task ''w1'' 10 demo3)))"

lemma demo_leased_reachable: "reachable demo_leased"
proof -
  obtain t d1 where c: "claim_cleanup_task ''w1'' 10 demo3 = (t, d1)" by (metis surj_pair)
  obtain resp d2 where p: "do_PUT (demo_env [(''retainVersions'', JInt 5)] 5000) ''/v1/zones/a./retention'' (Some ''1'') [0] d1
      = (resp, d2)" by (metis surj_pair)
  have "demo_leased = d2" by (simp add: demo_leased_def c p)
  with reach_step [OF reach_step [OF demo_reachable(3) step_claim [OF c]] step_put [OF p]] show ?thesis by simp
qed

theorem claim_exclusive_witness:
  "\<exists>t d'. claim_cleanup_task ''w2'' 20 demo_leased = (Some t, d') \<and> t_task_id t \<noteq> 1 \<and> leased ''w1'' 40 1 d'"
proof -
  have "fst (claim_cleanup_task ''w2'' 20 demo_leased) \<noteq> None" "leased ''w1'' 40 1 demo_leased"
    "\<forall>u \<in> set (cleanup_tasks demo_leased). t_token u \<noteq> Some ''w2''" by code_simp+
  moreover from this(1) obtain t d' where "claim_cleanup_task ''w2'' 20 demo_leased = (Some t, d')"
    by (metis option.exhaust prod.collapse)
  ultimately show ?thesis using claim_exclusive [OF demo_leased_reachable, of "''w2''" 20 t d' "''w1''" 40 1] by auto
qed

text \<open>
  Cleanup work is not lost: in a reachable database with a PENDING task, a claim with a fresh
  token succeeds, returns a PENDING task that is not younger, and leases it to the caller.
\<close>

theorem pending_task_claimed:
  assumes "reachable d" and "\<forall>u \<in> set (cleanup_tasks d). t_token u \<noteq> Some token"
    and "u \<in> set (cleanup_tasks d)" and "t_state u = PENDING"
  shows "\<exists>t d'. claim_cleanup_task token now d = (Some t, d') \<and> t_task_id t \<le> t_task_id u \<and>
    leased token (now + 30) (t_task_id t) d' \<and>
    (\<exists>v \<in> set (cleanup_tasks d). t_task_id v = t_task_id t \<and> t_state v = PENDING)"
  by (rule claim_pending [OF reachable_wf_tasks [OF assms(1)] assms(2-4)])

theorem pending_task_claimed_witness:
  "\<exists>t d'. claim_cleanup_task ''w1'' 10 demo3 = (Some t, d') \<and> t_task_id t \<le> 1 \<and> leased ''w1'' 40 (t_task_id t) d'"
proof -
  have "\<forall>u \<in> set (cleanup_tasks demo3). t_token u \<noteq> Some ''w1''" by (simp add: demo3_def)
  from pending_task_claimed [OF demo_reachable(3) this demo_task_row(1,2), of 10] demo_task_row(3) show ?thesis by auto
qed

subsection \<open>Failed cleanups\<close>

lemma find_unique: "x \<in> set xs \<Longrightarrow> P x \<Longrightarrow> (\<And>y. y \<in> set xs \<Longrightarrow> P y \<Longrightarrow> y = x) \<Longrightarrow> find P xs = Some x"
  by (metis find_None_iff find_Some_iff not_None_eq nth_mem)

text \<open>A queue with one task left, which runs under a lease.\<close>

lemma claimable_sole_running:
  assumes "t \<in> set (cleanup_tasks d)" and "t_state t = RUNNING" and "t_lease_expires t = Some e"
    and "\<And>u. u \<in> set (cleanup_tasks d) \<Longrightarrow> u \<noteq> t \<Longrightarrow> t_state u = TASK_DONE"
  shows "claimable now d = (if e < now then Some t else None)"
proof -
  let ?ts = "sort_key t_task_id (cleanup_tasks d)"
  have s: "t_state u = TASK_DONE \<or> u = t" if "u \<in> set ?ts" for u using that assms(4) by auto
  have "find (\<lambda>t. t_state t = PENDING) ?ts = None" using s assms(2) by (force simp: find_None_iff)
  moreover have "find (lease_expired now) ?ts = (if e < now then Some t else None)"
  proof (cases "e < now")
    case True
    have "find (lease_expired now) ?ts = Some t"
    proof (rule find_unique)
      fix y assume "y \<in> set ?ts" "lease_expired now y"
      with s [of y] show "y = t" by (auto simp: lease_expired_def)
    qed (use assms(1-3) True in \<open>simp_all add: lease_expired_def\<close>)
    with True show ?thesis by simp
  next
    case False
    then have "find (lease_expired now) ?ts = None"
      using s assms(2,3) by (force simp: find_None_iff lease_expired_def)
    with False show ?thesis by simp
  qed
  ultimately show ?thesis by (simp add: claimable_def Let_def)
qed

text \<open>
  C21.  A cleanup that fails is retried: the failure changes nothing but the recorded error of the
  task, which stays leased; when it is the only unfinished task, it can be claimed again exactly when
  the lease of 30 seconds has expired, by a worker with a fresh token, as one more attempt.
\<close>

theorem failed_cleanup_retried:
  assumes "reachable d" and "\<forall>u \<in> set (cleanup_tasks d). t_token u \<noteq> Some token \<and> t_token u \<noteq> Some token'"
    and "token' \<noteq> token" and "claim_cleanup_task token now d = (Some t, d1)"
    and "\<forall>u \<in> set (cleanup_tasks d). t_task_id u \<noteq> t_task_id t \<longrightarrow> t_state u = TASK_DONE"
  shows "(cleanup_failed msg t d1)\<lparr>cleanup_tasks := cleanup_tasks d\<rparr> = d \<and>
    fst (claim_cleanup_task token' now' (cleanup_failed msg t d1)) =
      (if now + 30 < now' then Some (lease_task token' now' t) else None)"
proof -
  note wf = reachable_wf_tasks [OF assms(1)]
  have "\<forall>u \<in> set (cleanup_tasks d). t_token u \<noteq> Some token" using assms(2) by simp
  from claim_Some [OF assms(4) this wf] obtain u where u: "claimable now d = Some u" "t = lease_task token now u"
    "cleanup_tasks d1 = update_task (t_task_id u) (lease_task token now) (cleanup_tasks d)" by blast
  have ids: "t_task_id t = t_task_id u" by (simp add: u(2) lease_task_def)
  have d1: "d1 = d\<lparr>cleanup_tasks := cleanup_tasks d1\<rparr>"
    using assms(4) u(1) by (auto simp: claim_cleanup_task_def Let_def)
  let ?d2 = "cleanup_failed msg t d1" and ?f = "t\<lparr>t_last_error := Some (take 500 msg)\<rparr>"
  have only: "x = u" if "x \<in> set (cleanup_tasks d)" "t_task_id x = t_task_id u" for x
    using that claimable_Some(1) [OF u(1)] wf by (auto simp: wf_tasks_def distinct_map inj_on_def)
  have tasks: "cleanup_tasks ?d2 = map (\<lambda>x. if t_task_id x = t_task_id u then ?f else x) (cleanup_tasks d)"
  proof -
    have "cleanup_tasks ?d2 = map (\<lambda>x. if t_task_id x = t_task_id u
        then (lease_task token now x)\<lparr>t_last_error := Some (take 500 msg)\<rparr> else x) (cleanup_tasks d)"
      by (simp add: cleanup_failed_def u(3) update_task_def ids lease_task_def)
    also have "\<dots> = map (\<lambda>x. if t_task_id x = t_task_id u then ?f else x) (cleanup_tasks d)"
      using only by (intro map_cong refl) (auto simp: u(2))
    finally show ?thesis .
  qed
  have mem: "x \<in> set (cleanup_tasks ?d2) \<longleftrightarrow> x = ?f \<or> x \<in> set (cleanup_tasks d) \<and> t_task_id x \<noteq> t_task_id u" for x
    using claimable_Some(1) [OF u(1)] by (force simp: tasks)
  have c: "claimable now' ?d2 = (if now + 30 < now' then Some ?f else None)"
  proof (rule claimable_sole_running)
    show "?f \<in> set (cleanup_tasks ?d2)" using mem by blast
    show "t_state ?f = RUNNING" "t_lease_expires ?f = Some (now + 30)"
      by (simp_all add: u(2) lease_task_def CLEANUP_LEASE_SECONDS_def)
    show "t_state x = TASK_DONE" if "x \<in> set (cleanup_tasks ?d2)" "x \<noteq> ?f" for x
      using that mem [of x] assms(5) ids by auto
  qed
  have "find (\<lambda>x. t_token x = Some token') (update_task (t_task_id ?f) (lease_task token' now') (cleanup_tasks ?d2)) =
      Some (lease_task token' now' ?f)"
  proof (rule find_unique)
    show "lease_task token' now' ?f \<in> set (update_task (t_task_id ?f) (lease_task token' now') (cleanup_tasks ?d2))"
      using mem [of ?f] by (auto simp: update_task_def)
    show "y = lease_task token' now' ?f" if "y \<in> set (update_task (t_task_id ?f) (lease_task token' now') (cleanup_tasks ?d2))"
      "t_token y = Some token'" for y
    proof -
      from that(1) obtain x where x: "x \<in> set (cleanup_tasks ?d2)" "y = (if t_task_id x = t_task_id u then lease_task token' now' x else x)"
        by (auto simp: update_task_def ids)
      with that(2) mem [of x] assms(2) ids show ?thesis by (auto split: if_splits)
    qed
  qed (simp add: lease_task_def)
  moreover have "lease_task token' now' ?f = lease_task token' now' t" by (simp add: lease_task_def)
  ultimately have "fst (claim_cleanup_task token' now' ?d2) = (if now + 30 < now' then Some (lease_task token' now' t) else None)"
    using c by (simp add: claim_cleanup_task_def Let_def)
  moreover have "?d2\<lparr>cleanup_tasks := cleanup_tasks d\<rparr> = d"
    by (subst d1) (simp add: cleanup_failed_def)
  ultimately show ?thesis by blast
qed

theorem failed_cleanup_retried_witness:
  "\<exists>t d1. claim_cleanup_task ''w1'' 10 demo3 = (Some t, d1) \<and>
    fst (claim_cleanup_task ''w2'' 41 (cleanup_failed ''disk full'' t d1)) = Some (lease_task ''w2'' 41 t) \<and>
    fst (claim_cleanup_task ''w2'' 40 (cleanup_failed ''disk full'' t d1)) = None"
proof -
  have "fst (claim_cleanup_task ''w1'' 10 demo3) \<noteq> None" by code_simp
  then obtain t d1 where c: "claim_cleanup_task ''w1'' 10 demo3 = (Some t, d1)"
    by (cases "claim_cleanup_task ''w1'' 10 demo3") auto
  have f: "\<forall>u \<in> set (cleanup_tasks demo3). t_token u \<noteq> Some ''w1'' \<and> t_token u \<noteq> Some ''w2''" by (simp add: demo3_def)
  have "map_option t_task_id (fst (claim_cleanup_task ''w1'' 10 demo3)) = Some 1" by code_simp
  then have "\<forall>u \<in> set (cleanup_tasks demo3). t_task_id u \<noteq> t_task_id t \<longrightarrow> t_state u = TASK_DONE"
    using c by (simp add: demo3_def)
  from failed_cleanup_retried [OF demo_reachable(3) f _ c this] c show ?thesis by simp
qed

end
