(* ===== verification/Replay.thy ===== *)
theory Replay
  imports Isolation
begin

text \<open>
  What the receiver of a transfer ends up with.  A chain of snapshots linked by deltas, the
  RFC 1995 receiver that recovers the operations from the SOA records that open the sections,
  and the record streams of \<open>DNSLogic\<close> read by that receiver.
\<close>

subsection \<open>Chains of versions\<close>

text \<open>
  The contract between the store and the incremental transfer: the successor of a retained
  version is that version less its deletions, plus its additions.
\<close>

locale version_chain =
  fixes has :: "int \<Rightarrow> bool" and cont del add :: "int \<Rightarrow> 'x set"
  assumes chain_step: "has n \<Longrightarrow> has (n + 1) \<Longrightarrow> cont (n + 1) = (cont n - del (n + 1)) \<union> add (n + 1)"
begin

definition advance :: "int \<Rightarrow> 'x set \<Rightarrow> 'x set" where
  "advance n S = (S - del n) \<union> add n"

lemma replay_steps:
  assumes "\<And>n. lo \<le> n \<Longrightarrow> n \<le> lo + int k \<Longrightarrow> has n"
  shows "fold advance (map (\<lambda>i. lo + 1 + int i) [0..<k]) (cont lo) = cont (lo + int k)"
  using assms
proof (induction k)
  case (Suc k)
  have "has (lo + int k)" "has (lo + int k + 1)" using Suc.prems by auto
  then have "advance (lo + int k + 1) (cont (lo + int k)) = cont (lo + int k + 1)"
    by (simp add: chain_step advance_def)
  moreover have "lo + 1 + int k = lo + int k + 1" by simp
  ultimately show ?case using Suc by (simp add: add.commute add.left_commute)
qed simp

lemma replay:
  assumes "lo \<le> hi" and "\<forall>n \<in> {lo..hi}. has n"
  shows "fold advance [lo + 1..hi] (cont lo) = cont hi"
proof -
  define k where "k = nat (hi - lo)"
  have hi: "hi = lo + int k" using assms(1) by (simp add: k_def)
  have "[lo + 1..hi] = map (\<lambda>i. lo + 1 + int i) [0..<k]"
    unfolding hi by (rule nth_equalityI) (auto simp: nth_upto)
  then show ?thesis using replay_steps [of lo k] assms by (simp add: hi)
qed

end

interpretation zone_chain: version_chain
  "\<lambda>n. wf_db d \<and> n \<in> vids d zone" "content d zone" "dels d zone" "adds d zone" for d zone
  by unfold_locales (simp add: wf_db_def delta_ok_def)

subsection \<open>The receiver\<close>

text \<open>
  The wire carries no operation.  The receiver (RFC 1995) starts in addition mode and changes
  mode at every SOA record of the apex.
\<close>

definition flip :: "change_op \<Rightarrow> change_op" where
  "flip m = (if m = ADD then DEL else ADD)"

definition receive :: "string \<Rightarrow> change_op \<times> delta_row set \<Rightarrow> delta_row \<Rightarrow> change_op \<times> delta_row set" where
  "receive zone st x =
     (let m = (if delta_key x = (zone, ''SOA'') then flip (fst st) else fst st) in
      (m, if m = DEL then snd st - {x} else insert x (snd st)))"

lemma is_soa_change_key: "is_soa_change zone c \<longleftrightarrow> delta_key (change_data c) = (zone, ''SOA'')"
  by (simp add: is_soa_change_def change_data_def delta_key_def)

lemma receive_plain:
  "\<forall>c \<in> set cs. \<not> is_soa_change zone c \<Longrightarrow>
    foldl (receive zone) (m, S) (map change_data cs) =
      (m, if m = DEL then S - change_data ` set cs else S \<union> change_data ` set cs)"
  by (induction cs arbitrary: S) (auto simp: receive_def is_soa_change_key)

lemma receive_section:
  assumes "soa_first zone cs"
  shows "foldl (receive zone) (m, S) (map change_data cs) =
      (flip m, if flip m = DEL then S - change_data ` set cs else S \<union> change_data ` set cs)"
proof -
  from assms obtain c cs' where cs: "cs = c # cs'" and c: "is_soa_change zone c"
    and n: "\<forall>x \<in> set cs'. \<not> is_soa_change zone x"
    by (auto simp: soa_first_def split: list.splits)
  have "receive zone (m, S) (change_data c) =
      (flip m, if flip m = DEL then S - {change_data c} else insert (change_data c) S)"
    using c by (simp add: receive_def is_soa_change_key)
  with receive_plain [OF n] show ?thesis by (auto simp: cs)
qed

text \<open>One version: both sections are read, and the receiver is back in addition mode.\<close>

lemma receive_delta:
  assumes "delta_shape zone cs"
  shows "foldl (receive zone) (ADD, S) (map change_data cs) =
    (ADD, (S - change_data ` {c \<in> set cs. c_op c = DEL}) \<union> change_data ` {c \<in> set cs. c_op c = ADD})"
proof -
  from assms obtain ds as where cs: "cs = ds @ as" and o: "\<forall>c \<in> set ds. c_op c = DEL" "\<forall>c \<in> set as. c_op c = ADD"
    and s: "soa_first zone ds" "soa_first zone as" by (auto simp: delta_shape_def)
  have "{c \<in> set cs. c_op c = DEL} = set ds" "{c \<in> set cs. c_op c = ADD} = set as"
    using o by (auto simp: cs)
  then show ?thesis by (simp add: cs receive_section [OF s(1)] receive_section [OF s(2)] flip_def)
qed

definition changes_between :: "db \<Rightarrow> string \<Rightarrow> int \<Rightarrow> int \<Rightarrow> change_row list" where
  "changes_between d zone lo hi = concat (map (iter_changes d zone) [lo + 1..hi])"

lemma receive_version:
  assumes "wf_db d" and "n \<in> vids d zone" and "n + 1 \<in> vids d zone"
  shows "foldl (receive zone) (ADD, S) (map change_data (iter_changes d zone (n + 1))) =
    (ADD, (S - dels d zone (n + 1)) \<union> adds d zone (n + 1))"
proof -
  have "delta_shape zone (iter_changes d zone (n + 1))" using assms by (simp add: wf_db_def delta_ok_def)
  from receive_delta [OF this] show ?thesis by (simp add: iter_changes_def dels_def adds_def)
qed

lemma receive_versions:
  assumes wf: "wf_db d" and "\<forall>n \<in> set ns. n - 1 \<in> vids d zone \<and> n \<in> vids d zone"
  shows "foldl (receive zone) (ADD, S) (map change_data (concat (map (iter_changes d zone) ns))) =
    (ADD, fold (zone_chain.advance d zone) ns S)"
  using assms(2)
proof (induction ns arbitrary: S)
  case (Cons n ns)
  from receive_version [OF wf, of "n - 1" zone S] Cons.prems
  have "foldl (receive zone) (ADD, S) (map change_data (iter_changes d zone n)) = (ADD, zone_chain.advance d zone n S)"
    by (simp add: zone_chain.advance_def)
  with Cons show ?case by simp
qed simp

lemma receive_between:
  assumes wf: "wf_db d" and le: "lo \<le> hi" and v: "{lo..hi} \<subseteq> vids d zone"
  shows "foldl (receive zone) (ADD, content d zone lo) (map change_data (changes_between d zone lo hi)) =
    (ADD, content d zone hi)"
proof -
  have "\<forall>n \<in> set [lo + 1..hi]. n - 1 \<in> vids d zone \<and> n \<in> vids d zone" using v by auto
  from receive_versions [OF wf this] show ?thesis
    unfolding changes_between_def using zone_chain.replay [OF le, of d zone] wf v by auto
qed


subsection \<open>The SOA of a retained version\<close>

lemma is_apex_soa_key: "is_apex_soa zone r \<longleftrightarrow> delta_key (row_data r) = (zone, ''SOA'')"
  by (simp add: is_apex_soa_def delta_key_def row_data_def)

lemma find_soa_retained:
  assumes wf: "wf_db d" and v: "v \<in> set (versions d)"
  obtains soa s where "find_soa d (v_zone v) (v_version_id v) = Some soa"
    "soa \<in> set (records_of d (v_zone v) (v_version_id v))" "is_apex_soa (v_zone v) soa"
    "r_rdata soa = Soa s" "s_serial s = v_serial v"
    "{r \<in> set (records_of d (v_zone v) (v_version_id v)). is_apex_soa (v_zone v) r} = {soa}"
proof -
  let ?rows = "records_of d (v_zone v) (v_version_id v)" and ?P = "is_apex_soa (v_zone v)"
  have "version_ok d v" using wf v by (simp add: wf_db_def)
  then obtain ttl s w where
    one: "{x \<in> content d (v_zone v) (v_version_id v). delta_key x = (v_zone v, ''SOA'')} = {(v_zone v, ''SOA'', ttl, Soa s, w)}"
    and ser: "s_serial s = v_serial v"
    by (auto simp: version_ok_def valid_content_def soa_at_def)
  have data: "row_data r = (v_zone v, ''SOA'', ttl, Soa s, w)" if "r \<in> set ?rows" "?P r" for r
    using that one by (auto simp: content_def is_apex_soa_key)
  have "(v_zone v, ''SOA'', ttl, Soa s, w) \<in> content d (v_zone v) (v_version_id v)" using one by blast
  then obtain r0 where r0: "r0 \<in> set ?rows" "row_data r0 = (v_zone v, ''SOA'', ttl, Soa s, w)"
    unfolding content_def by (elim imageE) simp
  then have p0: "?P r0" by (simp add: is_apex_soa_key delta_key_def)
  have own: "r_zone r = v_zone v \<and> r_version_id r = v_version_id v" if "r \<in> set ?rows" for r
    using that by (simp add: mem_records_of)
  have eq: "r = r0" if r: "r \<in> set ?rows" "?P r" for r
  proof (rule record_row.equality)
    have "row_data r = row_data r0" using data [OF r] r0(2) by simp
    then show "r_name r = r_name r0" "r_rtype r = r_rtype r0" "r_ttl r = r_ttl r0" "r_rdata r = r_rdata r0"
      "r_rdata_wire r = r_rdata_wire r0" by (simp_all add: row_data_def)
  qed (use own [OF r(1)] own [OF r0(1)] in simp_all)
  have set1: "{r \<in> set ?rows. ?P r} = {r0}" using eq p0 r0(1) by blast
  have "find ?P ?rows \<noteq> None" using p0 r0(1) unfolding find_None_iff by blast
  then obtain r where r: "find ?P ?rows = Some r" by blast
  then have "r \<in> set ?rows \<and> ?P r" by (auto simp: find_Some_iff)
  with eq r have f: "find_soa d (v_zone v) (v_version_id v) = Some r0" by (simp add: find_soa_def)
  have "r_rdata r0 = Soa s" using r0(2) by (simp add: row_data_def)
  from that [OF f r0(1) p0 this ser set1] show ?thesis .
qed


subsection \<open>The record streams of an authorised transfer\<close>

lemma transfer_mode_compare:
  assumes "transfer_mode d z q = Inr (Some MODE_IXFR, lo)" and "q_client_soa_serial q = Some cs"
  shows "compare cs (z_current_serial z) = EQUAL \<or> compare cs (z_current_serial z) = GREATER"
  using assms by (auto simp: transfer_mode_def decide_ixfr_def Let_def split: if_splits option.splits)

text \<open>What a plan refers to in the database it was made from.\<close>

definition plan_for :: "db \<Rightarrow> query \<Rightarrow> plan \<Rightarrow> bool" where
  "plan_for d q p \<longleftrightarrow>
     (\<exists>v \<in> set (versions d). v_zone v = tp_zone p \<and> v_version_id v = tp_target_version p \<and>
        v_serial v = tp_target_serial p) \<and>
     (if tp_mode p = Some MODE_IXFR then
        \<exists>cs start. q_client_soa_serial q = Some cs \<and> version_by_serial d (tp_zone p) cs = Some start \<and>
          v_version_id start = tp_min_version p \<and> tp_min_version p \<le> tp_target_version p \<and>
          {tp_min_version p..tp_target_version p} \<subseteq> vids d (tp_zone p) \<and>
          (compare cs (tp_target_serial p) = EQUAL \<or> compare cs (tp_target_serial p) = GREATER)
      else tp_min_version p = tp_target_version p)"

lemma authorized_plan_for:
  assumes wf: "wf_db d" and a: "authorize_transfer hm now now' ts inst rid q d = (Inr p, d1)"
  shows "plan_for d1 q p"
  using a
proof (cases rule: authorize_transfer_effect)
  case (granted p' z t key)
  then have [simp]: "p' = p" by simp
  note pin = authorized_pin [OF wf a]
  note z = find_zone_in [OF granted(3)]
  have pz: "tp_zone p = z_name z" "tp_target_version p = z_current_version z" "tp_target_serial p = z_current_serial z"
    using granted(8) by (metis \<open>p' = p\<close> plan.select_convs(2), metis \<open>p' = p\<close> plan.select_convs(3),
      metis \<open>p' = p\<close> plan.select_convs(4))
  obtain v where "v \<in> set (versions d)" "v_zone v = z_name z" "v_version_id v = z_current_version z"
    "v_serial v = z_current_serial z" using current_version_row [OF wf] z by blast
  then have v: "\<exists>v \<in> set (versions d1). v_zone v = tp_zone p \<and> v_version_id v = tp_target_version p \<and>
      v_serial v = tp_target_serial p" using pin pz by auto
  have m: "transfer_mode d z q = Inr (tp_mode p, tp_min_version p)" using granted(6) by simp
  note r = transfer_mode_range [OF wf z [THEN conjunct1] m]
  show ?thesis
  proof (cases "tp_mode p = Some MODE_IXFR")
    case True
    then obtain cs start where cs: "q_client_soa_serial q = Some cs" "version_by_serial d (z_name z) cs = Some start"
      "v_version_id start = tp_min_version p" using r(3) by blast
    have "version_by_serial d1 (tp_zone p) cs = Some start" using cs(2) pin by (simp add: version_by_serial_def pz)
    moreover have "compare cs (tp_target_serial p) = EQUAL \<or> compare cs (tp_target_serial p) = GREATER"
      using transfer_mode_compare [OF m [unfolded True] cs(1)] by (simp add: pz)
    ultimately show ?thesis using v True cs pin unfolding plan_for_def by auto
  next
    case False
    then show ?thesis using v r(4) unfolding plan_for_def by (auto simp: pz)
  qed
qed simp

lemma serial_range:
  assumes "wf_db d" and "v \<in> set (versions d)"
  shows "0 \<le> v_serial v \<and> v_serial v \<le> 0xFFFFFFFF"
  using assms by (simp add: wf_db_def version_ok_def)

lemma compare_EQUAL_serials:
  assumes "wf_db d" and "v \<in> set (versions d)" and "w \<in> set (versions d)" and "compare (v_serial v) (v_serial w) = EQUAL"
  shows "v_serial v = v_serial w"
  using serial_range [OF assms(1,2)] serial_range [OF assms(1,3)] assms(4)
  by (simp add: compare_EQUAL_iff mod_pos_pos_trivial)

lemma ixfr_stream_rows:
  assumes wf: "wf_db d" and p: "plan_for d q p" "tp_mode p = Some MODE_IXFR"
  obtains cs start soa s where "q_client_soa_serial q = Some cs" "version_by_serial d (tp_zone p) cs = Some start"
    "v_version_id start = tp_min_version p"
    "find_soa d (tp_zone p) (tp_target_version p) = Some soa" "r_rdata soa = Soa s" "s_serial s = tp_target_serial p"
    "ixfr_rr_stream d p (Some cs) =
       rr_wire soa # map change_wire (changes_between d (tp_zone p) (tp_min_version p) (tp_target_version p))"
proof -
  from p obtain v cs start where v: "v \<in> set (versions d)" "v_zone v = tp_zone p" "v_version_id v = tp_target_version p"
      "v_serial v = tp_target_serial p"
    and cs: "q_client_soa_serial q = Some cs" "version_by_serial d (tp_zone p) cs = Some start"
      "v_version_id start = tp_min_version p"
    and cmp: "compare cs (tp_target_serial p) = EQUAL \<or> compare cs (tp_target_serial p) = GREATER"
    by (auto simp: plan_for_def)
  obtain soa s where soa: "find_soa d (tp_zone p) (tp_target_version p) = Some soa" "r_rdata soa = Soa s"
    "s_serial s = tp_target_serial p"
    using find_soa_retained [OF wf v(1)] unfolding v by metis
  note st = version_by_serial_Some [OF cs(2)]
  have "ixfr_rr_stream d p (Some cs) =
      rr_wire soa # map change_wire (changes_between d (tp_zone p) (tp_min_version p) (tp_target_version p))"
  proof (cases "compare cs (tp_target_serial p) = GREATER")
    case True
    then show ?thesis unfolding ixfr_rr_stream_def soa option.case cs
      by (simp add: changes_between_def map_concat comp_def cs)
  next
    case False
    then have "compare (v_serial start) (v_serial v) = EQUAL" using cmp st v by simp
    then have "v_serial start = v_serial v" using compare_EQUAL_serials [OF wf _ v(1)] st by blast
    moreover have "version_by_serial d (tp_zone p) (v_serial v) = Some v"
      by (rule version_by_serial_unique [OF wf v(1,2) refl])
    ultimately have "start = v" using cs(2) st by simp
    then have "changes_between d (tp_zone p) (tp_min_version p) (tp_target_version p) = []"
      using v cs(3) by (simp add: changes_between_def)
    with False show ?thesis unfolding ixfr_rr_stream_def soa option.case by simp
  qed
  with soa cs show ?thesis by (intro that) auto
qed

definition body_rows :: "db \<Rightarrow> plan \<Rightarrow> record_row list" where
  "body_rows d p =
     filter (\<lambda>r. \<not> is_apex_soa (tp_zone p) r) (iter_snapshot d (tp_zone p) (tp_target_version p))"

lemma axfr_stream_rows:
  assumes wf: "wf_db d" and p: "plan_for d q p"
  obtains soa s where "find_soa d (tp_zone p) (tp_target_version p) = Some soa" "r_rdata soa = Soa s"
    "s_serial s = tp_target_serial p" "axfr_rr_stream d p = map rr_wire (soa # body_rows d p @ [soa])"
    "row_data ` set (soa # body_rows d p) = content d (tp_zone p) (tp_target_version p)"
proof -
  from p obtain v where v: "v \<in> set (versions d)" "v_zone v = tp_zone p" "v_version_id v = tp_target_version p"
      "v_serial v = tp_target_serial p" by (auto simp: plan_for_def)
  let ?rows = "records_of d (tp_zone p) (tp_target_version p)"
  obtain soa s where soa: "find_soa d (tp_zone p) (tp_target_version p) = Some soa" "r_rdata soa = Soa s"
    "s_serial s = tp_target_serial p" "{r \<in> set ?rows. is_apex_soa (tp_zone p) r} = {soa}"
    using find_soa_retained [OF wf v(1)] unfolding v by metis
  have all: "set (soa # body_rows d p) = set ?rows"
    using soa(4) by (auto simp: body_rows_def iter_snapshot_def)
  have "axfr_rr_stream d p = map rr_wire (soa # body_rows d p @ [soa])"
    unfolding axfr_rr_stream_def soa option.case by (simp add: body_rows_def)
  moreover have "row_data ` set (soa # body_rows d p) = content d (tp_zone p) (tp_target_version p)"
    unfolding all content_def ..
  ultimately show ?thesis using that [OF soa(1-3)] by blast
qed

end
