(* ===== verification/Client.thy ===== *)
theory Client
  imports Tsig
begin

text \<open>
  \<open>app/dnsclient.py\<close>: query construction, response parsing and response verification.
  The transports are not modelled; a query or a response is its byte string.
\<close>

unbundle bit_operations_syntax

subsection \<open>Query construction\<close>

definition question_wire :: "string \<Rightarrow> nat \<Rightarrow> exn + bytes" where
  "question_wire qname qtype =
     bindE (encode_name qname) (\<lambda>n. bindE (pack_HH qtype CLASS_IN) (\<lambda>t. Inr (n @ t)))"

definition soa_authority :: "string \<Rightarrow> nat \<Rightarrow> exn + bytes" where
  "soa_authority zone serial =
     bindE (encode_name zone) (\<lambda>n.
     bindE (pack32 serial) (\<lambda>s.
     let rdata = n @ n @ s @ be32 7200 @ be32 3600 @ be32 1209600 @ be32 3600 in
     bindE (pack_HHIH TYPE_SOA CLASS_IN 3600 (length rdata)) (\<lambda>h. Inr (n @ h @ rdata))))"

definition build_tsig_query ::
  "mac_fun \<Rightarrow> nat \<Rightarrow> string \<Rightarrow> nat \<Rightarrow> string \<Rightarrow> bytes \<Rightarrow> nat \<Rightarrow> nat \<Rightarrow> bytes \<Rightarrow> exn + bytes" where
  "build_tsig_query hm qid qname qtype key_name secret when fudge authority =
     bindE (build_header qid 0x0100 1 0 (if authority \<noteq> [] then 1 else 0) 1) (\<lambda>h.
     bindE (question_wire qname qtype) (\<lambda>qw.
     let base = h @ qw @ authority in
     bindE (patch_arcount base 1) (\<lambda>pb.
     bindE (tsig_variables key_name ALGORITHM_WIRE when fudge 0 []) (\<lambda>v.
     let mac = hm secret (pb @ v) in
     bindE (tsig_rdata ALGORITHM_WIRE when fudge mac qid 0 []) (\<lambda>rdata.
     bindE (encode_name key_name) (\<lambda>n.
     bindE (pack_HHIH TYPE_TSIG CLASS_ANY 0 (length rdata)) (\<lambda>rh.
       Inr (base @ n @ rh @ rdata))))))))"

definition build_plain_query :: "nat \<Rightarrow> string \<Rightarrow> nat \<Rightarrow> bool \<Rightarrow> exn + bytes" where
  "build_plain_query qid qname qtype rd =
     bindE (build_header qid (if rd then 0x0100 else 0) 1 0 0 0) (\<lambda>h.
     bindE (question_wire qname qtype) (\<lambda>qw. Inr (h @ qw)))"

definition reference_request_mac ::
  "mac_fun \<Rightarrow> string \<Rightarrow> nat \<Rightarrow> nat \<Rightarrow> nat \<Rightarrow> bytes \<Rightarrow> string \<Rightarrow> bytes \<Rightarrow> nat \<Rightarrow> nat \<Rightarrow> nat \<Rightarrow> exn + bytes" where
  "reference_request_mac hm qname qtype qclass flags authority key_name secret when fudge qid =
     bindE (encode_name qname) (\<lambda>n.
     bindE (pack_HH qtype qclass) (\<lambda>t.
     let question = n @ t; nscount = (if authority \<noteq> [] then 1 else 0) in
     bindE (build_header qid flags 1 0 nscount 1) (\<lambda>h.
     bindE (patch_arcount (h @ question @ authority) 1) (\<lambda>pb.
     bindE (tsig_variables key_name ALGORITHM_WIRE when fudge 0 []) (\<lambda>v.
       Inr (hm secret (pb @ v)))))))"

subsection \<open>Response parsing\<close>

record rr =
  rr_owner :: string
  rr_type :: nat
  rr_class :: nat
  rr_ttl :: nat
  rr_data :: bytes

text \<open>\<open>_parse_rrs\<close>: no bounds checks; a short read is a \<open>struct.error\<close>.\<close>

fun parse_rrs :: "bytes \<Rightarrow> nat \<Rightarrow> nat \<Rightarrow> exn + rr list \<times> nat" where
  "parse_rrs buf off 0 = Inr ([], off)"
| "parse_rrs buf off (Suc k) =
     bindE (decode_name buf off) (\<lambda>(name, off2).
     bindE (unpack_HHIH (slice buf off2 (off2 + 10))) (\<lambda>(rtype, rclass, ttl, rdlen).
     let rstart = off2 + 10 in
     bindE (parse_rrs buf (rstart + rdlen) k) (\<lambda>(out, off').
       Inr (\<lparr>rr_owner = name, rr_type = rtype, rr_class = rclass, rr_ttl = ttl,
         rr_data = slice buf rstart (rstart + rdlen)\<rparr> # out, off'))))"

fun parse_client_additional ::
  "bytes \<Rightarrow> nat \<Rightarrow> nat \<Rightarrow> (tsig_rr \<times> nat) option \<Rightarrow> rr list \<Rightarrow> exn + (tsig_rr \<times> nat) option \<times> rr list" where
  "parse_client_additional buf 0 walk tsig acc = Inr (tsig, acc)"
| "parse_client_additional buf (Suc k) walk tsig acc =
     bindE (decode_name buf walk) (\<lambda>(tname, p).
     bindE (unpack_HHIH (slice buf p (p + 10))) (\<lambda>(rtype, rclass, ttl, rdlen).
     let rstart = p + 10;
         r = \<lparr>rr_owner = tname, rr_type = rtype, rr_class = rclass, rr_ttl = ttl,
              rr_data = slice buf rstart (rstart + rdlen)\<rparr> in
     bindE (if rtype = TYPE_TSIG
            then bindE (parse_tsig_rdata tname buf rstart rdlen) (\<lambda>t. Inr (Some (t, walk)))
            else Inr tsig)
       (\<lambda>tsig'. parse_client_additional buf k (rstart + rdlen) tsig' (acc @ [r]))))"

text \<open>The section skippers, which read only lengths, end where the parser ends.\<close>

fun skip_section :: "bytes \<Rightarrow> nat \<Rightarrow> nat \<Rightarrow> exn + nat" where
  "skip_section buf off 0 = Inr off"
| "skip_section buf off (Suc qd) = bindE (decode_name buf off) (\<lambda>(_, off). skip_section buf (off + 4) qd)"

fun skip_rrs :: "bytes \<Rightarrow> nat \<Rightarrow> nat \<Rightarrow> exn + nat" where
  "skip_rrs buf off 0 = Inr off"
| "skip_rrs buf off (Suc k) =
     bindE (decode_name buf off) (\<lambda>(_, off).
     bindE (unpack16 (slice buf (off + 8) (off + 10))) (\<lambda>rdlen. skip_rrs buf (off + (10 + rdlen)) k))"

definition skip_to_section_end :: "bytes \<Rightarrow> nat \<Rightarrow> nat \<Rightarrow> nat \<Rightarrow> nat \<Rightarrow> exn + nat" where
  "skip_to_section_end buf start qd an ns =
     bindE (skip_section buf start qd) (\<lambda>off. skip_rrs buf off (an + ns))"

lemma unpack_HHIH_rdlen:
  assumes "unpack_HHIH (slice buf p (p + 10)) = Inr (a, b, c, n)"
  shows "unpack16 (slice buf (p + 8) (p + 10)) = Inr n"
proof -
  have "slice buf (p + 8) (p + 10) = drop 8 (slice buf p (p + 10))"
    by (simp add: slice_def drop_take add.commute)
  with assms show ?thesis by (auto simp: unpack_HHIH_def unpack16_def split: list.splits)
qed

lemma parse_rrs_skips: "parse_rrs buf off k = Inr (rs, off') \<Longrightarrow> skip_rrs buf off k = Inr off'"
proof (induction k arbitrary: off rs)
  case (Suc k)
  then show ?case by (auto simp: bindE_Inr_iff Let_def dest!: unpack_HHIH_rdlen simp: add.assoc)
qed simp
record message =
  m_id :: nat
  m_flags :: nat
  m_rcode :: nat
  m_tc :: bool
  m_aa :: bool
  m_qname :: string
  m_qtype :: nat
  m_answers :: "rr list"
  m_authority :: "rr list"
  m_additionals :: "rr list"
  m_tsig :: "tsig_rr option"
  m_tsig_offset :: "nat option"
  m_raw :: bytes
  m_arcount :: nat
  m_question_end :: nat

definition parse_message :: "bytes \<Rightarrow> exn + message" where
  "parse_message buf =
     bindE (unpack_header (slice buf 0 12)) (\<lambda>(qid, flags, qd, an, ns, ar).
     bindE (decode_name buf 12) (\<lambda>(qname, off).
     bindE (unpack_HH (slice buf off (off + 4))) (\<lambda>(qtype, qclass).
     let question_end = off + 4 in
     bindE (parse_rrs buf question_end an) (\<lambda>(answers, off).
     bindE (parse_rrs buf off ns) (\<lambda>(authority, off).
     bindE (parse_client_additional buf ar off None []) (\<lambda>(tsig, additionals).
       Inr \<lparr>m_id = qid, m_flags = flags, m_rcode = flags AND 0xF, m_tc = (flags AND FLAG_TC \<noteq> 0),
         m_aa = (flags AND FLAG_AA \<noteq> 0), m_qname = qname, m_qtype = qtype, m_answers = answers,
         m_authority = authority, m_additionals = additionals, m_tsig = map_option fst tsig,
         m_tsig_offset = map_option snd tsig, m_raw = buf, m_arcount = ar,
         m_question_end = question_end\<rparr>))))))"

definition signed_base :: "message \<Rightarrow> exn + bytes" where
  "signed_base msg =
     patch_arcount (take (case m_tsig_offset msg of None \<Rightarrow> length (m_raw msg) | Some off \<Rightarrow> off) (m_raw msg))
       (m_arcount msg)"

text \<open>\<open>None\<close> is the \<open>AssertionError\<close> of a MAC mismatch.\<close>

definition verify_response_mac ::
  "mac_fun \<Rightarrow> message \<Rightarrow> bytes \<Rightarrow> bytes \<Rightarrow> string \<Rightarrow> exn + bytes option" where
  "verify_response_mac hm msg secret prior_mac key_name =
     (case m_tsig msg of
        None \<Rightarrow> bindE (pack16 (length prior_mac)) (\<lambda>_. bindE (signed_base msg) (\<lambda>_. Inl TypeError))
      | Some t \<Rightarrow>
        bindE (pack16 (length prior_mac)) (\<lambda>l.
        bindE (signed_base msg) (\<lambda>base.
        bindE (tsig_variables key_name ALGORITHM_WIRE (t_time t) (t_fudge t) (t_error t) (t_other t)) (\<lambda>v.
        let expect = hm secret ((l @ prior_mac) @ base @ v) in
          Inr (if expect = t_mac t then Some (t_mac t) else None)))))"

definition soa_serial :: "bytes \<Rightarrow> exn + nat" where
  "soa_serial rdata =
     bindE (decode_name rdata 0) (\<lambda>(_, p).
     bindE (decode_name rdata p) (\<lambda>(_, p). unpack32 (slice rdata p (p + 4))))"

subsection \<open>A signed query is parsed back\<close>

lemma tsig_variables_Inr_iff:
  "tsig_variables kn alg when fudge error other = Inr v \<longleftrightarrow>
    (\<exists>n. encode_name kn = Inr n \<and> fudge < 65536 \<and> error < 65536 \<and> length other < 65536 \<and>
      length alg + (12 + length other) < 65536 \<and>
      v = n @ HHIH TYPE_TSIG CLASS_ANY 0 (length alg + (12 + length other)) @ alg
        @ HIH (take_bit 16 (drop_bit 32 when)) (take_bit 32 when) fudge @ be16 error
        @ be16 (length other) @ other)"
  by (auto simp: tsig_variables_def bindE_Inr_iff pack_HHIH_def Let_def split: if_splits)

text \<open>The variables depend on the key name only through its wire form, on the time modulo 2^48.\<close>

lemma tsig_variables_wire_name:
  assumes "tsig_variables kn alg when fudge error other = Inr v"
  shows "tsig_variables (wire_name_of kn) alg (take_bit 48 when) fudge error other = Inr v"
proof -
  have "take_bit 16 (drop_bit 32 (take_bit 48 when)) = take_bit 16 (drop_bit 32 when)"
    by (simp add: drop_bit_take_bit)
  moreover have "take_bit 32 (take_bit 48 when) = take_bit 32 when" by simp
  ultimately show ?thesis
    using assms encode_wire_name by (auto simp: tsig_variables_Inr_iff)
qed

text \<open>The one additional record a signed message carries.\<close>

lemma tsig_record_at:
  assumes n: "encode_name kn = Inr n"
    and r: "tsig_rdata ALGORITHM_WIRE when fudge mac oid err other = Inr rdata"
    and len: "length rdata < 65536"
    and at: "holds_at buf off (n @ HHIH TYPE_TSIG CLASS_ANY 0 (length rdata) @ rdata)"
  shows "decode_name buf off = Inr (wire_name_of kn, off + length n)"
    and "unpack_HHIH (slice buf (off + length n) (off + length n + 10)) = Inr (250, 255, 0, length rdata)"
    and "parse_tsig_rdata (wire_name_of kn) buf (off + length n + 10) (length rdata) =
      Inr \<lparr>t_name = wire_name_of kn, t_algorithm = ''hmac-sha256.'', t_time = take_bit 48 when,
        t_fudge = fudge, t_mac = mac, t_orig_id = oid, t_error = err, t_other = other\<rparr>"
    and "off + length n + 10 + length rdata \<le> length buf"
proof -
  note l = names.record_layout [OF n at]
  show "decode_name buf off = Inr (wire_name_of kn, off + length n)" by (rule l(1))
  show "unpack_HHIH (slice buf (off + length n) (off + length n + 10)) = Inr (250, 255, 0, length rdata)"
    using l(2) len by (simp add: unpack_HHIH_HHIH)
  have "holds_at buf (off + length n + 10) rdata"
    using at by (simp add: holds_at_append add.assoc)
  then show "parse_tsig_rdata (wire_name_of kn) buf (off + length n + 10) (length rdata) =
      Inr \<lparr>t_name = wire_name_of kn, t_algorithm = ''hmac-sha256.'', t_time = take_bit 48 when,
        t_fudge = fudge, t_mac = mac, t_orig_id = oid, t_error = err, t_other = other\<rparr>"
    by (rule parse_tsig_rdata_correct [OF r])
  show "off + length n + 10 + length rdata \<le> length buf" using l(4) by simp
qed

lemma parse_additional_tsig:
  assumes "encode_name kn = Inr n"
    and "tsig_rdata ALGORITHM_WIRE when fudge mac oid err other = Inr rdata"
    and "length rdata < 65536"
    and "holds_at buf off (n @ HHIH TYPE_TSIG CLASS_ANY 0 (length rdata) @ rdata)"
  shows "parse_additional buf 1 off None =
    Inr (off + length n + 10 + length rdata,
      Some (\<lparr>t_name = wire_name_of kn, t_algorithm = ''hmac-sha256.'', t_time = take_bit 48 when,
        t_fudge = fudge, t_mac = mac, t_orig_id = oid, t_error = err, t_other = other\<rparr>, off))"
  using tsig_record_at [OF assms] by (simp add: Let_def)

lemma question_wire_Inr_iff:
  "question_wire qn qt = Inr w \<longleftrightarrow> (\<exists>n. encode_name qn = Inr n \<and> qt < 65536 \<and> w = n @ be16 qt @ be16 1)"
  by (auto simp: question_wire_def bindE_Inr_iff pack_HH_def split: if_splits)

text \<open>The SOA a client puts in the authority section of an IXFR request yields its serial.\<close>

lemma parse_authority_soa:
  assumes a: "soa_authority zone serial = Inr a" and at: "holds_at buf off a"
  shows "parse_authority buf 1 off None = Inr (off + length a, Some (int serial))"
proof -
  let ?tail = "be32 7200 @ be32 3600 @ be32 1209600 @ be32 3600"
  from a obtain n where n: "encode_name zone = Inr n" and s: "serial < 4294967296"
    and len: "length n + length n + 20 < 65536"
    and a_def: "a = n @ HHIH 6 1 3600 (length n + length n + 20) @ n @ n @ be32 serial @ ?tail"
    by (auto simp: soa_authority_def bindE_Inr_iff pack_HHIH_def Let_def add.assoc split: if_splits)
  let ?L = "length n" and ?r = "off + length n + 10"
  note l = names.record_layout [OF n at [unfolded a_def]]
  have at': "holds_at buf ?r n" "holds_at buf (?r + ?L) n" "holds_at buf (?r + ?L + ?L) (be32 serial)"
    using at by (simp_all add: a_def holds_at_append add.assoc)
  have d: "decode_name buf ?r = Inr (wire_name_of zone, ?r + ?L)"
      "decode_name buf (?r + ?L) = Inr (wire_name_of zone, ?r + ?L + ?L)"
    by (rule names.dec_enc [OF n at'(1)], rule names.dec_enc [OF n at'(2)])
  have sl: "slice buf (?r + ?L + ?L) (?r + ?L + ?L + 4) = be32 serial"
    using at'(3) by (rule holds_at_slice') simp
  have "authority_serial buf ?r (?L + ?L + 20) None = Inr (Some (int serial))"
    unfolding authority_serial_def d bindE.simps prod.case sl using s by simp
  moreover have "unpack_HHIH (slice buf (off + ?L) (off + ?L + 10)) = Inr (6, 1, 3600, ?L + ?L + 20)"
    using l(2) len by (simp add: unpack_HHIH_HHIH)
  moreover have "?r + (?L + ?L + 20) \<le> length buf" using l(4) by simp
  moreover have "Suc 0 \<le> ?L" using names.enc_nonempty [OF n] by (cases n) auto
  ultimately show ?thesis using l(1) by (simp add: Let_def a_def)
qed

definition authority_of :: "string \<Rightarrow> nat option \<Rightarrow> exn + bytes" where
  "authority_of zone serial = (case serial of None \<Rightarrow> Inr [] | Some s \<Rightarrow> soa_authority zone s)"

lemma parse_authority_of:
  assumes "authority_of zone serial = Inr a" and "holds_at buf off a"
  shows "parse_authority buf (if a \<noteq> [] then 1 else 0) off None =
    Inr (off + length a, map_option int serial)"
proof (cases serial)
  case (Some s)
  with assms have "soa_authority zone s = Inr a" by (simp add: authority_of_def)
  moreover from this have "a \<noteq> []"
    by (auto simp: soa_authority_def bindE_Inr_iff pack_HHIH_def Let_def dest: names.enc_nonempty split: if_splits)
  ultimately show ?thesis using assms(2) Some parse_authority_soa by simp
qed (use assms in \<open>auto simp: authority_of_def\<close>)

lemma build_tsig_query_Inr_iff:
  "build_tsig_query hm qid qn qt kn secret when fudge auth = Inr wire \<longleftrightarrow>
    (\<exists>n k v rdata.
      let h = header_wire qid 256 1 0 (if auth \<noteq> [] then 1 else 0) 1;
          base = h @ (n @ be16 qt @ be16 1) @ auth; mac = hm secret (base @ v) in
      qid < 65536 \<and> qt < 65536 \<and> encode_name qn = Inr n \<and> encode_name kn = Inr k \<and>
      tsig_variables kn ALGORITHM_WIRE when fudge 0 [] = Inr v \<and>
      tsig_rdata ALGORITHM_WIRE when fudge mac qid 0 [] = Inr rdata \<and> length rdata < 65536 \<and>
      wire = base @ k @ HHIH TYPE_TSIG CLASS_ANY 0 (length rdata) @ rdata)"
  unfolding build_tsig_query_def
  by (auto simp: bindE_Inr_iff build_header_Inr_iff question_wire_Inr_iff Let_def patch_arcount_header
      pack_HHIH_def split: if_splits)

lemma parse_signed_query:
  assumes q: "build_tsig_query hm qid qn qt kn secret when fudge auth = Inr wire"
    and auth: "authority_of zone serial = Inr auth"
  shows "\<exists>q t. parse_query wire = Inr q \<and> q_tsig q = Some t \<and>
    q_id q = qid \<and> q_qname q = wire_name_of qn \<and> q_qtype q = qt \<and> q_qclass q = 1 \<and>
    question_wire qn qt = Inr (q_raw_question q) \<and>
    q_client_soa_serial q = map_option int serial \<and>
    t_name t = wire_name_of kn \<and> t_algorithm t = ''hmac-sha256.'' \<and> t_time t = take_bit 48 when \<and>
    t_fudge t = fudge \<and> t_orig_id t = qid \<and> t_error t = 0 \<and> t_other t = [] \<and>
    expected_request_mac hm secret q = Inr (t_mac t)"
proof -
  from q obtain n k v rdata where
    b: "qid < 65536" "qt < 65536" and n: "encode_name qn = Inr n" and k: "encode_name kn = Inr k"
    and v: "tsig_variables kn ALGORITHM_WIRE when fudge 0 [] = Inr v"
    and r: "tsig_rdata ALGORITHM_WIRE when fudge
        (hm secret ((header_wire qid 256 1 0 (if auth \<noteq> [] then 1 else 0) 1
          @ (n @ be16 qt @ be16 1) @ auth) @ v)) qid 0 [] = Inr rdata"
    and len: "length rdata < 65536"
    and w: "wire = (header_wire qid 256 1 0 (if auth \<noteq> [] then 1 else 0) 1
        @ (n @ be16 qt @ be16 1) @ auth) @ k @ HHIH 250 255 0 (length rdata) @ rdata"
    unfolding build_tsig_query_Inr_iff Let_def by blast
  let ?ns = "if auth \<noteq> [] then 1 else 0 :: nat"
  let ?h = "header_wire qid 256 1 0 ?ns 1"
  let ?base = "?h @ (n @ be16 qt @ be16 1) @ auth"
  let ?R = "k @ HHIH 250 255 0 (length rdata) @ rdata"
  have at0: "holds_at wire 0 (?h @ n @ (be16 qt @ be16 1) @ auth @ ?R)"
    using w by (simp add: holds_at_def)
  then have at: "holds_at wire 0 ?h" "holds_at wire 12 n" "holds_at wire (12 + length n) (be16 qt @ be16 1)"
      "holds_at wire (12 + length n + 4) auth" "holds_at wire (12 + length n + 4 + length auth) ?R"
    by (simp_all only: holds_at_append length_append length_be16 length_header_wire add_0 add.assoc) simp_all
  have hdr: "unpack_header (slice wire 0 12) = Inr (qid, 256, 1, 0, ?ns, 1)"
    using holds_at_slice [OF at(1)] b by (simp add: unpack_header_wire)
  have qn: "decode_name wire 12 = Inr (wire_name_of qn, 12 + length n)"
    by (rule names.dec_enc [OF n at(2)])
  have qq: "unpack_HH (slice wire (12 + length n) (12 + length n + 4)) = Inr (qt, 1)"
    using holds_at_slice [OF at(3)] b by (simp add: unpack_HH_be16)
  have au: "parse_authority wire ?ns (12 + length n + 4) None =
      Inr (12 + length n + 4 + length auth, map_option int serial)"
    by (rule parse_authority_of [OF auth at(4)])
  have ad: "parse_additional wire 1 (12 + length n + 4 + length auth) None =
      Inr (length wire, Some (\<lparr>t_name = wire_name_of kn, t_algorithm = ''hmac-sha256.'',
        t_time = take_bit 48 when, t_fudge = fudge, t_mac = hm secret (?base @ v), t_orig_id = qid,
        t_error = 0, t_other = []\<rparr>, 12 + length n + 4 + length auth))"
    using parse_additional_tsig [OF k r len at(5)] by (simp add: w)
  have bounds: "\<not> length wire < 12" "\<not> length wire < 12 + length n + 4"
    by (simp_all add: w)
  have rq: "slice wire 12 (12 + length n + 4) = n @ be16 qt @ be16 1"
    by (rule holds_at_slice') (use at(2,3) in \<open>simp_all add: holds_at_append\<close>)
  have tk: "take (12 + length n + 4 + length auth) wire = ?base"
    by (simp add: w)
  have pb: "patch_arcount ?base 1 = Inr ?base"
    using patch_arcount_header [of 1 qid 256 1 0 ?ns 1] by simp
  have v': "tsig_variables (wire_name_of kn) ALGORITHM_WIRE (take_bit 48 when) fudge 0 [] = Inr v"
    by (rule tsig_variables_wire_name [OF v])
  have qr: "(256 :: nat) AND 0x8000 = 0" by simp
  let ?t = "\<lparr>t_name = wire_name_of kn, t_algorithm = ''hmac-sha256.'', t_time = take_bit 48 when,
    t_fudge = fudge, t_mac = hm secret (?base @ v), t_orig_id = qid, t_error = 0, t_other = []\<rparr>"
  let ?q = "\<lparr>q_id = qid, q_flags = 256, q_qname = wire_name_of qn, q_qtype = qt, q_qclass = 1,
    q_raw_question = n @ be16 qt @ be16 1, q_tsig = Some ?t,
    q_tsig_offset = Some (12 + length n + 4 + length auth), q_arcount = 1, q_raw = wire,
    q_client_soa_serial = map_option int serial\<rparr>"
  have "parse_query wire = Inr ?q"
    unfolding parse_query_def using bounds
    by (simp only: if_False hdr bindE.simps prod.case qr qn qq Let_def au ad refl simp_thms if_True
        rq option.map fst_conv snd_conv)
  moreover have "expected_request_mac hm secret ?q = Inr (t_mac ?t)"
    by (simp only: expected_request_mac_def digest_block_def query.simps tsig_rr.simps option.case
        Let_def tk pb v' bindE.simps)
  ultimately show ?thesis
    by (intro exI [of _ ?q] exI [of _ ?t]) (simp add: question_wire_Inr_iff n b)
qed

end
