(* ===== verification/Stream_Wire.thy ===== *)
theory Stream_Wire
  imports Replay Client
begin

text \<open>
  Transfers on the wire: every record of a retained version packs, the messages carry the
  whole stream in order and never exceed the TCP limit, and the client parses them back.
\<close>

subsection \<open>Records on the wire\<close>

fun data_wire :: "delta_row \<Rightarrow> exn + bytes" where
  "data_wire (n, t, ttl, rd, w) = type_rr_wire n t ttl w"

fun data_rr :: "delta_row \<Rightarrow> rr" where
  "data_rr (n, t, ttl, rd, w) =
     \<lparr>rr_owner = wire_name_of n, rr_type = (case TYPES_BY_NAME t of None \<Rightarrow> 0 | Some k \<Rightarrow> k), rr_class = 1,
       rr_ttl = nat ttl, rr_data = w\<rparr>"

fun data_fits :: "delta_row \<Rightarrow> bool" where
  "data_fits (n, t, ttl, rd, w) = row_fits n t ttl w"

lemma rr_wire_data: "rr_wire r = data_wire (row_data r)"
  and change_wire_data: "change_wire c = data_wire (change_data c)"
  by (simp_all add: rr_wire_def row_data_def change_wire_def change_data_def)

lemma supported_type_number: "t \<in> set SUPPORTED_TYPES \<Longrightarrow> \<exists>k < 65536. TYPES_BY_NAME t = Some k"
  by (auto simp: SUPPORTED_TYPES_def TYPES_BY_NAME_def)

lemma type_rr_wire_Inr_iff:
  "type_rr_wire n t ttl w = Inr b \<longleftrightarrow>
    (\<exists>k nw. TYPES_BY_NAME t = Some k \<and> encode_name n = Inr nw \<and> 0 \<le> ttl \<and> ttl \<le> 4294967295 \<and> k < 65536 \<and>
      length w < 65536 \<and> b = nw @ HHIH k 1 (nat ttl) (length w) @ w)"
  by (auto simp: type_rr_wire_def pack_rr_Inr_iff split: option.splits)

lemma data_wire_fits:
  assumes "data_fits x"
  obtains b where "data_wire x = Inr b" "length b \<le> 64835" "b \<noteq> []"
proof -
  obtain n t ttl rd w where x: "x = (n, t, ttl, rd, w)" by (cases x)
  with assms obtain nw where "t \<in> set SUPPORTED_TYPES" "0 \<le> ttl" "ttl \<le> 4294967295" "encode_name n = Inr nw"
    "length nw + 10 + length w \<le> 64835" by (auto simp: row_fits_def)
  moreover from this supported_type_number obtain k where "k < 65536" "TYPES_BY_NAME t = Some k" by blast
  ultimately show ?thesis using names.enc_nonempty
    by (intro that [of "nw @ HHIH k 1 (nat ttl) (length w) @ w"]) (auto simp: x type_rr_wire_Inr_iff)
qed

text \<open>The client's parser reads back every packed record.\<close>

lemma parse_rrs_data:
  "list_all2 (\<lambda>x b. data_wire x = Inr b) xs bs \<Longrightarrow> holds_at buf off (concat bs) \<Longrightarrow>
    parse_rrs buf off (length bs) = Inr (map data_rr xs, off + length (concat bs))"
proof (induction xs bs arbitrary: off rule: list_all2_induct)
  case (Cons x xs b bs)
  obtain n t ttl rd w where x: "x = (n, t, ttl, rd, w)" by (cases x)
  from Cons.hyps(1) obtain k nw where k: "TYPES_BY_NAME t = Some k" and n: "encode_name n = Inr nw"
    and bd: "0 \<le> ttl" "ttl \<le> 4294967295" "k < 65536" "length w < 65536"
    and b: "b = nw @ HHIH k 1 (nat ttl) (length w) @ w"
    by (auto simp: x type_rr_wire_Inr_iff)
  from Cons.prems have at: "holds_at buf off b" and rest: "holds_at buf (off + length b) (concat bs)"
    by (simp_all add: holds_at_append)
  note l = names.record_layout [OF n at [unfolded b]]
  have u: "unpack_HHIH (HHIH k 1 (nat ttl) (length w)) = Inr (k, 1, nat ttl, length w)"
    using bd by (intro unpack_HHIH_HHIH) auto
  have w: "slice buf (off + length nw + 10) (off + length nw + 10 + length w) = w"
    using at by (intro holds_at_slice) (simp add: b holds_at_append add.assoc)
  have lb: "length b = length nw + 10 + length w" by (simp add: b)
  then have e: "off + length b = off + length nw + 10 + length w" by simp
  have ih: "parse_rrs buf (off + length nw + 10 + length w) (length bs) =
      Inr (map data_rr xs, off + length (concat (b # bs)))"
    using Cons.IH [OF rest] unfolding e by (simp add: lb)
  show ?case
    using l(1,2) u w ih by (simp add: x k Let_def)
qed simp


subsection \<open>Batches\<close>

text \<open>
  What \<open>_rr_batches\<close> promises of a stream without an error: the batches cut the stream in
  order, a batch is within the budget unless it is a single record, and only the batch of an
  empty stream is empty.
\<close>

definition batch_size :: "bytes \<Rightarrow> bytes list \<Rightarrow> nat" where
  "batch_size question g = 12 + length question + length (concat g)"

definition batch_ok :: "bytes \<Rightarrow> int \<Rightarrow> bytes list \<Rightarrow> bool" where
  "batch_ok question room g \<longleftrightarrow> int (batch_size question g) \<le> room \<or> length g \<le> 1"

lemma batch_loop_groups:
  assumes "int cur_len = int (batch_size question cur)" and "batch_ok question room cur"
  shows "\<exists>gs. batch_loop qid question room cur cur_len (map Inr bs) = map (wrap qid question) gs \<and>
    concat gs = cur @ bs \<and> gs \<noteq> [] \<and> (\<forall>g \<in> set gs. batch_ok question room g) \<and>
    (cur @ bs \<noteq> [] \<longrightarrow> [] \<notin> set gs)"
  using assms
proof (induction bs arbitrary: cur cur_len)
  case Nil
  then show ?case by (intro exI [of _ "[cur]"]) auto
next
  case (Cons b bs)
  show ?case
  proof (cases "cur \<noteq> [] \<and> room < int (cur_len + length b)")
    case True
    have "int (12 + length question + length b) = int (batch_size question [b])" by (simp add: batch_size_def)
    from Cons.IH [OF this] obtain gs where
      "batch_loop qid question room [b] (12 + length question + length b) (map Inr bs) = map (wrap qid question) gs"
      "concat gs = b # bs" "gs \<noteq> []" "\<forall>g \<in> set gs. batch_ok question room g" "[] \<notin> set gs"
      by (auto simp: batch_ok_def)
    with True Cons.prems(2) show ?thesis by (intro exI [of _ "cur # gs"]) auto
  next
    case False
    have "int (cur_len + length b) = int (batch_size question (cur @ [b]))"
      using Cons.prems(1) by (simp add: batch_size_def)
    moreover from this False have "batch_ok question room (cur @ [b])"
      by (cases "cur = []") (auto simp: batch_ok_def)
    ultimately obtain gs where
      "batch_loop qid question room (cur @ [b]) (cur_len + length b) (map Inr bs) = map (wrap qid question) gs"
      "concat gs = (cur @ [b]) @ bs" "gs \<noteq> []" "\<forall>g \<in> set gs. batch_ok question room g" "[] \<notin> set gs"
      using Cons.IH [of "cur_len + length b" "cur @ [b]"] by auto
    with False show ?thesis by (intro exI [of _ gs]) auto
  qed
qed

lemma rr_batches_groups:
  obtains gs where "rr_batches qid question (map Inr bs) budget tsig_space = map (wrap qid question) gs"
    "concat gs = bs" "gs \<noteq> []" "\<forall>g \<in> set gs. batch_ok question (budget - tsig_space) g"
    "bs \<noteq> [] \<Longrightarrow> [] \<notin> set gs"
proof -
  have "\<exists>gs. batch_loop qid question (budget - tsig_space) [] (12 + length question) (map Inr bs) =
      map (wrap qid question) gs \<and> concat gs = [] @ bs \<and> gs \<noteq> [] \<and>
      (\<forall>g \<in> set gs. batch_ok question (budget - tsig_space) g) \<and> ([] @ bs \<noteq> [] \<longrightarrow> [] \<notin> set gs)"
    by (rule batch_loop_groups) (simp_all add: batch_size_def batch_ok_def)
  then show ?thesis using that unfolding rr_batches_def append_Nil by metis
qed

text \<open>The flags of a transfer message: a response, authoritative, no error.\<close>

definition transfer_flags :: nat where "transfer_flags = 0x8400"

definition batch_message :: "nat \<Rightarrow> bytes \<Rightarrow> nat \<Rightarrow> bytes list \<Rightarrow> bytes" where
  "batch_message qid question ar g = header_wire qid transfer_flags 1 (length g) 0 ar @ question @ concat g"

lemma length_le_concat: "[] \<notin> set g \<Longrightarrow> length g \<le> length (concat g)"
proof (induction g)
  case (Cons b g)
  then have "1 \<le> length b" by (cases b) auto
  with Cons show ?case by simp
qed simp

lemma wrap_batch:
  "qid < 65536 \<Longrightarrow> length g < 65536 \<Longrightarrow> wrap qid question g = Inr (batch_message qid question 0 g)"
  by (simp add: wrap_def build_header_def batch_message_def transfer_flags_def)

text \<open>
  With the service's 400 bytes for the TSIG record and records that passed
  \<open>rr_fits_message\<close>, a message stays below 65107 bytes for every configured budget.
\<close>

lemma batch_bound:
  assumes "batch_ok question (transfer_budget budget - 400) g" and "length question \<le> 259"
    and "\<forall>b \<in> set g. length b \<le> 64835 \<and> b \<noteq> []"
  shows "batch_size question g \<le> 65106" and "length g < 65536"
proof -
  have one: "length (concat g) \<le> 64835" if "length g \<le> 1"
    using that assms(3) by (cases g) auto
  show s: "batch_size question g \<le> 65106"
  proof (cases "length g \<le> 1")
    case False
    then show ?thesis using assms(1) by (simp add: batch_ok_def transfer_budget_def)
  qed (use one assms(2) in \<open>simp add: batch_size_def\<close>)
  have "[] \<notin> set g" using assms(3) by auto
  from length_le_concat [OF this] s show "length g < 65536" by (simp add: batch_size_def)
qed


subsection \<open>Signing and parsing a message\<close>

definition tsig_tail :: "bytes \<Rightarrow> bytes \<Rightarrow> bytes" where
  "tsig_tail k rdata = k @ HHIH TYPE_TSIG CLASS_ANY 0 (length rdata) @ rdata"

lemma tsig_variables_time:
  "tsig_variables kn alg (take_bit 48 when) fudge error other = tsig_variables kn alg when fudge error other"
proof -
  have "take_bit 16 (drop_bit 32 (take_bit 48 when)) = take_bit 16 (drop_bit 32 when)"
    by (simp add: drop_bit_take_bit)
  moreover have "take_bit 32 (take_bit 48 when) = take_bit 32 when" by simp
  ultimately show ?thesis by (simp add: tsig_variables_def)
qed

lemma patch_batch:
  "ar < 65536 \<Longrightarrow> patch_arcount (batch_message qid question n g @ rest) ar = Inr (batch_message qid question ar g @ rest)"
  by (simp add: batch_message_def patch_arcount_header)

lemma sign_batch:
  assumes k: "encode_name kn = Inr k" and qid: "qid < 65536" and mac: "\<And>key m. length (hm key m) = 32"
    and prior: "length prior < 65536"
  obtains v rdata where "tsig_variables kn ALGORITHM_WIRE when 300 0 [] = Inr v"
    "tsig_rdata ALGORITHM_WIRE when 300 (hm key ((be16 (length prior) @ prior) @ batch_message qid question 1 g @ v))
       qid 0 [] = Inr rdata" "length rdata = 61"
    "sign_response hm key (batch_message qid question 0 g) kn prior when 300 qid 0 0 [] =
       Inr (batch_message qid question 1 g @ tsig_tail k rdata,
         hm key ((be16 (length prior) @ prior) @ batch_message qid question 1 g @ v))"
proof -
  obtain v where v: "tsig_variables kn ALGORITHM_WIRE when 300 0 [] = Inr v"
    using k by (auto simp: tsig_variables_Inr_iff)
  let ?m = "hm key ((be16 (length prior) @ prior) @ batch_message qid question 1 g @ v)"
  obtain rdata where r: "tsig_rdata ALGORITHM_WIRE when 300 ?m qid 0 [] = Inr rdata"
    using qid mac by (auto simp: tsig_rdata_Inr_iff)
  then have len: "length rdata = 61" using mac by (auto simp: tsig_rdata_Inr_iff)
  have pb: "patch_arcount (batch_message qid question 0 g) 1 = Inr (batch_message qid question 1 g)"
    using patch_batch [of 1 qid question 0 g "[]"] by simp
  have pm: "prior_mac_wire prior = Inr (be16 (length prior) @ prior)" using prior by (simp add: prior_mac_wire_def pack16_def)
  have "append_tsig (batch_message qid question 0 g) kn when 300 ?m qid 0 (Some 0) [] =
      Inr (batch_message qid question 1 g @ tsig_tail k rdata)"
    unfolding append_tsig_def using k r pb len by (simp add: pack_HHIH_def tsig_tail_def)
  then have "sign_response hm key (batch_message qid question 0 g) kn prior when 300 qid 0 0 [] =
       Inr (batch_message qid question 1 g @ tsig_tail k rdata, ?m)"
    unfolding sign_response_def add_0 pb pm v bindE.simps Let_def by (simp only: append_assoc bindE.simps prod.case)
  from that [OF v r len this] show ?thesis .
qed

definition batch_view :: "nat \<Rightarrow> string \<Rightarrow> nat \<Rightarrow> delta_row list \<Rightarrow> message \<Rightarrow> bool" where
  "batch_view qid qname qtype xs m \<longleftrightarrow>
     m_id m = qid \<and> m_flags m = transfer_flags \<and> m_rcode m = 0 \<and> m_aa m \<and> \<not> m_tc m \<and>
     m_qname m = wire_name_of qname \<and> m_qtype m = qtype \<and> m_answers m = map data_rr xs \<and> m_authority m = []"

lemma parse_batch:
  assumes qw: "question_wire qname qtype = Inr question" and qid: "qid < 65536" and ar: "ar < 65536"
    and g: "list_all2 (\<lambda>x b. data_wire x = Inr b) xs g" and len: "length g < 65536"
    and tail: "parse_client_additional (batch_message qid question ar g @ tail) ar
      (length (batch_message qid question ar g)) None [] = Inr (tsig, extra)"
  obtains m where "parse_message (batch_message qid question ar g @ tail) = Inr m"
    "batch_view qid qname qtype xs m" "m_tsig m = map_option fst tsig" "m_tsig_offset m = map_option snd tsig"
    "m_raw m = batch_message qid question ar g @ tail" "m_arcount m = ar" "m_additionals m = extra"
proof -
  let ?buf = "batch_message qid question ar g @ tail"
  from qw obtain n where n: "encode_name qname = Inr n" and qt: "qtype < 65536"
    and q: "question = n @ be16 qtype @ be16 1" by (auto simp: question_wire_Inr_iff)
  have "holds_at ?buf 0 (header_wire qid transfer_flags 1 (length g) 0 ar @ n @ (be16 qtype @ be16 1) @ concat g)"
    by (simp add: holds_at_def batch_message_def q)
  then have at: "holds_at ?buf 0 (header_wire qid transfer_flags 1 (length g) 0 ar)" "holds_at ?buf 12 n"
      "holds_at ?buf (12 + length n) (be16 qtype @ be16 1)" "holds_at ?buf (12 + length n + 4) (concat g)"
    by (simp_all only: holds_at_append length_append length_be16 length_header_wire add_0 add.assoc) simp_all
  have fl: "transfer_flags < 65536" by (simp add: transfer_flags_def)
  have h: "unpack_header (slice ?buf 0 12) = Inr (qid, transfer_flags, 1, length g, 0, ar)"
    using holds_at_slice [OF at(1)] unpack_header_wire [OF qid fl _ len _ ar] by simp
  have nm: "decode_name ?buf 12 = Inr (wire_name_of qname, 12 + length n)"
    by (rule names.dec_enc [OF n at(2)])
  have qq: "unpack_HH (slice ?buf (12 + length n) (12 + length n + 4)) = Inr (qtype, 1)"
    using holds_at_slice [OF at(3)] qt by (simp add: unpack_HH_be16)
  have an: "parse_rrs ?buf (12 + length n + 4) (length g) = Inr (map data_rr xs, length (batch_message qid question ar g))"
    using parse_rrs_data [OF g at(4)] by (simp add: batch_message_def q add.assoc)
  let ?m = "\<lparr>m_id = qid, m_flags = transfer_flags, m_rcode = transfer_flags AND 0xF,
      m_tc = (transfer_flags AND FLAG_TC \<noteq> 0), m_aa = (transfer_flags AND FLAG_AA \<noteq> 0),
      m_qname = wire_name_of qname, m_qtype = qtype, m_answers = map data_rr xs, m_authority = [],
      m_additionals = extra, m_tsig = map_option fst tsig, m_tsig_offset = map_option snd tsig, m_raw = ?buf,
      m_arcount = ar, m_question_end = 12 + length n + 4\<rparr>"
  have "parse_message ?buf = Inr ?m"
    unfolding parse_message_def by (simp only: h bindE.simps prod.case nm qq Let_def an parse_rrs.simps tail)
  moreover have "batch_view qid qname qtype xs ?m"
    by (simp add: batch_view_def transfer_flags_def)
  moreover have "m_tsig ?m = map_option fst tsig" "m_tsig_offset ?m = map_option snd tsig" "m_raw ?m = ?buf"
    "m_arcount ?m = ar" "m_additionals ?m = extra"
    by (simp_all only: message.simps)
  ultimately show ?thesis using that by blast
qed

lemma parse_plain_batch:
  assumes "question_wire qname qtype = Inr question" and "qid < 65536"
    and "list_all2 (\<lambda>x b. data_wire x = Inr b) xs g" and "length g < 65536"
  shows "\<exists>m. parse_message (batch_message qid question 0 g) = Inr m \<and> batch_view qid qname qtype xs m \<and> m_tsig m = None"
proof -
  have "parse_client_additional (batch_message qid question 0 g @ []) 0 (length (batch_message qid question 0 g)) None []
      = Inr (None, [])" by simp
  from parse_batch [OF assms(1,2) _ assms(3,4) this] show ?thesis by force
qed

text \<open>The signed message parses, and its MAC verifies against the MAC it was chained to.\<close>

lemma parse_signed_batch:
  assumes k: "encode_name kn = Inr k" and qid: "qid < 65536" and mac: "\<And>key m. length (hm key m) = 32"
    and prior: "length prior < 65536" and qw: "question_wire qname qtype = Inr question"
    and g: "list_all2 (\<lambda>x b. data_wire x = Inr b) xs g" and len: "length g < 65536"
  obtains signed m' m t where
    "sign_response hm key (batch_message qid question 0 g) kn prior when 300 qid 0 0 [] = Inr (signed, m')"
    "length signed = batch_size question g + length k + 71" "parse_message signed = Inr m"
    "batch_view qid qname qtype xs m" "length m' = 32" "m_tsig m = Some t" "t_mac t = m'" "t_name t = wire_name_of kn"
    "t_error t = 0" "t_time t = take_bit 48 when" "verify_response_mac hm m key prior kn = Inr (Some m')"
proof -
  obtain v rdata where v: "tsig_variables kn ALGORITHM_WIRE when 300 0 [] = Inr v"
    and r: "tsig_rdata ALGORITHM_WIRE when 300 (hm key ((be16 (length prior) @ prior) @ batch_message qid question 1 g @ v))
       qid 0 [] = Inr rdata" and l: "length rdata = 61"
    and s: "sign_response hm key (batch_message qid question 0 g) kn prior when 300 qid 0 0 [] =
       Inr (batch_message qid question 1 g @ tsig_tail k rdata,
         hm key ((be16 (length prior) @ prior) @ batch_message qid question 1 g @ v))"
    by (rule sign_batch [OF k qid mac prior])
  let ?B = "batch_message qid question 1 g" and ?m = "hm key ((be16 (length prior) @ prior) @ batch_message qid question 1 g @ v)"
  let ?buf = "?B @ tsig_tail k rdata"
  let ?t = "\<lparr>t_name = wire_name_of kn, t_algorithm = ''hmac-sha256.'', t_time = take_bit 48 when, t_fudge = 300,
      t_mac = ?m, t_orig_id = qid, t_error = 0, t_other = []\<rparr>"
  have at: "holds_at ?buf (length ?B) (k @ HHIH TYPE_TSIG CLASS_ANY 0 (length rdata) @ rdata)"
    by (simp add: holds_at_def tsig_tail_def)
  have l': "length rdata < 65536" using l by simp
  note rec = tsig_record_at [OF k r l' at]
  obtain extra where ad: "parse_client_additional ?buf 1 (length ?B) None [] = Inr (Some (?t, length ?B), extra)"
    using rec by (simp add: Let_def)
  from parse_batch [OF qw qid _ g len ad] obtain m where m: "parse_message ?buf = Inr m"
    "batch_view qid qname qtype xs m" "m_tsig m = Some ?t" "m_tsig_offset m = Some (length ?B)" "m_raw m = ?buf"
    "m_arcount m = 1" by auto
  have "signed_base m = Inr ?B"
    using patch_batch [of 1 qid question 1 g "[]"] by (simp add: signed_base_def m)
  then have "verify_response_mac hm m key prior kn = Inr (Some ?m)"
    using prior v by (simp add: verify_response_mac_def m pack16_def tsig_variables_time)
  moreover have "length ?buf = batch_size question g + length k + 71"
    by (simp add: batch_message_def batch_size_def tsig_tail_def l)
  ultimately show ?thesis using s m mac by (intro that [of ?buf ?m m ?t]) simp_all
qed


subsection \<open>The signed stream\<close>

definition frame_reads :: "bytes \<Rightarrow> message \<Rightarrow> bool" where
  "frame_reads f m \<longleftrightarrow> (\<exists>msg. f = be16 (length msg) @ msg \<and> length msg \<le> 65535 \<and> parse_message msg = Inr m)"

text \<open>A transfer that can be signed, and a batch that can be sent.\<close>

definition stream_env :: "mac_fun \<Rightarrow> plan \<Rightarrow> query \<Rightarrow> string \<Rightarrow> nat \<Rightarrow> bytes \<Rightarrow> bool" where
  "stream_env hm p q qname qtype question \<longleftrightarrow>
     (\<exists>k. encode_name (tp_key_name p) = Inr k \<and> length k \<le> 255) \<and> q_id q < 65536 \<and>
     (\<forall>key m. length (hm key m) = 32) \<and> question_wire qname qtype = Inr question"

definition batch_good :: "bytes \<Rightarrow> delta_row list \<Rightarrow> bytes list \<Rightarrow> bool" where
  "batch_good question xs g \<longleftrightarrow>
     list_all2 (\<lambda>x b. data_wire x = Inr b) xs g \<and> batch_size question g \<le> 65106 \<and> length g < 65536"

definition verifies :: "mac_fun \<Rightarrow> plan \<Rightarrow> message \<Rightarrow> bytes \<Rightarrow> bytes \<Rightarrow> bool" where
  "verifies hm p m prior mac \<longleftrightarrow>
     verify_response_mac hm m (tp_secret p) prior (tp_key_name p) = Inr (Some mac) \<and> length mac = 32"

lemma frame_Inr: "length m \<le> 65535 \<Longrightarrow> frame m = Inr (be16 (length m) @ m)"
  by (simp add: frame_def pack16_def)

lemma send_signed:
  assumes env: "stream_env hm p q qname qtype question" and good: "batch_good question xs g"
    and prior: "if i = 0 then \<exists>t. q_tsig q = Some t \<and> t_mac t = prior else first_mac = Some prior"
    and len: "length prior < 65536" and sign: "i = 0 \<or> is_last"
  obtains f m mac where
    "send_indexed hm p q when i (batch_message (q_id q) question 0 g) is_last first_mac =
       Inr (f, if i = 0 then Some mac else first_mac)"
    "frame_reads f m" "batch_view (q_id q) qname qtype xs m" "verifies hm p m prior mac"
proof -
  from env obtain k where k: "encode_name (tp_key_name p) = Inr k" "length k \<le> 255" and qid: "q_id q < 65536"
    and mac: "\<And>key m. length (hm key m) = 32" and qw: "question_wire qname qtype = Inr question"
    by (auto simp: stream_env_def)
  from good have g: "list_all2 (\<lambda>x b. data_wire x = Inr b) xs g" "length g < 65536" "batch_size question g \<le> 65106"
    by (simp_all add: batch_good_def)
  obtain signed mac m t where s:
    "sign_response hm (tp_secret p) (batch_message (q_id q) question 0 g) (tp_key_name p) prior when 300 (q_id q) 0 0 []
       = Inr (signed, mac)"
    and l: "length signed = batch_size question g + length k + 71" and m: "parse_message signed = Inr m"
    and v: "batch_view (q_id q) qname qtype xs m" "length mac = 32"
    and ver: "verify_response_mac hm m (tp_secret p) prior (tp_key_name p) = Inr (Some mac)"
    by (rule parse_signed_batch [OF k(1) qid mac len qw g(1,2)])
  have le: "length signed \<le> 65535" using l g k by simp
  from that [of "be16 (length signed) @ signed" mac m] prior sign s le m v ver show ?thesis
    by (auto simp: send_indexed_def frame_Inr frame_reads_def verifies_def split: if_splits)
qed

lemma send_plain:
  assumes env: "stream_env hm p q qname qtype question" and good: "batch_good question xs g" and "i \<noteq> 0"
  obtains f m where
    "send_indexed hm p q when i (batch_message (q_id q) question 0 g) False first_mac = Inr (f, first_mac)"
    "frame_reads f m" "batch_view (q_id q) qname qtype xs m" "m_tsig m = None"
proof -
  let ?B = "batch_message (q_id q) question 0 g"
  from env have qid: "q_id q < 65536" and qw: "question_wire qname qtype = Inr question" by (auto simp: stream_env_def)
  from good have g: "list_all2 (\<lambda>x b. data_wire x = Inr b) xs g" "length g < 65536" "batch_size question g \<le> 65106"
    by (simp_all add: batch_good_def)
  from parse_plain_batch [OF qw qid g(1,2)] obtain m where m: "parse_message ?B = Inr m"
    "batch_view (q_id q) qname qtype xs m" "m_tsig m = None" by blast
  have "length ?B \<le> 65535" using g(3) by (simp add: batch_message_def batch_size_def)
  with m assms(3) show ?thesis
    by (intro that [of "be16 (length ?B) @ ?B" m]) (auto simp: send_indexed_def frame_Inr frame_reads_def)
qed

text \<open>
  From message 1 on: every frame but the last is unsigned, the last is signed with the MAC
  of the first response as its prior MAC.
\<close>

lemma stream_rest:
  assumes env: "stream_env hm p q qname qtype question" and len: "length mac1 < 65536"
  shows "list_all2 (batch_good question) (xs # xss) (g # gs) \<Longrightarrow> i \<noteq> 0 \<Longrightarrow>
    \<exists>fs ms mac. stream_loop hm p q when i (Some mac1) (Some (batch_message (q_id q) question 0 g))
        (map (\<lambda>g. Inr (batch_message (q_id q) question 0 g)) gs) = (fs, Inr ()) \<and>
      list_all2 frame_reads fs ms \<and> list_all2 (batch_view (q_id q) qname qtype) (xs # xss) ms \<and>
      (\<forall>m \<in> set (butlast ms). m_tsig m = None) \<and> verifies hm p (last ms) mac1 mac"
proof (induction gs arbitrary: g xs xss i)
  case Nil
  then have "batch_good question xs g" and [simp]: "xss = []" by auto
  from send_signed [OF env this(1), of i mac1 "Some mac1" True "when"] Nil.prems(2) len obtain f m mac where
    "send_indexed hm p q when i (batch_message (q_id q) question 0 g) True (Some mac1) = Inr (f, Some mac1)"
    "frame_reads f m" "batch_view (q_id q) qname qtype xs m" "verifies hm p m mac1 mac" by auto
  then show ?case by (intro exI [of _ "[f]"] exI [of _ "[m]"] exI [of _ mac]) simp
next
  case (Cons g' gs)
  then obtain xs' xss' where xss: "xss = xs' # xss'" and good: "batch_good question xs g"
    and rest: "list_all2 (batch_good question) (xs' # xss') (g' # gs)" by (auto simp: list_all2_Cons2)
  from send_plain [OF env good Cons.prems(2), of "when" "Some mac1"] obtain f m where f:
    "send_indexed hm p q when i (batch_message (q_id q) question 0 g) False (Some mac1) = Inr (f, Some mac1)"
    "frame_reads f m" "batch_view (q_id q) qname qtype xs m" "m_tsig m = None" by auto
  from Cons.IH [OF rest, of "i + 1"] obtain fs ms mac where ih:
    "stream_loop hm p q when (i + 1) (Some mac1) (Some (batch_message (q_id q) question 0 g'))
        (map (\<lambda>g. Inr (batch_message (q_id q) question 0 g)) gs) = (fs, Inr ())"
    "list_all2 frame_reads fs ms" "list_all2 (batch_view (q_id q) qname qtype) (xs' # xss') ms"
    "\<forall>m \<in> set (butlast ms). m_tsig m = None" "verifies hm p (last ms) mac1 mac" by auto
  have "ms \<noteq> []" using ih(3) by auto
  with f ih show ?case
    by (intro exI [of _ "f # fs"] exI [of _ "m # ms"] exI [of _ mac]) (simp add: xss)
qed

lemma stream_all:
  assumes env: "stream_env hm p q qname qtype question" and t: "q_tsig q = Some t" and len: "length (t_mac t) < 65536"
    and good: "list_all2 (batch_good question) xss gs" and ne: "gs \<noteq> []"
  shows "\<exists>fs m1 ms mac1 mac2.
    stream_signed_transfer hm p q when (map (\<lambda>g. Inr (batch_message (q_id q) question 0 g)) gs) = (fs, Inr ()) \<and>
    list_all2 frame_reads fs (m1 # ms) \<and> list_all2 (batch_view (q_id q) qname qtype) xss (m1 # ms) \<and>
    verifies hm p m1 (t_mac t) mac1 \<and> (\<forall>m \<in> set (butlast ms). m_tsig m = None) \<and>
    (ms \<noteq> [] \<longrightarrow> verifies hm p (last ms) mac1 mac2)"
proof -
  from good ne obtain g gs' xs xss' where gs: "gs = g # gs'" "xss = xs # xss'" and good1: "batch_good question xs g"
    and rest: "list_all2 (batch_good question) xss' gs'" by (cases gs) (auto simp: list_all2_Cons2)
  have prior: "if (0 :: nat) = 0 then \<exists>u. q_tsig q = Some u \<and> t_mac u = t_mac t else None = Some (t_mac t)"
    using t by simp
  obtain f m mac where f0:
    "send_indexed hm p q when 0 (batch_message (q_id q) question 0 g) (gs' = []) None =
      Inr (f, if (0 :: nat) = 0 then Some mac else None)"
    "frame_reads f m" "batch_view (q_id q) qname qtype xs m" "verifies hm p m (t_mac t) mac"
    by (rule send_signed [OF env good1 prior len disjI1 [OF refl]])
  then have f:
    "send_indexed hm p q when 0 (batch_message (q_id q) question 0 g) (gs' = []) None = Inr (f, Some mac)"
    "frame_reads f m" "batch_view (q_id q) qname qtype xs m" "verifies hm p m (t_mac t) mac" by simp_all
  show ?thesis
  proof (cases gs')
    case Nil
    with f rest show ?thesis
      by (intro exI [of _ "[f]"] exI [of _ m] exI [of _ "[]"] exI [of _ mac] exI [of _ mac])
        (simp add: stream_signed_transfer_def gs)
  next
    case (Cons g2 gs2)
    with rest obtain xs2 xss2 where x2: "xss' = xs2 # xss2" by (auto simp: list_all2_Cons2)
    have lm: "length mac < 65536" using f(4) by (simp add: verifies_def)
    from stream_rest [OF env lm rest [unfolded Cons x2], of 1 "when"] obtain fs ms mac2 where r:
      "stream_loop hm p q when 1 (Some mac) (Some (batch_message (q_id q) question 0 g2))
        (map (\<lambda>g. Inr (batch_message (q_id q) question 0 g)) gs2) = (fs, Inr ())"
      "list_all2 frame_reads fs ms" "list_all2 (batch_view (q_id q) qname qtype) (xs2 # xss2) ms"
      "\<forall>m \<in> set (butlast ms). m_tsig m = None" "verifies hm p (last ms) mac mac2" by auto
    with f Cons show ?thesis
      by (intro exI [of _ "f # fs"] exI [of _ m] exI [of _ ms] exI [of _ mac] exI [of _ mac2])
        (simp add: stream_signed_transfer_def gs x2)
  qed
qed

end
