(* ===== verification/Delivery.thy ===== *)
theory Delivery
  imports Stream_Wire
begin

text \<open>
  A transfer end to end: the records an authorised plan stands for, and the frames that carry
  them to a client that holds the key.
\<close>

subsection \<open>The payload of a plan\<close>

definition transfer_payload :: "db \<Rightarrow> plan \<Rightarrow> delta_row list" where
  "transfer_payload d p =
     (case find_soa d (tp_zone p) (tp_target_version p) of
        None \<Rightarrow> []
      | Some soa \<Rightarrow>
        row_data soa #
        (if tp_mode p = Some MODE_AXFR then
           map row_data (body_rows d p) @ [row_data soa]
         else map change_data (changes_between d (tp_zone p) (tp_min_version p) (tp_target_version p))))"

definition transfer_stream :: "db \<Rightarrow> plan \<Rightarrow> query \<Rightarrow> (exn + bytes) list" where
  "transfer_stream d p q =
     (if tp_mode p = Some MODE_AXFR then axfr_rr_stream d p else ixfr_rr_stream d p (q_client_soa_serial q))"

definition soa_of :: "string \<Rightarrow> int \<Rightarrow> delta_row \<Rightarrow> bool" where
  "soa_of zone serial x \<longleftrightarrow> (\<exists>ttl s w. x = (zone, ''SOA'', ttl, Soa s, w) \<and> s_serial s = serial)"

lemma soa_row_data:
  "is_apex_soa zone r \<Longrightarrow> r_rdata r = Soa s \<Longrightarrow> soa_of zone (s_serial s) (row_data r)"
  by (auto simp: soa_of_def is_apex_soa_def row_data_def)

lemma find_soa_apex: "find_soa d zone vid = Some soa \<Longrightarrow> is_apex_soa zone soa \<and> soa \<in> set (records_of d zone vid)"
  by (auto simp: find_soa_def find_Some_iff)

lemma payload_axfr:
  assumes wf: "wf_db d" and p: "plan_for d q p" and m: "tp_mode p = Some MODE_AXFR"
  shows "transfer_stream d p q = map data_wire (transfer_payload d p)"
    and "\<exists>soa rest. transfer_payload d p = soa # rest @ [soa] \<and> soa_of (tp_zone p) (tp_target_serial p) soa \<and>
      (\<forall>x \<in> set rest. delta_key x \<noteq> (tp_zone p, ''SOA'')) \<and>
      set (soa # rest) = content d (tp_zone p) (tp_target_version p)"
proof -
  obtain soa s where r: "find_soa d (tp_zone p) (tp_target_version p) = Some soa" "r_rdata soa = Soa s"
    "s_serial s = tp_target_serial p" "axfr_rr_stream d p = map rr_wire (soa # body_rows d p @ [soa])"
    "row_data ` set (soa # body_rows d p) = content d (tp_zone p) (tp_target_version p)"
    by (rule axfr_stream_rows [OF wf p])
  have pl: "transfer_payload d p = row_data soa # map row_data (body_rows d p) @ [row_data soa]"
    by (simp add: transfer_payload_def r(1) m)
  show "transfer_stream d p q = map data_wire (transfer_payload d p)"
    by (simp add: transfer_stream_def m pl r(4) rr_wire_data)
  have "soa_of (tp_zone p) (tp_target_serial p) (row_data soa)"
    using find_soa_apex [OF r(1)] soa_row_data r(2,3) by metis
  moreover have "\<forall>x \<in> set (map row_data (body_rows d p)). delta_key x \<noteq> (tp_zone p, ''SOA'')"
    by (auto simp: body_rows_def is_apex_soa_key)
  ultimately show "\<exists>soa rest. transfer_payload d p = soa # rest @ [soa] \<and> soa_of (tp_zone p) (tp_target_serial p) soa \<and>
      (\<forall>x \<in> set rest. delta_key x \<noteq> (tp_zone p, ''SOA'')) \<and>
      set (soa # rest) = content d (tp_zone p) (tp_target_version p)"
    using r(5) unfolding pl by (intro exI [of _ "row_data soa"] exI [of _ "map row_data (body_rows d p)"]) simp
qed

lemma payload_ixfr:
  assumes wf: "wf_db d" and p: "plan_for d q p" and m: "tp_mode p = Some MODE_IXFR"
  shows "transfer_stream d p q = map data_wire (transfer_payload d p)"
    and "\<exists>cs start soa chs. q_client_soa_serial q = Some cs \<and> version_by_serial d (tp_zone p) cs = Some start \<and>
      v_version_id start = tp_min_version p \<and>
      transfer_payload d p = soa # chs \<and> soa_of (tp_zone p) (tp_target_serial p) soa \<and>
      foldl (receive (tp_zone p)) (ADD, content d (tp_zone p) (tp_min_version p)) chs =
        (ADD, content d (tp_zone p) (tp_target_version p))"
proof -
  obtain cs start soa s where r: "q_client_soa_serial q = Some cs" "version_by_serial d (tp_zone p) cs = Some start"
    "v_version_id start = tp_min_version p"
    "find_soa d (tp_zone p) (tp_target_version p) = Some soa" "r_rdata soa = Soa s" "s_serial s = tp_target_serial p"
    "ixfr_rr_stream d p (Some cs) =
       rr_wire soa # map change_wire (changes_between d (tp_zone p) (tp_min_version p) (tp_target_version p))"
    by (rule ixfr_stream_rows [OF wf p m])
  let ?chs = "map change_data (changes_between d (tp_zone p) (tp_min_version p) (tp_target_version p))"
  have pl: "transfer_payload d p = row_data soa # ?chs" by (simp add: transfer_payload_def r(4) m)
  show "transfer_stream d p q = map data_wire (transfer_payload d p)"
    by (simp add: transfer_stream_def m pl r(1,7) rr_wire_data change_wire_data)
  have rng: "tp_min_version p \<le> tp_target_version p" "{tp_min_version p..tp_target_version p} \<subseteq> vids d (tp_zone p)"
    using p m by (auto simp: plan_for_def)
  have "soa_of (tp_zone p) (tp_target_serial p) (row_data soa)"
    using find_soa_apex [OF r(4)] soa_row_data r(5,6) by metis
  then show "\<exists>cs start soa chs. q_client_soa_serial q = Some cs \<and> version_by_serial d (tp_zone p) cs = Some start \<and>
      v_version_id start = tp_min_version p \<and>
      transfer_payload d p = soa # chs \<and> soa_of (tp_zone p) (tp_target_serial p) soa \<and>
      foldl (receive (tp_zone p)) (ADD, content d (tp_zone p) (tp_min_version p)) chs =
        (ADD, content d (tp_zone p) (tp_target_version p))"
    using r(1-3) receive_between [OF wf rng]
    by (intro exI [of _ cs] exI [of _ start] exI [of _ "row_data soa"] exI [of _ ?chs]) (simp add: pl)
qed

text \<open>Everything in a payload can be packed.\<close>

lemma content_fits:
  assumes "wf_db d" and "n \<in> vids d zone" and "x \<in> content d zone n"
  shows "data_fits x"
proof -
  from assms(2) obtain v where "v \<in> set (versions d)" "v_zone v = zone" "v_version_id v = n" by (auto simp: mem_vids)
  with assms(1) have "servable_content zone (content d zone n)" by (auto simp: wf_db_def version_ok_def)
  with assms(3) show ?thesis by (cases x) (auto simp: servable_content_def)
qed

lemma change_fits:
  assumes wf: "wf_db d" and n: "n \<in> vids d zone" "n + 1 \<in> vids d zone" and c: "c \<in> set (iter_changes d zone (n + 1))"
  shows "data_fits (change_data c)"
proof -
  have dk: "delta_ok d zone n" using wf n by (simp add: wf_db_def)
  have "change_data c \<in> dels d zone (n + 1) \<or> change_data c \<in> adds d zone (n + 1)"
    using c by (cases "c_op c") (auto simp: iter_changes_def dels_def adds_def)
  then have "change_data c \<in> content d zone n \<or> change_data c \<in> content d zone (n + 1)"
    using dk by (auto simp: delta_ok_def)
  then show ?thesis using content_fits [OF wf n(1)] content_fits [OF wf n(2)] by blast
qed

lemma changes_between_fits:
  assumes wf: "wf_db d" and v: "{lo..hi} \<subseteq> vids d zone" and c: "c \<in> set (changes_between d zone lo hi)"
  shows "data_fits (change_data c)"
proof -
  from c obtain n where n: "n \<in> {lo + 1..hi}" "c \<in> set (iter_changes d zone n)" by (auto simp: changes_between_def)
  then have "n - 1 \<in> vids d zone" "n \<in> vids d zone" using v by auto
  then show ?thesis using change_fits [OF wf, of "n - 1" zone c] n by simp
qed

lemma plan_target_in_vids: "plan_for d q p \<Longrightarrow> tp_target_version p \<in> vids d (tp_zone p)"
  by (auto simp: plan_for_def mem_vids)

lemma payload_fits:
  assumes wf: "wf_db d" and p: "plan_for d q p" and m: "tp_mode p \<in> {Some MODE_AXFR, Some MODE_IXFR}"
  shows "\<forall>x \<in> set (transfer_payload d p). data_fits x" and "transfer_payload d p \<noteq> []"
    and "transfer_stream d p q = map data_wire (transfer_payload d p)"
proof -
  note fit = content_fits [OF wf plan_target_in_vids [OF p]]
  show "transfer_stream d p q = map data_wire (transfer_payload d p)"
    using m payload_axfr(1) [OF wf p] payload_ixfr(1) [OF wf p] by auto
  show "transfer_payload d p \<noteq> []" using m payload_axfr(2) [OF wf p] payload_ixfr(2) [OF wf p] by auto
  show "\<forall>x \<in> set (transfer_payload d p). data_fits x"
  proof (cases "tp_mode p = Some MODE_AXFR")
    case True
    from payload_axfr(2) [OF wf p True] have "set (transfer_payload d p) = content d (tp_zone p) (tp_target_version p)"
      by (auto simp del: split_paired_All split_paired_Ex)
    with fit show ?thesis by blast
  next
    case False
    then have i: "tp_mode p = Some MODE_IXFR" using m by simp
    have v: "{tp_min_version p..tp_target_version p} \<subseteq> vids d (tp_zone p)" using p i by (auto simp: plan_for_def)
    obtain soa where soa: "find_soa d (tp_zone p) (tp_target_version p) = Some soa"
      using ixfr_stream_rows [OF wf p i] by metis
    have "row_data soa \<in> content d (tp_zone p) (tp_target_version p)"
      using find_soa_apex [OF soa] by (simp add: content_def)
    then show ?thesis using fit changes_between_fits [OF wf v] by (auto simp: transfer_payload_def soa i)
  qed
qed


subsection \<open>The frames\<close>

lemma fits_wires:
  "\<forall>x \<in> set xs. data_fits x \<Longrightarrow>
    \<exists>bs. map data_wire xs = map Inr bs \<and> (\<forall>b \<in> set bs. length b \<le> 64835 \<and> b \<noteq> [])"
proof (induction xs)
  case (Cons x xs)
  then obtain bs where "map data_wire xs = map Inr bs" "\<forall>b \<in> set bs. length b \<le> 64835 \<and> b \<noteq> []" by auto
  moreover obtain b where "data_wire x = Inr b" "length b \<le> 64835" "b \<noteq> []"
    using data_wire_fits Cons.prems by (metis list.set_intros(1))
  ultimately show ?case by (intro exI [of _ "b # bs"]) auto
qed simp

text \<open>Cutting the packed records in batches cuts the records.\<close>

lemma list_all2_concat_split:
  "list_all2 R xs (concat gs) \<Longrightarrow> \<exists>xss. xs = concat xss \<and> list_all2 (list_all2 R) xss gs"
proof (induction gs arbitrary: xs)
  case (Cons g gs)
  then obtain x1 x2 where "xs = x1 @ x2" "list_all2 R x1 g" "list_all2 R x2 (concat gs)"
    by (auto simp: list_all2_append2)
  moreover from this Cons.IH obtain xss where "x2 = concat xss" "list_all2 (list_all2 R) xss gs" by blast
  ultimately show ?case by (intro exI [of _ "x1 # xss"]) auto
qed simp

lemma map_Inr_list_all2: "map f xs = map Inr bs \<Longrightarrow> list_all2 (\<lambda>x b. f x = Inr b) xs bs"
  by (simp add: list_all2_conv_all_nth) (metis length_map nth_map)

lemma canonical_question:
  assumes "canonical_form zone" and "qt < 65536"
  obtains qs where "question_for zone qt = Inr qs" "question_wire zone qt = Inr qs" "length qs \<le> 259"
proof -
  from assms(1) obtain w where "encode_name zone = Inr w" "length w \<le> 255" by (auto simp: canonical_form_def)
  with assms(2) show ?thesis
    by (intro that [of "w @ be16 qt @ be16 1"]) (simp_all add: question_for_def question_wire_def pack_HH_def)
qed

definition transfer_qtype :: "plan \<Rightarrow> nat" where
  "transfer_qtype p = (if tp_mode p = Some MODE_AXFR then TYPE_AXFR else TYPE_IXFR)"

text \<open>
  What the client of an authorised transfer reads: the frames parse to messages whose answer
  sections together are the payload, in order; the first message is signed over the request
  MAC and, when there are more, the last over the MAC of the first.
\<close>

definition delivered :: "mac_fun \<Rightarrow> plan \<Rightarrow> query \<Rightarrow> delta_row list \<Rightarrow> bytes list \<Rightarrow> bool" where
  "delivered hm p q xs fs \<longleftrightarrow>
     (\<exists>t m1 ms xss mac1 mac2. q_tsig q = Some t \<and> list_all2 frame_reads fs (m1 # ms) \<and> concat xss = xs \<and>
        list_all2 (batch_view (q_id q) (tp_zone p) (transfer_qtype p)) xss (m1 # ms) \<and>
        verifies hm p m1 (t_mac t) mac1 \<and> (\<forall>m \<in> set (butlast ms). m_tsig m = None) \<and>
        (ms \<noteq> [] \<longrightarrow> verifies hm p (last ms) mac1 mac2))"

lemma send_transfer_delivers:
  assumes wf: "wf_db d" and p: "plan_for d q p" and m: "tp_mode p \<in> {Some MODE_AXFR, Some MODE_IXFR}"
    and t: "q_tsig q = Some t" "length (t_mac t) < 65536" and qid: "q_id q < 65536"
    and k: "encode_name (tp_key_name p) = Inr k" "length k \<le> 255" and hm: "\<forall>key m. length (hm key m) = 32"
  shows "\<exists>fs. send_transfer hm budget when p q d = (fs, Inr ()) \<and> delivered hm p q (transfer_payload d p) fs"
proof -
  let ?xs = "transfer_payload d p"
  note f = payload_fits [OF wf p m]
  from p wf have "canonical_form (tp_zone p)" by (auto simp: plan_for_def wf_db_def version_ok_def)
  moreover have "transfer_qtype p < 65536" by (simp add: transfer_qtype_def)
  ultimately obtain qs where qs: "question_for (tp_zone p) (transfer_qtype p) = Inr qs"
    "question_wire (tp_zone p) (transfer_qtype p) = Inr qs" "length qs \<le> 259" by (rule canonical_question)
  from fits_wires [OF f(1)] obtain bs where bs: "map data_wire ?xs = map Inr bs"
    "\<forall>b \<in> set bs. length b \<le> 64835 \<and> b \<noteq> []" by blast
  obtain gs where gs: "rr_batches (q_id q) qs (map Inr bs) (transfer_budget budget) 400 = map (wrap (q_id q) qs) gs"
    "concat gs = bs" "gs \<noteq> []" "\<forall>g \<in> set gs. batch_ok qs (transfer_budget budget - 400) g"
    by (rule rr_batches_groups)
  have bound: "batch_size qs g \<le> 65106" "length g < 65536" if "g \<in> set gs" for g
  proof -
    have el: "\<forall>b \<in> set g. length b \<le> 64835 \<and> b \<noteq> []" using that bs(2) unfolding gs(2) [symmetric] by auto
    from batch_bound [OF _ qs(3) el] gs(4) that show "batch_size qs g \<le> 65106" "length g < 65536" by auto
  qed
  have "map (wrap (q_id q) qs) gs = map (\<lambda>g. Inr (batch_message (q_id q) qs 0 g)) gs"
    using bound qid by (intro map_cong) (auto simp: wrap_batch)
  moreover have "transfer_messages budget p q d =
      Inr (rr_batches (q_id q) qs (transfer_stream d p q) (transfer_budget budget) 400)"
    unfolding transfer_messages_def using qs(1)
    by (cases "tp_mode p = Some MODE_AXFR") (simp_all add: transfer_stream_def transfer_qtype_def)
  ultimately have msgs: "transfer_messages budget p q d = Inr (map (\<lambda>g. Inr (batch_message (q_id q) qs 0 g)) gs)"
    by (simp only: f(3) bs(1) gs(1))
  have "list_all2 (\<lambda>x b. data_wire x = Inr b) ?xs (concat gs)" unfolding gs(2) by (rule map_Inr_list_all2 [OF bs(1)])
  from list_all2_concat_split [OF this] obtain xss where xss: "?xs = concat xss"
    "list_all2 (list_all2 (\<lambda>x b. data_wire x = Inr b)) xss gs" by blast
  have good: "list_all2 (batch_good qs) xss gs"
    using xss(2) bound by (auto simp: batch_good_def list_all2_conv_all_nth)
  have env: "stream_env hm p q (tp_zone p) (transfer_qtype p) qs"
    using k qid hm qs(2) by (auto simp: stream_env_def)
  from stream_all [OF env t good gs(3), of "when"] obtain fs m1 ms mac1 mac2 where
    "stream_signed_transfer hm p q when (map (\<lambda>g. Inr (batch_message (q_id q) qs 0 g)) gs) = (fs, Inr ())"
    "list_all2 frame_reads fs (m1 # ms)" "list_all2 (batch_view (q_id q) (tp_zone p) (transfer_qtype p)) xss (m1 # ms)"
    "verifies hm p m1 (t_mac t) mac1" "\<forall>m \<in> set (butlast ms). m_tsig m = None"
    "ms \<noteq> [] \<longrightarrow> verifies hm p (last ms) mac1 mac2" by blast
  then show ?thesis
    unfolding send_transfer_def msgs sum.case delivered_def using t(1) xss(1) [symmetric]
    by (intro exI [of _ fs] conjI exI [of _ t] exI [of _ m1] exI [of _ ms] exI [of _ xss] exI [of _ mac1] exI [of _ mac2])
      simp_all
qed

end
