(* ===== verification/Auth.thy ===== *)
theory Auth
  imports Delivery
begin

text \<open>
  Authorisation of transfers: which key a request resolves to, when a request is granted, and
  that a client holding a live key is served.
\<close>

subsection \<open>Key resolution\<close>

lemma newest_key_mem: "newest_key k ks \<in> insert k (set ks)"
  unfolding newest_key_def
proof (induction ks arbitrary: k)
  case (Cons l ks)
  show ?case using Cons.IH [of "if k_gen k < k_gen l then l else k"] by (auto split: if_splits)
qed simp

definition live_key :: "int \<Rightarrow> db \<Rightarrow> string \<Rightarrow> string \<Rightarrow> key_row \<Rightarrow> bool" where
  "live_key now_ms d zone name k \<longleftrightarrow>
     k \<in> set (keys d) \<and> k_zone k = zone \<and> k_key_name k = name \<and> k_state k \<noteq> REVOKED \<and> key_usable now_ms k"

lemma resolve_in_tx_Inr:
  assumes "resolve_in_tx now now' d zone t = Inr k"
  shows "live_key (now' * 1000) d zone (t_name t) k" and "verify_tsig_time (int (t_time t)) (int (t_fudge t)) now 300"
proof -
  let ?live = "filter (\<lambda>k. k_state k \<noteq> REVOKED) (filter (\<lambda>k. k_zone k = zone \<and> k_key_name k = t_name t) (keys d))"
  from assms have t: "verify_tsig_time (int (t_time t)) (int (t_fudge t)) now 300" and ne: "?live \<noteq> []"
    by (auto simp: resolve_in_tx_def Let_def split: if_splits)
  from assms t ne obtain l ls where l: "filter (key_usable (now' * 1000)) ?live = l # ls" and k: "k = newest_key l ls"
    by (auto simp: resolve_in_tx_def Let_def split: list.splits if_splits)
  have "k \<in> set (filter (key_usable (now' * 1000)) ?live)" unfolding l k using newest_key_mem by simp
  then show "live_key (now' * 1000) d zone (t_name t) k" by (auto simp: live_key_def)
  show "verify_tsig_time (int (t_time t)) (int (t_fudge t)) now 300" by (rule t)
qed

text \<open>In a well-formed key table a name has at most one live key, and the request resolves to it.\<close>

lemma live_key_unique:
  assumes "wf_keys d" and "live_key n d zone name k" and "live_key n' d zone name l"
  shows "k = l"
  using assms by (auto simp: wf_keys_def wf_key_list_def keys_compat_def live_key_def)

lemma resolve_in_tx_live:
  assumes wf: "wf_keys d" and k: "live_key (now' * 1000) d zone (t_name t) k"
    and tm: "verify_tsig_time (int (t_time t)) (int (t_fudge t)) now 300"
  shows "resolve_in_tx now now' d zone t = Inr k"
proof -
  define live where "live = filter (\<lambda>k. k_state k \<noteq> REVOKED)
      (filter (\<lambda>k. k_zone k = zone \<and> k_key_name k = t_name t) (keys d))"
  define us where "us = filter (key_usable (now' * 1000)) live"
  have mem: "l \<in> set us \<longleftrightarrow> live_key (now' * 1000) d zone (t_name t) l" for l
    by (auto simp: live_key_def us_def live_def)
  have "us \<noteq> []" using k mem [of k] by (intro notI) simp
  then obtain l ls where us: "us = l # ls" by (cases us) auto
  have "newest_key l ls \<in> set us" unfolding us using newest_key_mem by simp
  then have n: "newest_key l ls = k" using live_key_unique [OF wf _ k] mem by blast
  have ne: "live \<noteq> []" using us by (intro notI) (simp add: us_def)
  have "resolve_in_tx now now' d zone t =
      (if live = [] then Inl TSIG_BADKEY
       else if \<not> verify_tsig_time (int (t_time t)) (int (t_fudge t)) now 300 then Inl TSIG_BADTIME
       else case us of [] \<Rightarrow> Inl TSIG_BADKEY | k # ks \<Rightarrow> Inr (newest_key k ks))"
    unfolding resolve_in_tx_def Let_def us_def live_def ..
  then show ?thesis using ne tm us n by simp
qed

lemma resolve_in_tx_Inl: "resolve_in_tx now now' d zone t = Inl e \<Longrightarrow> e = TSIG_BADKEY \<or> e = TSIG_BADTIME"
  by (auto simp: resolve_in_tx_def Let_def split: if_splits list.splits)

subsection \<open>The mode decision\<close>

text \<open>
  An incremental transfer is chosen exactly when the client's serial is current, or is an
  older retained serial from which every version up to the current one is retained.
\<close>

lemma count_versions:
  assumes wf: "wf_db d"
  shows "int (length (filter (\<lambda>v. v_zone v = zone \<and> lo < v_version_id v \<and> v_version_id v \<le> hi) (versions d))) =
    int (card ({lo + 1..hi} \<inter> vids d zone))"
proof -
  let ?vs = "filter (\<lambda>v. v_zone v = zone \<and> lo < v_version_id v \<and> v_version_id v \<le> hi) (versions d)"
  have dk: "distinct (map version_key (versions d))" using wf by (simp add: wf_db_def unique_keys_def)
  then have "inj_on version_key (set (versions d))" "distinct (versions d)" by (simp_all add: distinct_map)
  then have inj: "inj_on v_version_id (set ?vs)" and ds: "distinct ?vs"
    by (auto simp: inj_on_def version_key_def)
  have "v_version_id ` set ?vs = {lo + 1..hi} \<inter> vids d zone" by (auto simp: vids_def)
  then show ?thesis using card_image [OF inj] distinct_card [OF ds] by simp
qed

lemma retained_range:
  assumes wf: "wf_db d" and z: "z \<in> set (zones d)" and v: "n \<in> vids d (z_name z)"
  shows "{n..z_current_version z} \<subseteq> vids d (z_name z)" and "n \<le> z_current_version z"
proof -
  from wf z obtain l where "vids d (z_name z) = {l..z_current_version z}" by (auto simp: wf_db_def history_ok_def)
  with v show "{n..z_current_version z} \<subseteq> vids d (z_name z)" and "n \<le> z_current_version z" by auto
qed

lemma decide_ixfr_iff:
  assumes wf: "wf_db d" and z: "z \<in> set (zones d)"
  shows "decide_ixfr d (z_name z) (z_current_version z) (z_current_serial z) (Some cs) = MODE_IXFR \<longleftrightarrow>
    compare cs (z_current_serial z) = EQUAL \<or>
    compare cs (z_current_serial z) = GREATER \<and>
      (\<exists>v. version_by_serial d (z_name z) cs = Some v \<and> v_version_id v < z_current_version z)"
proof (cases "version_by_serial d (z_name z) cs")
  case None
  then show ?thesis by (simp add: decide_ixfr_def Let_def)
next
  case (Some v)
  from version_by_serial_Some [OF this] have "v_version_id v \<in> vids d (z_name z)" by (auto simp: mem_vids)
  note rr = retained_range [OF wf z this]
  have "{v_version_id v + 1..z_current_version z} \<inter> vids d (z_name z) = {v_version_id v + 1..z_current_version z}"
    using rr by auto
  then have "int (length (filter (\<lambda>w. v_zone w = z_name z \<and> v_version_id v < v_version_id w \<and>
      v_version_id w \<le> z_current_version z) (versions d))) = z_current_version z - v_version_id v"
    using rr(2) by (simp add: count_versions [OF wf])
  then show ?thesis using Some by (auto simp: decide_ixfr_def Let_def)
qed

lemma transfer_mode_total:
  assumes wf: "wf_db d" and z: "z \<in> set (zones d)"
    and cs: "\<And>s. q_client_soa_serial q = Some s \<Longrightarrow> 0 \<le> s \<and> s \<le> 0xFFFFFFFF"
  shows "\<exists>mode lo. transfer_mode d z q = Inr (mode, lo)"
proof (cases "q_qtype q = TYPE_IXFR \<and>
    decide_ixfr d (z_name z) (z_current_version z) (z_current_serial z) (q_client_soa_serial q) = MODE_IXFR")
  case True
  then obtain s where s: "q_client_soa_serial q = Some s"
    by (cases "q_client_soa_serial q") (auto simp: decide_ixfr_def)
  have "\<exists>v. version_by_serial d (z_name z) s = Some v"
  proof (cases "compare s (z_current_serial z) = EQUAL")
    case True
    obtain v where v: "v \<in> set (versions d)" "v_zone v = z_name z" "v_serial v = z_current_serial z" "version_ok d v"
      using current_version_row [OF wf z] by metis
    have "s = z_current_serial z"
      using True cs [OF s] v(3,4) by (simp add: compare_EQUAL_iff version_ok_def mod_pos_pos_trivial)
    then show ?thesis using version_by_serial_unique [OF wf v(1,2)] v(3) by blast
  next
    case False
    with \<open>q_qtype q = TYPE_IXFR \<and> _\<close> show ?thesis
      unfolding s decide_ixfr_iff [OF wf z] by blast
  qed
  then show ?thesis using True s by (auto simp: transfer_mode_def Let_def)
next
  case False
  then show ?thesis by (auto simp: transfer_mode_def Let_def)
qed

subsection \<open>Granting\<close>

lemma authorize_grants:
  assumes wf: "wf_db d" "wf_keys d" and t: "q_tsig q = Some t" and z: "find_zone d (q_qname q) = Some z"
    and key: "live_key (now' * 1000) d (z_name z) (t_name t) k"
    and tm: "verify_tsig_time (int (t_time t)) (int (t_fudge t)) now 300"
    and mac: "expected_request_mac hm (k_secret k) q = Inr (t_mac t)"
    and cs: "\<And>s. q_client_soa_serial q = Some s \<Longrightarrow> 0 \<le> s \<and> s \<le> 0xFFFFFFFF"
    and fresh: "rid \<notin> f_ref_id ` set (transfer_refs d)"
  shows "\<exists>p d1. authorize_transfer hm now now' ts inst rid q d = (Inr p, d1) \<and>
    tp_zone p = z_name z \<and> tp_key_name p = t_name t \<and> tp_secret p = k_secret k"
proof -
  from find_zone_in [OF z] have zm: "z \<in> set (zones d)" by simp
  from transfer_mode_total [OF wf(1) zm] cs obtain mode lo where m: "transfer_mode d z q = Inr (mode, lo)" by blast
  have r: "resolve_in_tx now now' d (z_name z) t = Inr k" by (rule resolve_in_tx_live [OF wf(2) key tm])
  show ?thesis
    using fresh by (simp add: authorize_transfer_def t z r mac m pin_transfer_def insert_unique_def)
qed


subsection \<open>The TCP handler\<close>

lemma read_message_framed:
  assumes "12 \<le> length msg" and "length msg \<le> 65535"
  shows "read_message (be16 (length msg) @ msg) = Inr (Some msg)"
  using assms by (simp add: read_message_def recv_exact_def MAX_TCP_MESSAGE_def)

lemma parse_query_length: "parse_query buf = Inr q \<Longrightarrow> 12 \<le> length buf"
  by (auto simp: parse_query_def split: if_splits)

lemma parse_query_id: "parse_query buf = Inr q \<Longrightarrow> q_id q < 65536"
  by (auto simp: parse_query_def Let_def bindE_Inr_iff unpack_header_def val16_lt split: if_splits list.splits)

lemma expected_request_mac_length:
  "expected_request_mac hm key q = Inr mac \<Longrightarrow> \<forall>key m. length (hm key m) = 32 \<Longrightarrow> length mac = 32"
  by (auto simp: expected_request_mac_def bindE_Inr_iff Let_def split: option.splits)

lemma authority_serial_range: "authority_of zone serial = Inr a \<Longrightarrow> serial = Some s \<Longrightarrow> s < 4294967296"
  by (auto simp: authority_of_def soa_authority_def bindE_Inr_iff)

lemma authorized_mode:
  assumes "authorize_transfer hm now now' ts inst rid q d = (Inr p, d1)" and "q_qtype q = TYPE_AXFR \<or> q_qtype q = TYPE_IXFR"
  shows "tp_mode p \<in> {Some MODE_AXFR, Some MODE_IXFR}"
  using assms(1)
proof (cases rule: authorize_transfer_effect)
  case (granted p' z t key)
  then have "transfer_mode d z q = Inr (tp_mode p, tp_min_version p)" by simp
  with assms(2) show ?thesis
    by (cases "tp_mode p"; cases "the (tp_mode p)") (auto simp: transfer_mode_def Let_def split: if_splits option.splits)
qed simp

text \<open>After the stream the pin is released and nothing else has changed.\<close>

lemma fold_heartbeat:
  "fold (\<lambda>i. heartbeat_transfer (beat i) rid) is d = d\<lparr>transfer_refs := transfer_refs (fold (\<lambda>i. heartbeat_transfer (beat i) rid) is d)\<rparr>"
proof (induction "is" arbitrary: d)
  case (Cons i js)
  show ?case by (simp, subst Cons) (simp add: heartbeat_transfer_def)
qed simp

lemma fold_heartbeat_ids:
  "map f_ref_id (transfer_refs (fold (\<lambda>i. heartbeat_transfer (beat i) rid) is d)) = map f_ref_id (transfer_refs d)"
  by (induction "is" arbitrary: d) (simp_all add: heartbeat_transfer_def update_ref_def comp_def if_distrib cong: if_cong)

definition same_tables :: "db \<Rightarrow> db \<Rightarrow> bool" where
  "same_tables d d' \<longleftrightarrow> zones d' = zones d \<and> versions d' = versions d \<and> records d' = records d \<and>
     changes d' = changes d \<and> publish_requests d' = publish_requests d \<and> keys d' = keys d \<and>
     cleanup_tasks d' = cleanup_tasks d"

lemma same_tables_trans: "same_tables d d' \<Longrightarrow> same_tables d' d'' \<Longrightarrow> same_tables d d''"
  by (simp add: same_tables_def)

lemma same_tables_beats: "same_tables d (fold (\<lambda>i. heartbeat_transfer (beat i) rid) is d)"
  by (subst fold_heartbeat) (simp add: same_tables_def)

lemma released_refs: "\<forall>x \<in> set (transfer_refs (release_transfer fin rid d)). f_ref_id x = rid \<longrightarrow> f_state x = REF_DONE"
  unfolding release_transfer_def update_ref_def by (auto simp: ball_Un)

lemma with_servfail_Inr: "with_servfail (fs, Inr u) = fs"
  unfolding with_servfail_def prod.case sum.case by (cases u) (simp only: old.unit.case)

lemma handle_transfer_granted:
  assumes a: "authorize_transfer hm now now' ts inst rid q d = (Inr p, d1)"
    and s: "send_transfer hm budget when p q d1 = (fs, r)"
    and h: "handle_transfer hm budget now now' ts when beat fin inst rid q d = (out, d')"
  shows "out = (fs, r)" and "same_tables d d'"
    and "\<forall>x \<in> set (transfer_refs d'). f_ref_id x = rid \<longrightarrow> f_state x = REF_DONE"
proof -
  let ?d2 = "fold (\<lambda>i. heartbeat_transfer (beat i) rid) [0..<length fs] d1"
  from h show "out = (fs, r)" by (simp add: handle_transfer_def a s Let_def)
  have d': "d' = release_transfer fin rid ?d2" using h by (simp add: handle_transfer_def a s Let_def)
  have "same_tables d d1"
    using a by (cases rule: authorize_transfer_effect) (auto simp: same_tables_def pin_transfer_def bindE_Inr_iff)
  moreover have "same_tables d1 ?d2" by (rule same_tables_beats)
  moreover have "same_tables ?d2 d'" by (simp add: d' same_tables_def release_transfer_def)
  ultimately show "same_tables d d'" by (blast intro: same_tables_trans)
  show "\<forall>x \<in> set (transfer_refs d'). f_ref_id x = rid \<longrightarrow> f_state x = REF_DONE"
    unfolding d' by (rule released_refs)
qed

lemma signed_transfer_delivered:
  assumes wf: "wf_db d" "wf_keys d" and z: "find_zone d (wire_name_of zname) = Some z"
    and key: "live_key (e_now' env * 1000) d (z_name z) (wire_name_of kn) k"
    and wire: "build_tsig_query hm qid zname qt kn (k_secret k) when fudge auth = Inr wire"
    and auth: "authority_of zone' serial = Inr auth" and qt: "qt = TYPE_AXFR \<or> qt = TYPE_IXFR"
    and kw: "encode_name kn = Inr kw" "length kw \<le> 255" and len: "length wire \<le> 65535"
    and tm: "verify_tsig_time (int (take_bit 48 when)) (int fudge) (e_now env) 300"
    and fresh: "e_ref_id env \<notin> f_ref_id ` set (transfer_refs d)" and hm: "\<forall>key m. length (hm key m) = 32"
  shows "\<exists>q p d1 fs d'. parse_query wire = Inr q \<and> q_id q = qid \<and>
    authorize_transfer hm (e_now env) (e_now' env) (e_ts env) (e_instance env) (e_ref_id env) q d = (Inr p, d1) \<and>
    tp_zone p = z_name z \<and> tp_key_name p = wire_name_of kn \<and> tp_secret p = k_secret k \<and> tcp_handle hm env (be16 (length wire) @ wire) d = (fs, d') \<and>
    delivered hm p q (transfer_payload d1 p) fs \<and> same_tables d d' \<and>
    (\<forall>x \<in> set (transfer_refs d'). f_ref_id x = e_ref_id env \<longrightarrow> f_state x = REF_DONE)"
proof -
  from parse_signed_query [OF wire auth] obtain q t where q: "parse_query wire = Inr q" "q_tsig q = Some t"
    "q_id q = qid" "q_qname q = wire_name_of zname" "q_qtype q = qt" "q_client_soa_serial q = map_option int serial"
    "t_name t = wire_name_of kn" "t_time t = take_bit 48 when" "t_fudge t = fudge"
    "expected_request_mac hm (k_secret k) q = Inr (t_mac t)" by blast
  have cs: "0 \<le> s \<and> s \<le> 0xFFFFFFFF" if "q_client_soa_serial q = Some s" for s
    using that authority_serial_range [OF auth] by (cases serial) (auto simp: q)
  obtain p d1 where a: "authorize_transfer hm (e_now env) (e_now' env) (e_ts env) (e_instance env) (e_ref_id env) q d = (Inr p, d1)"
    and p: "tp_zone p = z_name z" "tp_key_name p = t_name t" "tp_secret p = k_secret k"
    using authorize_grants [OF wf q(2) _ _ _ q(10) cs fresh, of z "e_now' env" "e_now env" "e_ts env" "e_instance env"]
      z key tm by (auto simp: q)
  have qt': "q_qtype q = TYPE_AXFR \<or> q_qtype q = TYPE_IXFR" using qt q by simp
  have wf1: "wf_db d1" using authorized_pin [OF wf(1) a] by simp
  have mac: "length (t_mac t) < 65536" using expected_request_mac_length [OF q(10) hm] by simp
  have kn: "encode_name (tp_key_name p) = Inr kw" using encode_wire_name [OF kw(1)] by (simp add: p q)
  obtain fs where fs: "send_transfer hm (e_budget env) (e_when env) p q d1 = (fs, Inr ())"
    "delivered hm p q (transfer_payload d1 p) fs"
    using send_transfer_delivers [OF wf1 authorized_plan_for [OF wf(1) a] authorized_mode [OF a qt'] q(2) mac
        parse_query_id [OF q(1)] kn kw(2) hm] by blast
  obtain out d' where h: "handle_transfer hm (e_budget env) (e_now env) (e_now' env) (e_ts env) (e_when env) (e_beat env)
      (e_done env) (e_instance env) (e_ref_id env) q d = (out, d')" by (cases "handle_transfer hm (e_budget env) (e_now env) (e_now' env) (e_ts env) (e_when env) (e_beat env)
      (e_done env) (e_instance env) (e_ref_id env) q d")
  note g = handle_transfer_granted [OF a fs(1) h]
  have disp: "tcp_dispatch hm env q d = ((fs, Inr ()), d')" using qt' h g(1) by (simp add: tcp_dispatch_def)
  have "tcp_handle hm env (be16 (length wire) @ wire) d = (fs, d')"
    unfolding tcp_handle_def read_message_framed [OF parse_query_length [OF q(1)] len]
    by (simp add: q(1) disp with_servfail_Inr)
  with q(1,3) a p(1) fs(2) g(2,3) p(2,3) q(7) show ?thesis by auto
qed

lemma signed_transfer_served:
  assumes wf: "wf_db d" "wf_keys d" and z: "find_zone d (wire_name_of zname) = Some z"
    and key: "live_key (e_now' env * 1000) d (z_name z) (wire_name_of kn) k"
    and wire: "build_tsig_query hm qid zname qt kn (k_secret k) when fudge auth = Inr wire"
    and auth: "authority_of zone' serial = Inr auth" and qt: "qt = TYPE_AXFR \<or> qt = TYPE_IXFR"
    and kw: "encode_name kn = Inr kw" "length kw \<le> 255" and len: "length wire \<le> 65535"
    and tm: "verify_tsig_time (int (take_bit 48 when)) (int fudge) (e_now env) 300"
    and fresh: "e_ref_id env \<notin> f_ref_id ` set (transfer_refs d)" and hm: "\<forall>key m. length (hm key m) = 32"
  shows "\<exists>q p d1 fs d'. parse_query wire = Inr q \<and> q_id q = qid \<and>
    authorize_transfer hm (e_now env) (e_now' env) (e_ts env) (e_instance env) (e_ref_id env) q d = (Inr p, d1) \<and>
    tp_zone p = z_name z \<and> tcp_handle hm env (be16 (length wire) @ wire) d = (fs, d') \<and>
    delivered hm p q (transfer_payload d1 p) fs \<and> same_tables d d' \<and>
    (\<forall>x \<in> set (transfer_refs d'). f_ref_id x = e_ref_id env \<longrightarrow> f_state x = REF_DONE)"
  using signed_transfer_delivered [OF assms] by blast

end
