(* ===== verification/Responses.thy ===== *)
theory Responses
  imports Auth
begin

text \<open>
  What the endpoints answer: the errors a query parser can raise, the size of UDP responses,
  the fields of a simple response, and the frame of a denied transfer.
\<close>

subsection \<open>Parse errors\<close>

text \<open>The two exceptions a parser lets out: \<open>WireError\<close>, and the decoding of a label.\<close>

definition parse_exn :: "exn \<Rightarrow> bool" where
  "parse_exn e \<longleftrightarrow> (\<exists>m. e = WireError m) \<or> e = UnicodeError"

lemma parse_exn_simps [simp]: "parse_exn (WireError m)" "parse_exn UnicodeError" "\<not> parse_exn StructError"
  by (simp_all add: parse_exn_def)

lemma decode_ascii_Inl: "decode_ascii bs = Inl e \<Longrightarrow> e = UnicodeError"
  by (auto simp: decode_ascii_def split: if_splits)

lemma decode_loop_Inl: "decode_loop buf cur seen jump acc = Inl e \<Longrightarrow> parse_exn e"
proof (induction buf cur seen jump acc rule: decode_loop.induct)
  case (1 buf cur seen jump acc)
  note eq = "1.prems" [unfolded decode_loop.simps [of buf cur] Let_def]
  show ?case
  proof (cases "length buf \<le> cur \<or> buf ! cur = 0")
    case True
    with eq show ?thesis by (auto split: if_splits)
  next
    case False
    then have c: "\<not> length buf \<le> cur" "buf ! cur \<noteq> 0" by auto
    show ?thesis
    proof (cases "buf ! cur AND 0xC0 = 0xC0")
      case True
      let ?p = "pointer_value (buf ! cur) (buf ! (cur + 1))"
      show ?thesis
      proof (cases "length buf \<le> cur + 1 \<or> ?p \<in> set seen \<or> cur \<le> ?p")
        case True
        with eq c \<open>buf ! cur AND 0xC0 = 0xC0\<close> show ?thesis by (auto split: if_splits)
      next
        case ok: False
        from eq c True ok have rec: "decode_loop buf ?p (?p # seen)
          (case jump of None \<Rightarrow> Some (cur + 2) | Some off \<Rightarrow> Some off) acc = Inl e" by (auto split: if_splits)
        show ?thesis by (rule "1.IH"(1) [OF c(1) refl c(2) True _ refl _ rec]) (use ok in auto)
      qed
    next
      case np: False
      let ?n = "unat (buf ! cur)"
      show ?thesis
      proof (cases "buf ! cur AND 0xC0 \<noteq> 0 \<or> length buf < cur + 1 + ?n")
        case True
        with eq c np show ?thesis by (auto split: if_splits)
      next
        case False
        then have f: "\<not> buf ! cur AND 0xC0 \<noteq> 0" "\<not> length buf < cur + 1 + ?n" by auto
        from eq c np f have "bindE (decode_ascii (slice buf (cur + 1) (cur + 1 + ?n))) (\<lambda>l.
          decode_loop buf (cur + 1 + ?n) seen jump (acc @ [py_lower l])) = Inl e" by simp
        then consider "decode_ascii (slice buf (cur + 1) (cur + 1 + ?n)) = Inl e"
          | l where "decode_loop buf (cur + 1 + ?n) seen jump (acc @ [py_lower l]) = Inl e"
          by (auto simp: bindE_Inl_iff)
        then show ?thesis
        proof cases
          case 1
          then show ?thesis by (auto dest: decode_ascii_Inl)
        next
          case (2 l)
          then show ?thesis by (rule "1.IH"(2) [OF c(1) refl c(2) np f])
        qed
      qed
    qed
  qed
qed

lemma decode_name_Inl: "decode_name buf off = Inl e \<Longrightarrow> parse_exn e"
  by (auto simp: decode_name_def bindE_Inl_iff dest: decode_loop_Inl)

text \<open>A parser step is safe when it raises nothing else.\<close>

definition safe :: "exn + 'a \<Rightarrow> bool" where
  "safe m \<longleftrightarrow> (\<forall>e. m = Inl e \<longrightarrow> parse_exn e)"

named_theorems safe_intros \<open>safety of parser steps\<close>

lemma safe_base [safe_intros]: "safe (Inr x)" "safe (Inl (WireError m))"
  by (simp_all add: safe_def)

lemma safe_bind [safe_intros]: "safe m \<Longrightarrow> (\<And>x. m = Inr x \<Longrightarrow> safe (f x)) \<Longrightarrow> safe (bindE m f)"
  by (cases m) (auto simp: safe_def)

lemma safe_if [safe_intros]: "(P \<Longrightarrow> safe a) \<Longrightarrow> (\<not> P \<Longrightarrow> safe b) \<Longrightarrow> safe (if P then a else b)"
  by simp

lemma safe_prod [safe_intros]: "(\<And>a b. p = (a, b) \<Longrightarrow> safe (f a b)) \<Longrightarrow> safe (case p of (a, b) \<Rightarrow> f a b)"
  by (cases p) simp

lemma safe_decode [safe_intros]: "safe (decode_name buf off)"
  by (auto simp: safe_def dest: decode_name_Inl)

lemma unpack_total:
  "length bs = 2 \<Longrightarrow> \<exists>n. unpack16 bs = Inr n" "length bs = 4 \<Longrightarrow> \<exists>n. unpack32 bs = Inr n"
  "length bs = 4 \<Longrightarrow> \<exists>n. unpack_HH bs = Inr n" "length bs = 6 \<Longrightarrow> \<exists>n. unpack_HHH bs = Inr n"
  "length bs = 8 \<Longrightarrow> \<exists>n. unpack_HIH bs = Inr n" "length bs = 10 \<Longrightarrow> \<exists>n. unpack_HHIH bs = Inr n"
  "length bs = 12 \<Longrightarrow> \<exists>n. unpack_header bs = Inr n"
  unfolding unpack16_def unpack32_def unpack_HH_def unpack_HHH_def unpack_HIH_def unpack_HHIH_def unpack_header_def
  by (auto simp: numeral_eq_Suc length_Suc_conv split: list.splits)

lemma unpack_slice:
  "off + 2 \<le> length buf \<Longrightarrow> \<exists>n. unpack16 (slice buf off (off + 2)) = Inr n"
  "off + 4 \<le> length buf \<Longrightarrow> \<exists>n. unpack32 (slice buf off (off + 4)) = Inr n"
  "off + 4 \<le> length buf \<Longrightarrow> \<exists>n. unpack_HH (slice buf off (off + 4)) = Inr n"
  "off + 6 \<le> length buf \<Longrightarrow> \<exists>n. unpack_HHH (slice buf off (off + 6)) = Inr n"
  "off + 8 \<le> length buf \<Longrightarrow> \<exists>n. unpack_HIH (slice buf off (off + 8)) = Inr n"
  "off + 10 \<le> length buf \<Longrightarrow> \<exists>n. unpack_HHIH (slice buf off (off + 10)) = Inr n"
  "12 \<le> length buf \<Longrightarrow> \<exists>n. unpack_header (slice buf 0 12) = Inr n"
  by (intro unpack_total; simp add: length_slice)+


lemma safe_Inr: "\<exists>x. m = Inr x \<Longrightarrow> safe m"
  by (auto simp: safe_def)

lemma safe_unpack [safe_intros]:
  "off + 2 \<le> length buf \<Longrightarrow> safe (unpack16 (slice buf off (off + 2)))"
  "off + 4 \<le> length buf \<Longrightarrow> safe (unpack32 (slice buf off (off + 4)))"
  "off + 4 \<le> length buf \<Longrightarrow> safe (unpack_HH (slice buf off (off + 4)))"
  "off + 6 \<le> length buf \<Longrightarrow> safe (unpack_HHH (slice buf off (off + 6)))"
  "off + 8 \<le> length buf \<Longrightarrow> safe (unpack_HIH (slice buf off (off + 8)))"
  "off + 10 \<le> length buf \<Longrightarrow> safe (unpack_HHIH (slice buf off (off + 10)))"
  "12 \<le> length buf \<Longrightarrow> safe (unpack_header (slice buf 0 12))"
  by (rule safe_Inr, erule unpack_slice)+

lemma safe_parse_tsig_rdata [safe_intros]:
  "off0 + rdlen \<le> length buf \<Longrightarrow> safe (parse_tsig_rdata tname buf off0 rdlen)"
  unfolding parse_tsig_rdata_def Let_def by (intro safe_intros; simp)


lemma safe_authority_serial [safe_intros]:
  assumes "rstart + rdlen \<le> length buf"
  shows "safe (authority_serial buf rstart rdlen cs)"
proof -
  have "safe (bindE (decode_name buf rstart) (\<lambda>(_, p).
           bindE (decode_name buf p) (\<lambda>(_, p).
           if p + 20 \<le> rstart + rdlen
           then bindE (unpack32 (slice buf p (p + 4))) (\<lambda>s. Inr (Some (int s)))
           else Inr cs)))"
    using assms by (intro safe_intros) simp_all
  then show ?thesis by (auto simp: authority_serial_def safe_def split: sum.splits exn.splits)
qed

lemma safe_parse_authority [safe_intros]: "safe (parse_authority buf k off cs)"
  by (induction buf k off cs rule: parse_authority.induct) (auto simp: Let_def intro!: safe_intros)

lemma safe_parse_additional [safe_intros]: "safe (parse_additional buf k off tsig)"
  by (induction buf k off tsig rule: parse_additional.induct) (auto simp: Let_def intro!: safe_intros)

lemma safe_parse_query: "safe (parse_query buf)"
  unfolding parse_query_def Let_def by (intro safe_intros) simp_all

subsection \<open>Simple responses\<close>

definition is_rcode :: "nat \<Rightarrow> bool" where "is_rcode r \<longleftrightarrow> r < 16"

lemma or_lt: "a < 2 ^ n \<Longrightarrow> b < 2 ^ n \<Longrightarrow> (a :: nat) OR b < 2 ^ n"
  by (metis take_bit_nat_eq_self_iff take_bit_or)

lemma simple_response_total:
  assumes "qid < 65536" and "is_rcode rcode" and "length answers < 65536"
  obtains flags where "make_simple_response qid question rcode answers aa tc =
    Inr (header_wire qid flags 1 (if tc then 0 else length answers) 0 0 @ question @ (if tc then [] else concat answers))"
    "flags < 65536"
proof -
  let ?f1 = "FLAG_QR OR rcode"
  let ?f2 = "if aa then ?f1 OR FLAG_AA else ?f1"
  let ?f3 = "if tc then ?f2 OR FLAG_TC else ?f2"
  have "?f1 < 2 ^ 16" using assms(2) by (intro or_lt) (simp_all add: is_rcode_def)
  then have "?f2 < 2 ^ 16" using or_lt [of ?f1 16 FLAG_AA] by (cases aa) simp_all
  then have f: "?f3 < 65536" using or_lt [of ?f2 16 FLAG_TC] by (cases tc) simp_all
  have "build_header qid ?f3 1 (if tc then 0 else length answers) 0 0 =
      Inr (header_wire qid ?f3 1 (if tc then 0 else length answers) 0 0)"
    using assms f by (simp add: build_header_def)
  with f show ?thesis
    by (intro that [of ?f3]) (simp_all add: make_simple_response_def Let_def)
qed

lemma simple_response_length:
  "make_simple_response qid question rcode answers aa tc = Inr r \<Longrightarrow>
    length r = 12 + length question + (if tc then 0 else length (concat answers))"
  by (auto simp: make_simple_response_def Let_def bindE_Inr_iff build_header_Inr_iff)

lemma parse_query_question: "parse_query buf = Inr q \<Longrightarrow> length (q_raw_question q) \<le> length buf - 12"
  by (auto simp: parse_query_def Let_def bindE_Inr_iff slice_def split: if_splits)


subsection \<open>UDP\<close>

lemma answer_rcodes: "answer_question q d = Inr (Reply rcode blob) \<Longrightarrow> is_rcode rcode"
  by (auto simp: answer_question_def Let_def bindE_Inr_iff is_rcode_def split: if_splits option.splits)

lemma udp_response_length:
  assumes "udp_response q d = Inr r"
  shows "length r \<le> 512 \<or> length r = 12 + length (q_raw_question q)"
proof (cases "q_qtype q = TYPE_AXFR \<or> q_qtype q = TYPE_IXFR")
  case True
  with assms show ?thesis by (auto simp: udp_response_def dest: simple_response_length)
next
  case False
  with assms obtain a resp where a: "answer_question q d = Inr a" "simple_reply q a = Inr resp"
    and r: "(if MAX_UDP_PAYLOAD < length resp \<and> has_answers a
          then make_simple_response (q_id q) (q_raw_question q) (answer_rcode a) [] True True
          else Inr resp) = Inr r"
    by (auto simp: udp_response_def bindE_Inr_iff simp del: if_split)
  show ?thesis
  proof (cases "MAX_UDP_PAYLOAD < length resp \<and> has_answers a")
    case True
    with r show ?thesis by (auto dest: simple_response_length)
  next
    case nt: False
    with r have "r = resp" by simp
    then show ?thesis
      using nt a(2) by (cases a)
        (auto simp: simple_reply_def MAX_UDP_PAYLOAD_def dest: simple_response_length split: option.splits if_splits)
  qed
qed

lemma udp_handle_length:
  assumes "udp_handle data d = Inr r" and "length data \<le> 512"
  shows "length r \<le> 512"
proof (cases "parse_query data")
  case (Inl e)
  with assms(1) show ?thesis by (cases e) (auto simp: udp_handle_def bindE_Inr_iff)
next
  case (Inr q)
  have q: "12 + length (q_raw_question q) \<le> 512"
    using parse_query_question [OF Inr] parse_query_length [OF Inr] assms(2) by linarith
  show ?thesis
  proof (cases "udp_response q d")
    case (Inl e)
    with assms(1) Inr q show ?thesis by (auto simp: udp_handle_def dest: simple_response_length)
  next
    case (Inr r')
    with assms(1) \<open>parse_query data = Inr q\<close> udp_response_length [OF Inr] q show ?thesis
      by (auto simp: udp_handle_def)
  qed
qed

lemma udp_handle_total:
  assumes "parse_query data \<noteq> Inl UnicodeError"
  shows "\<exists>r. udp_handle data d = Inr r"
proof (cases "parse_query data")
  case (Inl e)
  then have "\<exists>m. e = WireError m" using safe_parse_query [of data] assms by (auto simp: safe_def parse_exn_def)
  then show ?thesis using Inl
    by (auto simp: udp_handle_def bare_response_def build_header_def)
next
  case (Inr q)
  have "\<exists>r. make_simple_response (q_id q) (q_raw_question q) RCODE_SERVFAIL [] True False = Inr r"
    using simple_response_total [OF parse_query_id [OF Inr], of RCODE_SERVFAIL "[]" "q_raw_question q" True False]
    by (auto simp: is_rcode_def)
  then show ?thesis by (cases "udp_response q d") (auto simp: udp_handle_def Inr)
qed

subsection \<open>Denied transfers\<close>

text \<open>A response that carries no record of the zone: ANCOUNT and NSCOUNT are zero.\<close>

definition no_data_response :: "query \<Rightarrow> bytes \<Rightarrow> bool" where
  "no_data_response q msg \<longleftrightarrow>
     (\<exists>ar tail. ar < 2 \<and> msg = header_wire (q_id q) 0x8405 1 0 0 ar @ q_raw_question q @ tail)"

lemma deny_no_data:
  assumes "deny now now' q err = Inr f"
  shows "\<exists>msg. f = be16 (length msg) @ msg \<and> no_data_response q msg"
proof -
  let ?simple = "make_simple_response (q_id q) (q_raw_question q) RCODE_REFUSED [] True False"
  obtain msg where m: "(if err = None \<or> q_tsig q = None then ?simple else make_error_response now now' q RCODE_REFUSED err) = Inr msg"
    and f: "frame msg = Inr f" using assms by (auto simp: deny_def bindE_Inr_iff)
  have "no_data_response q msg"
  proof (cases "err = None \<or> q_tsig q = None")
    case True
    with m have "?simple = Inr msg" by simp
    then have "msg = header_wire (q_id q) 0x8405 1 0 0 0 @ q_raw_question q @ []"
      by (auto simp: make_simple_response_def bindE_Inr_iff build_header_Inr_iff)
    then show ?thesis unfolding no_data_response_def by (metis zero_less_numeral)
  next
    case False
    then obtain e t where et: "err = Some e" "q_tsig q = Some t" by auto
    with m False have er: "make_error_response now now' q RCODE_REFUSED (Some e) = Inr msg" by simp
    then obtain h where h: "build_header (q_id q) 0x8405 1 0 0 1 = Inr h"
      by (auto simp: make_error_response_def bindE_Inr_iff)
    then have hw: "h = header_wire (q_id q) 0x8405 1 0 0 1" by (simp add: build_header_Inr_iff)
    have pa: "patch_arcount (header_wire (q_id q) 0x8405 1 0 0 1 @ q_raw_question q) 1 =
        Inr (header_wire (q_id q) 0x8405 1 0 0 1 @ q_raw_question q)"
      by (rule patch_arcount_header) simp
    from er h obtain tail where "msg = header_wire (q_id q) 0x8405 1 0 0 1 @ q_raw_question q @ tail"
      by (auto simp: make_error_response_def et hw append_tsig_def bindE_Inr_iff pa [unfolded One_nat_def] Let_def)
    then show ?thesis unfolding no_data_response_def by (metis one_less_numeral_iff semiring_norm(76))
  qed
  with f show ?thesis by (auto simp: frame_def bindE_Inr_iff)
qed

lemma denied_dispatch:
  assumes "authorize_transfer hm (e_now env) (e_now' env) (e_ts env) (e_instance env) (e_ref_id env) q d = (Inl (TransferDenied err), d')"
    and "q_qtype q = TYPE_AXFR \<or> q_qtype q = TYPE_IXFR" and "tcp_dispatch hm env q d = ((fs, r), d'')"
  shows "d'' = d" and "\<forall>f \<in> set fs. \<exists>msg. f = be16 (length msg) @ msg \<and> no_data_response q msg" and "length fs \<le> 1"
proof -
  have "d' = d" using assms(1) by (cases rule: authorize_transfer_effect) simp_all
  then have h: "handle_transfer hm (e_budget env) (e_now env) (e_now' env) (e_ts env) (e_when env) (e_beat env)
      (e_done env) (e_instance env) (e_ref_id env) q d = (([], Inl (TransferDenied err)), d)"
    using assms(1) by (simp add: handle_transfer_def)
  show "d'' = d" "length fs \<le> 1"
    and "\<forall>f \<in> set fs. \<exists>msg. f = be16 (length msg) @ msg \<and> no_data_response q msg"
    using assms(2,3) h deny_no_data by (auto simp: tcp_dispatch_def split: sum.splits)
qed

end
