(* ===== verification/Sha256.thy ===== *)
theory Sha256
  imports Client
begin

text \<open>
  The standard-library functions the service authenticates with: \<open>hashlib.sha256\<close> (FIPS 180-4)
  and \<open>hmac.new(key, msg, sha256).digest()\<close> (RFC 2104).  The protocol theories keep the MAC a
  parameter; the properties are stated for this instance.
\<close>

unbundle bit_operations_syntax

subsection \<open>SHA-256\<close>

type_synonym w32 = "32 word"
type_synonym sha_state = "w32 list"

text \<open>The constants, eight words to a number.\<close>

definition octet_words :: "int \<Rightarrow> w32 list" where
  "octet_words n = map (\<lambda>i. word_of_int (drop_bit (32 * i) n)) [7, 6, 5, 4, 3, 2, 1, 0]"

definition sha_init :: sha_state where
  "sha_init = octet_words 0x6a09e667bb67ae853c6ef372a54ff53a510e527f9b05688c1f83d9ab5be0cd19"

definition sha_k :: "w32 list" where
  "sha_k = concat (map octet_words
    [0x428a2f9871374491b5c0fbcfe9b5dba53956c25b59f111f1923f82a4ab1c5ed5,
     0xd807aa9812835b01243185be550c7dc372be5d7480deb1fe9bdc06a7c19bf174,
     0xe49b69c1efbe47860fc19dc6240ca1cc2de92c6f4a7484aa5cb0a9dc76f988da,
     0x983e5152a831c66db00327c8bf597fc7c6e00bf3d5a7914706ca635114292967,
     0x27b70a852e1b21384d2c6dfc53380d13650a7354766a0abb81c2c92e92722c85,
     0xa2bfe8a1a81a664bc24b8b70c76c51a3d192e819d6990624f40e3585106aa070,
     0x19a4c1161e376c082748774c34b0bcb5391c0cb34ed8aa4a5b9cca4f682e6ff3,
     0x748f82ee78a5636f84c878148cc7020890befffaa4506cebbef9a3f7c67178f2])"

text \<open>Padding to whole blocks of 64 bytes: \<open>0x80\<close>, zeros, the bit length in 64 bits.\<close>

definition word_bytes :: "w32 \<Rightarrow> bytes" where
  "word_bytes w = [ucast (drop_bit 24 w), ucast (drop_bit 16 w), ucast (drop_bit 8 w), ucast w]"

definition bytes_word :: "byte \<Rightarrow> byte \<Rightarrow> byte \<Rightarrow> byte \<Rightarrow> w32" where
  "bytes_word a b c d = push_bit 24 (ucast a) OR push_bit 16 (ucast b) OR push_bit 8 (ucast c) OR ucast d"

definition sha_pad :: "bytes \<Rightarrow> bytes" where
  "sha_pad m =
     m @ [0x80] @ replicate ((119 - length m mod 64) mod 64) 0 @
     (let n = 8 * word_of_nat (length m) :: 64 word in word_bytes (ucast (drop_bit 32 n)) @ word_bytes (ucast n))"

function sha_blocks :: "bytes \<Rightarrow> bytes list" where
  "sha_blocks m = (if length m < 64 then [] else take 64 m # sha_blocks (drop 64 m))"
  by pat_completeness auto
termination
  by (relation "measure length") auto

declare sha_blocks.simps [simp del]

fun be_words :: "bytes \<Rightarrow> w32 list" where
  "be_words (a # b # c # d # rest) = bytes_word a b c d # be_words rest"
| "be_words _ = []"

definition rotr :: "nat \<Rightarrow> w32 \<Rightarrow> w32" where "rotr n w = word_rotr n w"

definition small_sigma0 :: "w32 \<Rightarrow> w32" where
  "small_sigma0 x = rotr 7 x XOR rotr 18 x XOR drop_bit 3 x"

definition small_sigma1 :: "w32 \<Rightarrow> w32" where
  "small_sigma1 x = rotr 17 x XOR rotr 19 x XOR drop_bit 10 x"

text \<open>The message schedule, newest word first.\<close>

fun schedule :: "nat \<Rightarrow> w32 list \<Rightarrow> w32 list" where
  "schedule 0 ws = ws"
| "schedule (Suc n) ws =
     schedule n ((small_sigma1 (ws ! 1) + ws ! 6 + small_sigma0 (ws ! 14) + ws ! 15) # ws)"

fun sha_round :: "sha_state \<Rightarrow> w32 \<times> w32 \<Rightarrow> sha_state" where
  "sha_round [a, b, c, d, e, f, g, h] (k, w) =
     (let s1 = rotr 6 e XOR rotr 11 e XOR rotr 25 e; ch = (e AND f) XOR (NOT e AND g);
          t1 = h + s1 + ch + k + w;
          s0 = rotr 2 a XOR rotr 13 a XOR rotr 22 a; maj = (a AND b) XOR (a AND c) XOR (b AND c) in
      [t1 + s0 + maj, a, b, c, d + t1, e, f, g])"
| "sha_round st _ = st"

definition compress :: "sha_state \<Rightarrow> bytes \<Rightarrow> sha_state" where
  "compress st block =
     map2 (+) st (foldl sha_round st (zip sha_k (rev (schedule 48 (rev (be_words block))))))"

definition sha256 :: "bytes \<Rightarrow> bytes" where
  "sha256 m = concat (map word_bytes (foldl compress sha_init (sha_blocks (sha_pad m))))"

subsection \<open>HMAC\<close>

definition hmac_key :: "bytes \<Rightarrow> bytes" where
  "hmac_key key = (let k = (if 64 < length key then sha256 key else key) in k @ replicate (64 - length k) 0)"

definition hmac_sha256 :: mac_fun where
  "hmac_sha256 key msg =
     sha256 (map (\<lambda>b. b XOR 0x5c) (hmac_key key) @ sha256 (map (\<lambda>b. b XOR 0x36) (hmac_key key) @ msg))"

definition hex_byte :: "byte \<Rightarrow> string" where
  "hex_byte b = [hex_char (unat b div 16), hex_char (unat b mod 16)]"

text \<open>\<open>sha256(...).hexdigest()\<close> of an ASCII text.\<close>

definition sha256_hex :: "string \<Rightarrow> string" where
  "sha256_hex s = concat (map hex_byte (sha256 (map char_byte s)))"

subsection \<open>Every digest has 32 bytes\<close>

lemma length_sha_round: "length st = 8 \<Longrightarrow> length (sha_round st kw) = 8"
  by (cases "(st, kw)" rule: sha_round.cases) (auto simp: Let_def)

lemma length_rounds: "length st = 8 \<Longrightarrow> length (foldl sha_round st kws) = 8"
  by (induction kws arbitrary: st) (simp_all add: length_sha_round)

lemma length_compress: "length st = 8 \<Longrightarrow> length (compress st block) = 8"
  by (simp add: compress_def length_rounds)

lemma length_compress_all: "length st = 8 \<Longrightarrow> length (foldl compress st blocks) = 8"
  by (induction blocks arbitrary: st) (simp_all add: length_compress)

lemma length_sha256 [simp]: "length (sha256 m) = 32"
proof -
  have "length (foldl compress sha_init (sha_blocks (sha_pad m))) = 8"
    by (rule length_compress_all) (simp add: sha_init_def octet_words_def)
  then show ?thesis by (simp add: sha256_def length_concat comp_def word_bytes_def sum_list_triv)
qed

lemma length_hmac_sha256 [simp]: "length (hmac_sha256 key msg) = 32"
  by (simp add: hmac_sha256_def)

text \<open>The padded message is a whole number of blocks, so no byte is left out.\<close>

lemma sha_blocks_concat: "64 dvd length m \<Longrightarrow> concat (sha_blocks m) = m"
proof (induction m rule: sha_blocks.induct)
  case (1 m)
  show ?case
  proof (cases "length m < 64")
    case True
    with 1(2) have "m = []" by (cases "length m = 0") (auto dest: dvd_imp_le)
    then show ?thesis by (simp add: sha_blocks.simps)
  next
    case False
    then have "64 dvd length (drop 64 m)" using 1(2) by (simp add: dvd_minus_self)
    with 1(1) False show ?thesis by (subst sha_blocks.simps) simp
  qed
qed

lemma pad_zeros: "r < (64 :: nat) \<Longrightarrow> \<exists>k. r + (119 - r) mod 64 + 9 = 64 * k"
proof (cases "r \<le> 55")
  case True
  have "(64 + (55 - r)) mod 64 = 55 - r" by simp
  moreover have "119 - r = 64 + (55 - r)" using True by linarith
  ultimately have "r + (119 - r) mod 64 + 9 = 64 * 1" using True by (simp only:)
  then show ?thesis by blast
next
  case False
  assume "r < 64"
  with False have "(119 - r) mod 64 = 119 - r" by (intro mod_less) linarith
  with \<open>r < 64\<close> have "r + (119 - r) mod 64 + 9 = 64 * 2" by linarith
  then show ?thesis by blast
qed

lemma pad_whole: "64 dvd (n :: nat) + (119 - n mod 64) mod 64 + 9"
proof -
  obtain k where k: "n mod 64 + (119 - n mod 64) mod 64 + 9 = 64 * k"
    using pad_zeros [of "n mod 64"] by auto
  have "n = 64 * (n div 64) + n mod 64" by simp
  then have "n + (119 - n mod 64) mod 64 + 9 = 64 * (n div 64) + (n mod 64 + (119 - n mod 64) mod 64 + 9)"
    by linarith
  also have "\<dots> = 64 * (n div 64 + k)" unfolding k by (rule distrib_left [symmetric])
  finally show ?thesis by (metis dvd_triv_left)
qed

lemma sha_pad_blocks: "concat (sha_blocks (sha_pad m)) = sha_pad m"
proof (rule sha_blocks_concat)
  have "length (sha_pad m) = length m + (119 - length m mod 64) mod 64 + 9"
    by (simp add: sha_pad_def word_bytes_def Let_def)
  then show "64 dvd length (sha_pad m)" using pad_whole by simp
qed

end
