(* ===== verification/Demo_Transfer.thy ===== *)
theory Demo_Transfer
  imports Responses Demo Sha256
begin

text \<open>
  A signed AXFR and a signed IXFR request against the demo database, with the real HMAC.  The
  MAC is not evaluated; that the request exists, parses and is granted follows from the library.
\<close>

definition demo_secret :: bytes where "demo_secret = [1, 2, 3]"

definition demo_zone :: zone_row where "demo_zone = hd (zones demo3)"
definition demo_key_row :: key_row where "demo_key_row = hd (keys demo3)"

definition demo_tcp :: tcp_env where
  "demo_tcp = \<lparr>e_budget = 65000, e_now = 5, e_now' = 5, e_ts = 5000, e_when = 5, e_beat = (\<lambda>_. 5000), e_done = 6000,
     e_instance = ''i'', e_ref_id = ''r''\<rparr>"

lemma demo_facts:
  "find_zone demo3 ''a.'' = Some demo_zone" "z_name demo_zone = ''a.''" "k_secret demo_key_row = demo_secret"
  "wire_name_of ''a.'' = ''a.''" "wire_name_of ''k.'' = ''k.''" "encode_name ''a.'' = Inr [1, 97, 0]"
  "encode_name ''k.'' = Inr [1, 107, 0]" "live_key 5000 demo3 ''a.'' ''k.'' demo_key_row" "transfer_refs demo3 = []"
proof -
  show "find_zone demo3 ''a.'' = Some demo_zone" "z_name demo_zone = ''a.''" "k_secret demo_key_row = demo_secret"
    "wire_name_of ''a.'' = ''a.''" "wire_name_of ''k.'' = ''k.''" "encode_name ''a.'' = Inr [1, 97, 0]"
    "encode_name ''k.'' = Inr [1, 107, 0]" "transfer_refs demo3 = []" by code_simp+
  have "keys demo3 = [demo_key_row]" "k_zone demo_key_row = ''a.''" "k_key_name demo_key_row = ''k.''"
    "k_state demo_key_row = ACTIVE" by code_simp+
  then show "live_key 5000 demo3 ''a.'' ''k.'' demo_key_row" by (simp add: live_key_def key_usable_def)
qed

text \<open>The IXFR request names serial 1 in its authority section.\<close>

definition demo_serial :: "nat \<Rightarrow> nat option" where
  "demo_serial qt = (if qt = TYPE_IXFR then Some 1 else None)"

lemma demo_authority: "\<exists>auth. authority_of ''a.'' (demo_serial qt) = Inr auth \<and> length auth \<le> 100"
  by (auto simp: demo_serial_def authority_of_def soa_authority_def demo_facts pack32_def pack_HHIH_def)

lemma demo_query_id:
  assumes "qt = TYPE_AXFR \<or> qt = TYPE_IXFR" and "qid < 65536"
  obtains wire auth where "authority_of ''a.'' (demo_serial qt) = Inr auth"
    "build_tsig_query hmac_sha256 qid ''a.'' qt ''k.'' demo_secret 5 300 auth = Inr wire" "length wire \<le> 65535"
proof -
  obtain auth where a: "authority_of ''a.'' (demo_serial qt) = Inr auth" "length auth \<le> 100" using demo_authority by blast
  obtain v where v: "tsig_variables ''k.'' ALGORITHM_WIRE 5 300 0 [] = Inr v"
    using demo_facts(7) by (auto simp: tsig_variables_Inr_iff)
  let ?base = "header_wire qid 256 1 0 (if auth \<noteq> [] then 1 else 0) 1 @ ([1, 97, 0] @ be16 qt @ be16 1) @ auth"
  obtain rdata where r: "tsig_rdata ALGORITHM_WIRE 5 300 (hmac_sha256 demo_secret (?base @ v)) qid 0 [] = Inr rdata"
    using assms(2) by (auto simp: tsig_rdata_Inr_iff)
  then have len: "length rdata = 61" by (auto simp: tsig_rdata_Inr_iff)
  let ?wire = "?base @ [1, 107, 0] @ HHIH TYPE_TSIG CLASS_ANY 0 (length rdata) @ rdata"
  have "build_tsig_query hmac_sha256 qid ''a.'' qt ''k.'' demo_secret 5 300 auth = Inr ?wire"
    unfolding build_tsig_query_Inr_iff Let_def
    using assms demo_facts(6,7) v r len
    by (intro exI [of _ "[1, 97, 0]"] exI [of _ "[1, 107, 0]"] exI [of _ v] exI [of _ rdata]) auto
  moreover have "length ?wire \<le> 65535" using a(2) len by simp
  ultimately show ?thesis using that a(1) by blast
qed

lemma demo_query:
  assumes "qt = TYPE_AXFR \<or> qt = TYPE_IXFR"
  obtains wire auth where "authority_of ''a.'' (demo_serial qt) = Inr auth"
    "build_tsig_query hmac_sha256 7 ''a.'' qt ''k.'' demo_secret 5 300 auth = Inr wire" "length wire \<le> 65535"
  by (rule demo_query_id [OF assms, where qid = 7]) (simp, rule that)

lemma demo_granted:
  assumes "qt = TYPE_AXFR \<or> qt = TYPE_IXFR"
  obtains wire q p d1 t where "parse_query wire = Inr q" "q_qtype q = qt" "q_tsig q = Some t" "q_qname q = ''a.''"
    "q_client_soa_serial q = map_option int (demo_serial qt)"
    "authorize_transfer hmac_sha256 5 5 5000 ''i'' ''r'' q demo3 = (Inr p, d1)"
    "tp_zone p = ''a.''" "tp_key_name p = ''k.''"
proof -
  obtain wire auth where w: "authority_of ''a.'' (demo_serial qt) = Inr auth"
    "build_tsig_query hmac_sha256 7 ''a.'' qt ''k.'' demo_secret 5 300 auth = Inr wire" by (rule demo_query [OF assms])
  from parse_signed_query [OF w(2,1)] obtain q t where q: "parse_query wire = Inr q" "q_tsig q = Some t"
    "q_qname q = ''a.''" "q_qtype q = qt" "q_client_soa_serial q = map_option int (demo_serial qt)"
    "t_name t = ''k.''" "t_time t = take_bit 48 5" "t_fudge t = 300"
    "expected_request_mac hmac_sha256 demo_secret q = Inr (t_mac t)" unfolding demo_facts by blast
  have tm: "verify_tsig_time (int (t_time t)) (int (t_fudge t)) 5 300" by (simp add: q verify_tsig_time_def take_bit_eq_mod)
  have "\<exists>p d1. authorize_transfer hmac_sha256 5 5 5000 ''i'' ''r'' q demo3 = (Inr p, d1) \<and>
    tp_zone p = z_name demo_zone \<and> tp_key_name p = t_name t \<and> tp_secret p = k_secret demo_key_row"
  proof (rule authorize_grants [OF reachable_wf [OF demo_reachable(3)] reachable_wf_keys [OF demo_reachable(3)] q(2) _ _ tm])
    show "find_zone demo3 (q_qname q) = Some demo_zone" by (simp add: q demo_facts)
    show "live_key (5 * 1000) demo3 (z_name demo_zone) (t_name t) demo_key_row" using demo_facts by (simp add: q)
    show "expected_request_mac hmac_sha256 (k_secret demo_key_row) q = Inr (t_mac t)" by (simp add: q demo_facts)
    show "0 \<le> s \<and> s \<le> 0xFFFFFFFF" if "q_client_soa_serial q = Some s" for s
      using that by (simp add: q demo_serial_def split: if_splits)
    show "''r'' \<notin> f_ref_id ` set (transfer_refs demo3)" by (simp add: demo_facts)
  qed
  with q demo_facts show ?thesis by (metis that)
qed

lemma demo_ixfr_mode:
  assumes "q_qtype q = TYPE_IXFR" "q_client_soa_serial q = Some 1"
  shows "transfer_mode demo3 demo_zone q = Inr (Some MODE_IXFR, 0)"
proof -
  have "decide_ixfr demo3 (z_name demo_zone) (z_current_version demo_zone) (z_current_serial demo_zone) (Some 1) = MODE_IXFR"
    by code_simp
  moreover obtain v where "version_by_serial demo3 (z_name demo_zone) 1 = Some v" "v_version_id v = 0"
  proof -
    have "map_option v_version_id (version_by_serial demo3 (z_name demo_zone) 1) = Some 0" by code_simp
    with that show ?thesis by auto
  qed
  ultimately show ?thesis using assms by (simp add: transfer_mode_def Let_def)
qed

end
