(* ===== verification/Key_Theorems.thy ===== *)
theory Key_Theorems
  imports Retention_Theorems Demo_Transfer
begin

text \<open>
  The properties of the transfer keys: the table invariant, rotation with an overlap, and
  revocation for good.
\<close>

subsection \<open>Key rows\<close>

lemma install_key_rows:
  assumes "install_key ts secret zone key_id key_name expires_at d = (Inr row, d')"
  obtains e where "ts < e" "e = (case expires_at of None \<Rightarrow> ts + 3600 * 1000 | Some e \<Rightarrow> e)"
    "keys d' = map (retire_active zone e) (keys d) @ [row]" "k_zone row = zone" "k_key_id row = key_id"
    "k_secret row = secret" "k_state row = ACTIVE" "k_expires_at row = None" "k_gen row = next_gen d zone"
    "d' = d\<lparr>keys := keys d'\<rparr>"
  using assms
proof (rule install_key_Inr)
  fix e
  assume e: "ts < e" "e = (case expires_at of None \<Rightarrow> ts + 3600 * 1000 | Some e \<Rightarrow> e)"
    and row: "row = \<lparr>k_zone = zone, k_key_id = key_id, k_gen = next_gen d zone,
        k_key_name = effective_key_name key_id key_name, k_secret = secret,
        k_state = ACTIVE, k_created_at = ts, k_expires_at = None, k_revoked_at = None\<rparr>"
    and d': "d' = d\<lparr>keys := map (retire_active zone e) (keys d) @ [row]\<rparr>"
  show ?thesis by (rule that [OF e]) (simp_all add: row d')
qed

lemma live_retired:
  assumes k: "k \<in> set (keys d)" "k_zone k = zone" "k_state k = ACTIVE"
    and d': "keys d' = map (retire_active zone e) (keys d) @ [row]"
  shows "live_key now_ms d' zone (k_key_name k) (k\<lparr>k_state := RETIRING, k_expires_at := Some e\<rparr>) \<longleftrightarrow> now_ms < e"
proof -
  have "retire_active zone e k = k\<lparr>k_state := RETIRING, k_expires_at := Some e\<rparr>" using k by (simp add: retire_active_def)
  then have "k\<lparr>k_state := RETIRING, k_expires_at := Some e\<rparr> \<in> set (keys d')"
    unfolding d' using k(1) by (metis Un_iff image_eqI list.set_map set_append)
  then show ?thesis using k by (simp add: live_key_def key_usable_def not_le)
qed

text \<open>
  C17.  The keys of a zone in a reachable database are consistent: two rows of the zone with the
  same generation or the same key id are the same row, at most one is ACTIVE and none is newer
  than it, and a name belongs to at most one key that is not revoked, so that a request names at
  most one usable key.
\<close>

theorem keys_consistent:
  assumes "reachable d" and "k \<in> set (keys d)" and "l \<in> set (keys d)" and "k_zone k = k_zone l"
  shows "(k_gen k = k_gen l \<or> k_key_id k = k_key_id l \<or> k_state k = ACTIVE \<and> k_state l = ACTIVE \<or>
      k_key_name k = k_key_name l \<and> k_state k \<noteq> REVOKED \<and> k_state l \<noteq> REVOKED \<longrightarrow> k = l) \<and>
    (k_state k = ACTIVE \<longrightarrow> k_gen l \<le> k_gen k)"
proof -
  from reachable_wf_keys [OF assms(1)] have d: "distinct (map key_key (keys d))"
    and c: "keys_compat k l" "keys_compat l k" using assms(2,3) by (auto simp: wf_keys_def wf_key_list_def)
  have "k = l" if "k_key_id k = k_key_id l"
    using d assms(2-4) that by (auto simp: distinct_map inj_on_def key_key_def)
  moreover have "k_gen k = k_gen l" if "k_state k = ACTIVE" "k_state l = ACTIVE"
    using c that assms(4) by (simp add: keys_compat_def)
  ultimately show ?thesis using c assms(4) by (auto simp: keys_compat_def)
qed

theorem keys_consistent_witness:
  "\<exists>k \<in> set (keys demo3). k_state k = ACTIVE \<and> k_gen k \<le> k_gen k"
proof -
  have k: "hd (keys demo3) \<in> set (keys demo3)" "k_state (hd (keys demo3)) = ACTIVE" by (simp_all add: demo3_def)
  with keys_consistent [OF demo_reachable(3) k(1,1) refl] show ?thesis by blast
qed

text \<open>
  C16.  Rotation is atomic and overlaps: installing a key makes it usable at once and for good, with
  the greatest generation; every key that was ACTIVE stays usable under its name and secret
  exactly until the given expiry, which lies in the future; and no other row changes.
\<close>

theorem key_rotation:
  assumes "install_key ts secret zone key_id key_name expires_at d = (Inr row, d')"
  shows "\<exists>e > ts. e = (case expires_at of None \<Rightarrow> ts + 3600 * 1000 | Some e \<Rightarrow> e) \<and>
    (\<forall>now_ms. live_key now_ms d' zone (k_key_name row) row) \<and> k_secret row = secret \<and>
    (\<forall>k \<in> set (keys d). k_zone k = zone \<longrightarrow> k_gen k < k_gen row) \<and>
    (\<forall>k \<in> set (keys d). k_zone k = zone \<and> k_state k = ACTIVE \<longrightarrow>
       (\<forall>now_ms. live_key now_ms d' zone (k_key_name k) (k\<lparr>k_state := RETIRING, k_expires_at := Some e\<rparr>) \<longleftrightarrow> now_ms < e)) \<and>
    (\<forall>k \<in> set (keys d). \<not> (k_zone k = zone \<and> k_state k = ACTIVE) \<longrightarrow> k \<in> set (keys d')) \<and>
    d' = d\<lparr>keys := keys d'\<rparr>"
proof -
  obtain e where e: "ts < e" "e = (case expires_at of None \<Rightarrow> ts + 3600 * 1000 | Some e \<Rightarrow> e)"
    and ks: "keys d' = map (retire_active zone e) (keys d) @ [row]" and row: "k_zone row = zone" "k_secret row = secret"
      "k_state row = ACTIVE" "k_gen row = next_gen d zone" "k_expires_at row = None"
    and d': "d' = d\<lparr>keys := keys d'\<rparr>"
    using assms by (rule install_key_rows)
  have "live_key now_ms d' zone (k_key_name row) row" for now_ms
    by (simp add: live_key_def key_usable_def ks row)
  moreover have "k_gen k < k_gen row" if "k \<in> set (keys d)" "k_zone k = zone" for k
    using next_gen_greater that by (simp add: row)
  moreover have "k \<in> set (keys d')" if "k \<in> set (keys d)" "\<not> (k_zone k = zone \<and> k_state k = ACTIVE)" for k
  proof -
    have "retire_active zone e k = k" using that(2) by (auto simp: retire_active_def)
    with that(1) show ?thesis unfolding ks by (metis Un_iff image_eqI list.set_map set_append)
  qed
  ultimately show ?thesis using e row(2) live_retired [OF _ _ _ ks] d' by (intro exI [of _ e]) simp
qed

lemma demo_rotate: "\<exists>row d'. install_key 5000 [9] ''a.'' ''k2'' (Some ''l.'') (Some 6000) demo3 = (Inr row, d')"
proof -
  have "\<not> isl (fst (install_key 5000 [9] ''a.'' ''k2'' (Some ''l.'') (Some 6000) demo3))" by code_simp
  then show ?thesis by (metis isl_def prod.collapse sum.collapse(2))
qed

theorem key_rotation_witness:
  "\<exists>row d'. install_key 5000 [9] ''a.'' ''k2'' (Some ''l.'') (Some 6000) demo3 = (Inr row, d') \<and>
    live_key 5999 d' ''a.'' (k_key_name row) row"
proof -
  obtain row d' where i: "install_key 5000 [9] ''a.'' ''k2'' (Some ''l.'') (Some 6000) demo3 = (Inr row, d')"
    using demo_rotate by blast
  from key_rotation [OF i] i show ?thesis by blast
qed

text \<open>
  C15.  Revocation is immediate and final: after a key of a zone has been revoked, no run of the
  service ever makes a row with its id usable for the zone again, at any time.
\<close>

theorem revocation_final:
  assumes "reachable d" and "revoke_key ts zone key_id d = (Inr r, d1)" and "steps d1 d2"
    and "live_key now_ms d2 zone name k"
  shows "k_key_id k \<noteq> key_id"
proof
  assume id: "k_key_id k = key_id"
  have w1: "wf_keys d1" using wf_keys_revoke_key [OF reachable_wf_keys [OF assms(1)], of ts zone key_id] assms(2) by simp
  have w2: "wf_keys d2" by (rule steps_wf_keys [OF assms(3) w1])
  from assms(2) obtain l where l: "l \<in> set (keys d)" "key_key l = (zone, key_id)"
    and d1: "keys d1 = map (revoke_row ts zone key_id) (keys d)"
  proof (rule revoke_key_Inr)
    fix l
    assume f: "find (\<lambda>k. k_zone k = zone \<and> k_key_id k = key_id) (keys d) = Some l"
      and "d1 = d\<lparr>keys := map (revoke_row ts zone key_id) (keys d)\<rparr>"
    with find_SomeD [OF f] that [of l] show ?thesis by (simp add: key_key_def)
  qed
  let ?l = "revoke_row ts zone key_id l"
  have "?l \<in> set (keys d1)" "k_state ?l = REVOKED" using l by (auto simp: d1 revoke_row_def key_key_def)
  then have "?l \<in> set (keys d2)" using steps_revoked_kept [OF assms(3) w1] by (auto simp: revoked_kept_def)
  moreover have "key_key ?l = key_key k" using assms(4) id l(2) by (simp add: live_key_def key_key_def)
  ultimately have "k = ?l"
    using w2 assms(4) by (auto simp: wf_keys_def wf_key_list_def distinct_map inj_on_def live_key_def)
  with assms(4) \<open>k_state ?l = REVOKED\<close> show False by (simp add: live_key_def)
qed

theorem revocation_final_witness:
  "\<exists>d1. revoke_key 5000 ''a.'' ''k1'' demo3 = (Inr 5000, d1) \<and>
    (\<forall>now_ms. \<not> live_key now_ms (heartbeat_transfer 6000 ''r'' d1) ''a.'' ''k.''
       (demo_key_row\<lparr>k_state := RETIRING\<rparr>))"
proof -
  have "fst (revoke_key 5000 ''a.'' ''k1'' demo3) = Inr 5000" by code_simp
  then obtain d1 where r: "revoke_key 5000 ''a.'' ''k1'' demo3 = (Inr 5000, d1)" by (metis prod.collapse)
  have "k_key_id (demo_key_row\<lparr>k_state := RETIRING\<rparr>) = ''k1''" by (simp add: demo_key_row_def demo3_def)
  with revocation_final [OF demo_reachable(3) r steps_one [OF step_beat]] r show ?thesis by blast
qed

end
