(* ===== verification/Publish_Progress.thy ===== *)
theory Publish_Progress
  imports Key_Theorems
begin

text \<open>
  A publish that passes its checks commits: every insert of the transaction finds its keys free,
  except the unique index on the serials of the retained versions.
\<close>

subsection \<open>RRsets without duplicate RDATA\<close>

definition distinct_entries :: "rrsets \<Rightarrow> bool" where
  "distinct_entries rs \<longleftrightarrow> (\<forall>n t ttl es. rr_lookup rs n t = Some (ttl, es) \<longrightarrow> distinct (map fst es))"

lemma canon_records_distinct:
  "canon_records idx zone name t vals seen = Inr es \<Longrightarrow> distinct (map fst es) \<and> set (map fst es) \<inter> set seen = {}"
proof (induction vals arbitrary: seen es)
  case (Cons v vals)
  from Cons.prems obtain rj rw es' where "rj \<notin> set seen" "canon_records idx zone name t vals (rj # seen) = Inr es'"
    "es = (rj, rw) # es'" by (auto simp: bindE_Inr_iff split: if_splits)
  with Cons.IH show ?case by fastforce
qed simp

lemma distinct_entries_load:
  assumes "distinct (map record_key (records d))"
  shows "distinct_entries (load_rrsets d zone vid)"
proof -
  have "distinct (map fst es)" if l: "rr_lookup (load_rrsets d zone vid) n t = Some (ttl, es)" for n t ttl es
  proof -
    let ?rows = "version_rows_at d zone vid n t"
    have inj: "inj_on record_key (set (records d))" and dr: "distinct (records d)" using assms by (simp_all add: distinct_map)
    have "distinct ?rows" using dr by (simp add: version_rows_at_def rows_at_def records_of_def)
    moreover have "inj_on r_rdata (set ?rows)"
      using inj unfolding set_version_rows_at
      by (intro inj_onI) (auto simp: inj_on_def record_key_def in_rrset_def)
    ultimately have "distinct (map r_rdata ?rows)" by (simp add: distinct_map)
    moreover have "es = map entry_of ?rows" using l by (auto simp: load_rrsets_lookup load_set_def split: list.splits)
    ultimately show ?thesis by (simp add: entry_of_def comp_def)
  qed
  then show ?thesis by (simp add: distinct_entries_def)
qed

lemma distinct_entries_store:
  "distinct_entries rs \<Longrightarrow> distinct (map fst es) \<Longrightarrow> distinct_entries (rr_store rs n t (ttl, es))"
  by (auto simp: distinct_entries_def rr_simps split: if_splits)

lemma distinct_entries_remove: "distinct_entries rs \<Longrightarrow> distinct_entries (rr_remove rs n t)"
  by (auto simp: distinct_entries_def rr_simps split: if_splits)

lemma apply_ops_distinct:
  assumes "apply_ops zone ops st = Inr st'" and "distinct_entries (fst st)"
  shows "distinct_entries (fst st')"
  using assms
proof (rule apply_ops_invariant)
  show "distinct_entries (fst (apply_delete n t st))" if "distinct_entries (fst st)" for n t st
    using that by (auto simp: apply_delete_def distinct_entries_remove split: prod.splits)
  show "distinct_entries (fst (apply_replace n t ttl es st))"
    if "distinct_entries (fst st)" "canon_records i zone n t vals [] = Inr es" for i n t ttl vals es st
    using that canon_records_distinct [OF that(2)]
    by (auto simp: apply_replace_def Let_def distinct_entries_remove distinct_entries_store split: prod.splits)
qed

subsection \<open>Every insert finds its keys free\<close>

lemma rewrite_changed_total:
  assumes "distinct_entries rs"
  shows "\<exists>tab'. rewrite_changed zone vid rs ks tab = Inr tab'"
proof (induction ks arbitrary: tab)
  case (Cons k ks)
  let ?rows = "rrset_rows zone vid rs k" and ?rest = "filter (\<lambda>r. \<not> in_rrset zone vid (fst k) (snd k) r) tab"
  have "distinct (map record_key ?rows)"
  proof (cases "rr_lookup rs (fst k) (snd k)")
    case (Some s)
    obtain ttl es where s: "s = (ttl, es)" by (cases s)
    have e: "distinct (map fst es)" using assms Some s by (auto simp: distinct_entries_def)
    have "map record_key ?rows = map (\<lambda>rd. (zone, vid, fst k, snd k, rd)) (map fst es)"
      by (simp add: rrset_rows_def Some s record_key_def entry_row_def)
    with e show ?thesis by (simp add: distinct_map inj_on_def)
  qed (simp add: rrset_rows_def)
  moreover have "record_key ` set ?rows \<inter> record_key ` set ?rest = {}"
  proof -
    have "in_rrset zone vid (fst k) (snd k) y" if "x \<in> set ?rows" "record_key x = record_key y" for x y
      using mem_rrset_rows [OF that(1)] that(2) by (simp add: in_rrset_def record_key_def)
    then show ?thesis by fastforce
  qed
  ultimately have "insert_all record_key ?rows ?rest = Inr (?rest @ ?rows)" by (simp add: insert_all_Inr_iff)
  with Cons.IH [of "?rest @ ?rows"] show ?case by simp
qed simp

lemma materialize_total:
  assumes wf: "wf_db d" and new: "new \<notin> vids d zone" and ne: "new \<noteq> old" and rs: "distinct_entries rs"
  shows "\<exists>d'. materialize zone old new rs changed d = Inr d'"
proof -
  let ?copy = "map (\<lambda>r. r\<lparr>r_version_id := new\<rparr>) (records_of d zone old)"
  have none: "records_of d zone new = []" "changes_of d zone new = []"
    using no_orphans [OF _ new] wf by (simp_all add: wf_db_def)
  have dk: "distinct (map record_key (records d))" using wf by (simp add: wf_db_def unique_keys_def)
  have key: "record_key (r\<lparr>r_version_id := new\<rparr>) = (r_zone r, new, r_name r, r_rtype r, r_rdata r)" for r
    by (simp add: record_key_def)
  have "inj_on record_key (set (records d))" "distinct (records d)" using dk by (simp_all add: distinct_map)
  then have "distinct (map record_key ?copy)"
    by (auto simp: distinct_map key records_of_def comp_def intro!: inj_onI) (simp add: inj_on_def record_key_def)
  moreover have "record_key ` set ?copy \<inter> record_key ` set (records d) = {}"
    using none(1) by (auto simp: key records_of_def filter_empty_conv) (auto simp: record_key_def)
  ultimately have c: "insert_all record_key ?copy (records d) = Inr (records d @ ?copy)" by (simp add: insert_all_Inr_iff)
  obtain tab' where r: "rewrite_changed zone new rs changed (records d @ ?copy) = Inr tab'"
    using rewrite_changed_total [OF rs] by blast
  let ?nc = "number_changes zone new 0 (delta (d\<lparr>records := tab'\<rparr>) zone old rs changed)"
  have "distinct (map c_seq ?nc)" unfolding number_changes_seq by (simp add: distinct_map inj_on_def)
  then have "distinct (map change_key ?nc)"
    by (auto simp: distinct_map inj_on_def change_key_def)
  moreover have "change_key ` set ?nc \<inter> change_key ` set (changes d) = {}"
    using none(2) number_changes_owner [of _ zone new 0] by (auto simp: changes_of_def filter_empty_conv change_key_def)
  ultimately have "insert_all change_key ?nc (changes d) = Inr (changes d @ ?nc)" by (simp add: insert_all_Inr_iff)
  then show ?thesis by (simp add: materialize_def c r Let_def)
qed

lemma commit_total:
  assumes wf: "wf_db d" and z: "z \<in> set (zones d)" and fresh: "find_request d (z_name z) rid = None"
    and plan: "plan_publish d z base nxt (JList ops) = Inr (rs, changed)"
  shows "if \<exists>v \<in> set (versions d). v_zone v = z_name z \<and> v_serial v = nxt
    then commit_publish ts z rid fp base nxt rs changed d = Inl IntegrityError
    else \<exists>d'. commit_publish ts z rid fp base nxt rs changed d = Inr d'"
proof -
  let ?Z = "z_name z" and ?N = "z_current_version z + 1"
  have new: "?N \<notin> vids d ?Z" by (rule next_not_in_vids [OF wf z])
  have "distinct (map record_key (records d))" using wf by (simp add: wf_db_def unique_keys_def)
  with apply_ops_distinct [OF plan_publish_Inr(3) [OF plan]] have rs: "distinct_entries rs"
    by (simp add: distinct_entries_load)
  have ne: "?N \<noteq> z_current_version z" by simp
  obtain d1 where m: "materialize ?Z (z_current_version z) ?N rs changed d = Inr d1"
    using materialize_total [OF wf new ne rs] by blast
  from materialize_elim [OF m ne] have d1: "d1 = d\<lparr>records := records d1, changes := changes d1\<rparr>" by auto
  then have same: "versions d1 = versions d" "publish_requests d1 = publish_requests d" "zones d1 = zones d"
    by (metis db.select_convs db.surjective db.update_convs)+
  let ?v = "\<lparr>v_zone = ?Z, v_version_id = ?N, v_serial = nxt, v_request_id = rid, v_created_at = ts\<rparr>"
  have vk: "version_key ?v \<notin> version_key ` set (versions d)"
    using new by (force simp: version_key_def vids_def)
  have rk: "request_key (request_entry ts ?Z rid fp st base nxt) \<notin> request_key ` set (publish_requests d)" for st
    using find_request_None [OF fresh] by (simp add: request_key_def request_entry_def)
  show ?thesis
  proof (cases "\<exists>v \<in> set (versions d). v_zone v = ?Z \<and> v_serial v = nxt")
    case True
    then have "version_serial_key ?v \<in> version_serial_key ` set (versions d)" by (force simp: version_serial_key_def)
    then have "insert_version ?v (versions d1) = Inl IntegrityError" by (simp add: insert_version_def same)
    with True show ?thesis by (simp add: commit_publish_def Let_def m)
  next
    case False
    then have "version_serial_key ?v \<notin> version_serial_key ` set (versions d)" by (auto simp: version_serial_key_def)
    with vk have "insert_version ?v (versions d1) = Inr (versions d @ [?v])"
      by (simp add: insert_version_def insert_unique_def same)
    with False rk show ?thesis by (simp add: commit_publish_def Let_def m insert_unique_def same)
  qed
qed

text \<open>
  C25.  A publish that passes its checks makes progress: in a reachable database, a new request whose
  changeset validates against the current version commits as the next version, unless its serial
  is still the serial of a retained version, which is possible only after the serial space has
  wrapped; then the transaction rolls back with an integrity error and changes nothing.
\<close>

theorem publish_progress:
  assumes "reachable d" and "find_zone d zname = Some z" and "find_request d zname rid = None"
    and "plan_publish d z base nxt (JList ops) = Inr (rs, changed)"
  shows "if \<exists>v \<in> set (versions d). v_zone v = zname \<and> v_serial v = nxt
    then publish ts zname rid base nxt (JList ops) fp d = (Inl IntegrityError, d)
    else \<exists>d'. publish ts zname rid base nxt (JList ops) fp d =
      (Inr \<lparr>pr_zone = zname, pr_request_id = rid, pr_version_id = z_current_version z + 1, pr_serial = nxt,
         pr_replayed = False\<rparr>, d')"
proof -
  from find_zone_name [OF assms(2)] have z: "z_name z = zname" "z \<in> set (zones d)" by auto
  from commit_total [OF reachable_wf [OF assms(1)] z(2) _ assms(4)] assms(3) z(1)
  have c: "if \<exists>v \<in> set (versions d). v_zone v = zname \<and> v_serial v = nxt
    then commit_publish ts z rid fp base nxt rs changed d = Inl IntegrityError
    else \<exists>d'. commit_publish ts z rid fp base nxt rs changed d = Inr d'" by simp
  show ?thesis
    using c by (auto simp: publish_def assms(2-4) z(1) split: if_splits)
qed

theorem publish_progress_witness:
  "\<exists>d'. publish 3000 ''a.'' ''r9'' 1 2 (JList (demo_ops 2)) ''f'' demo2 =
    (Inr \<lparr>pr_zone = ''a.'', pr_request_id = ''r9'', pr_version_id = 1, pr_serial = 2, pr_replayed = False\<rparr>, d')"
proof -
  let ?z = "hd (zones demo2)" and ?p = "plan_publish demo2 (hd (zones demo2)) 1 2 (JList (demo_ops 2))"
  have z: "find_zone demo2 ''a.'' = Some ?z" "z_current_version ?z = 0" by (simp_all add: find_zone_def demo2_def)
  have r: "find_request demo2 ''a.'' ''r9'' = None" by (simp add: find_request_def demo2_def)
  have "\<not> isl ?p" by code_simp
  then obtain rs changed where p: "?p = Inr (rs, changed)" by (metis isl_def surj_pair sum.exhaust)
  have "\<not> (\<exists>v \<in> set (versions demo2). v_zone v = ''a.'' \<and> v_serial v = 2)" by (simp add: demo2_def)
  with publish_progress [OF demo_reachable(2) z(1) r p, of 3000 "''f''"] z(2) show ?thesis by simp
qed

end
