(* ===== verification/Migrations.thy ===== *)
theory Migrations
  imports Prelude
begin

text \<open>
  Start-up: the migration runner \<open>Database._init_schema\<close> of \<open>app/storage.py\<close> and the choice of the
  role in \<open>app/server.py\<close>.  The effect of a script on the schema is a parameter, as is the content of the
  directory; each \<open>execute\<close> commits on its own, so a start is a sequence of steps that may be
  cut short between any two of them.
\<close>

subsection \<open>The migration runner\<close>

record 's schema_state =
  sc_schema :: 's
  sc_applied :: "string list"

text \<open>Two statements per migration: the script is run, then its name is recorded.\<close>

datatype statement = Run string | Record string

definition insert_or_ignore :: "string \<Rightarrow> string list \<Rightarrow> string list" where
  "insert_or_ignore name xs = (if name \<in> set xs then xs else xs @ [name])"

fun execute_statement :: "(string \<Rightarrow> 's \<Rightarrow> 's) \<Rightarrow> statement \<Rightarrow> 's schema_state \<Rightarrow> 's schema_state" where
  "execute_statement executescript (Run name) st = st\<lparr>sc_schema := executescript name (sc_schema st)\<rparr>"
| "execute_statement executescript (Record name) st = st\<lparr>sc_applied := insert_or_ignore name (sc_applied st)\<rparr>"

text \<open>The names to apply are read once, before the loop.\<close>

definition pending :: "string list \<Rightarrow> 's schema_state \<Rightarrow> string list" where
  "pending listdir st = filter (\<lambda>name. ends_with name ''.sql'' \<and> name \<notin> set (sc_applied st)) (sort listdir)"

definition boot_steps :: "string list \<Rightarrow> 's schema_state \<Rightarrow> statement list" where
  "boot_steps listdir st = concat (map (\<lambda>name. [Run name, Record name]) (pending listdir st))"

definition run_steps :: "(string \<Rightarrow> 's \<Rightarrow> 's) \<Rightarrow> statement list \<Rightarrow> 's schema_state \<Rightarrow> 's schema_state" where
  "run_steps executescript steps st = fold (execute_statement executescript) steps st"

definition init_schema :: "(string \<Rightarrow> 's \<Rightarrow> 's) \<Rightarrow> string list \<Rightarrow> 's schema_state \<Rightarrow> 's schema_state" where
  "init_schema executescript listdir st = run_steps executescript (boot_steps listdir st) st"

text \<open>A start that ends, or is killed, after some of its statements.\<close>

definition init_schema_cut :: "(string \<Rightarrow> 's \<Rightarrow> 's) \<Rightarrow> string list \<Rightarrow> nat \<Rightarrow> 's schema_state \<Rightarrow> 's schema_state" where
  "init_schema_cut executescript listdir k st = run_steps executescript (take k (boot_steps listdir st)) st"

subsection \<open>The role of the process\<close>

datatype role = Run_Edge | Run_Cleaner

definition ROLES :: "string \<Rightarrow> role option" where
  "ROLES = [''edge'' \<mapsto> Run_Edge, ''cleaner'' \<mapsto> Run_Cleaner]"

text \<open>The exit status, or the entry point that runs.\<close>

definition server_main :: "string option \<Rightarrow> int + role" where
  "server_main service_role =
     (let role = (case service_role of None \<Rightarrow> ''edge'' | Some r \<Rightarrow> r) in
      case ROLES role of None \<Rightarrow> Inl 2 | Some r \<Rightarrow> Inr r)"

subsection \<open>Lemmas\<close>

lemma run_steps_append: "run_steps ex (xs @ ys) st = run_steps ex ys (run_steps ex xs st)"
  by (simp add: run_steps_def)

definition apply_all :: "(string \<Rightarrow> 's \<Rightarrow> 's) \<Rightarrow> string list \<Rightarrow> 's schema_state \<Rightarrow> 's schema_state" where
  "apply_all ex names st = \<lparr>sc_schema = fold ex names (sc_schema st), sc_applied = sc_applied st @ names\<rparr>"

text \<open>New names are run in order, each once, and recorded in that order.\<close>

lemma run_names:
  assumes "distinct names" and "set names \<inter> set (sc_applied st) = {}"
  shows "run_steps ex (concat (map (\<lambda>name. [Run name, Record name]) names)) st = apply_all ex names st"
  using assms
proof (induction names arbitrary: st)
  case (Cons n names)
  let ?st = "\<lparr>sc_schema = ex n (sc_schema st), sc_applied = sc_applied st @ [n]\<rparr>"
  have "execute_statement ex (Record n) (execute_statement ex (Run n) st) = ?st"
    using Cons.prems(2) by (simp add: insert_or_ignore_def)
  then have "run_steps ex (concat (map (\<lambda>name. [Run name, Record name]) (n # names))) st =
      run_steps ex (concat (map (\<lambda>name. [Run name, Record name]) names)) ?st"
    by (simp add: run_steps_def)
  also have "\<dots> = apply_all ex names ?st" using Cons.prems by (intro Cons.IH) auto
  finally show ?case by (simp add: apply_all_def)
qed (simp add: run_steps_def apply_all_def)

lemma pending_new: "distinct listdir \<Longrightarrow> distinct (pending listdir st) \<and> set (pending listdir st) \<inter> set (sc_applied st) = {}"
  by (auto simp: pending_def)

lemma init_schema_pending: "distinct listdir \<Longrightarrow> init_schema ex listdir st = apply_all ex (pending listdir st) st"
  unfolding init_schema_def boot_steps_def by (rule run_names) (use pending_new in blast)+

lemma pending_rest:
  assumes "distinct listdir" and "pending listdir st = xs @ ys" and "sc_applied st' = sc_applied st @ xs"
  shows "pending listdir st' = ys"
proof -
  have "pending listdir st' = filter (\<lambda>n. n \<notin> set xs) (pending listdir st)"
    by (auto simp: pending_def assms(3) intro: filter_cong)
  moreover have "set xs \<inter> set ys = {}" using pending_new [OF assms(1), of st] by (auto simp: assms(2))
  ultimately show ?thesis by (auto simp: assms(2) filter_empty_conv filter_id_conv)
qed

lemma take_steps:
  obtains xs ys where "names = xs @ ys"
    "take k (concat (map (\<lambda>name. [Run name, Record name]) names)) = concat (map (\<lambda>name. [Run name, Record name]) xs)"
  | xs y ys where "names = xs @ y # ys"
    "take k (concat (map (\<lambda>name. [Run name, Record name]) names)) = concat (map (\<lambda>name. [Run name, Record name]) xs) @ [Run y]"
proof (induction names arbitrary: k thesis)
  case Nil
  show ?case by (rule Nil(1) [of "[]" "[]"]) simp_all
next
  case (Cons n names)
  consider "k = 0" | "k = 1" | j where "k = Suc (Suc j)" by (metis One_nat_def not0_implies_Suc)
  then show ?case
  proof cases
    case 1
    then show ?thesis by (intro Cons.prems(1) [of "[]" "n # names"]) simp_all
  next
    case 2
    then show ?thesis by (intro Cons.prems(2) [of "[]" n names]) simp_all
  next
    case 3
    show ?thesis
    proof (rule Cons.IH [of j])
      fix xs ys assume "names = xs @ ys" "take j (concat (map (\<lambda>name. [Run name, Record name]) names)) = concat (map (\<lambda>name. [Run name, Record name]) xs)"
      with 3 show ?thesis by (intro Cons.prems(1) [of "n # xs" ys]) simp_all
    next
      fix xs y ys assume "names = xs @ y # ys"
        "take j (concat (map (\<lambda>name. [Run name, Record name]) names)) = concat (map (\<lambda>name. [Run name, Record name]) xs) @ [Run y]"
      with 3 show ?thesis by (intro Cons.prems(2) [of "n # xs" y ys]) simp_all
    qed
  qed
qed


definition demo_exec :: "string \<Rightarrow> string set \<Rightarrow> string set" where
  "demo_exec name s = insert name s"


text \<open>The name is recorded after the script, so that a start cut short between the two runs it again.\<close>

lemma migration_run_before_recorded:
  "sc_applied (init_schema_cut ex [''0001.sql''] 1 \<lparr>sc_schema = s, sc_applied = []\<rparr>) = []"
  "sc_schema (init_schema_cut ex [''0001.sql''] 1 \<lparr>sc_schema = s, sc_applied = []\<rparr>) = ex ''0001.sql'' s"
  by (simp_all add: init_schema_cut_def boot_steps_def pending_def ends_with_def run_steps_def)

lemma server_main_cases:
  "server_main None = Inr Run_Edge" "server_main (Some ''cleaner'') = Inr Run_Cleaner"
  "r \<notin> {''edge'', ''cleaner''} \<Longrightarrow> server_main (Some r) = Inl 2"
  by (auto simp: server_main_def ROLES_def)

end
