(* ===== verification/Process.thy ===== *)
theory Process
  imports Migrations Api
begin

text \<open>
  The process around the service: the settings read by \<open>app/config.py\<close>, and the life of an edge process in
  \<open>run_edge\<close> of \<open>app/server.py\<close> with \<open>build_dns_servers\<close> and \<open>build_api_server\<close>.  The main
  thread is the list of the actions it has still to perform, each of which may raise; signals arrive
  between any two of them.  \<open>serve_forever\<close> of a server ends with its \<open>shutdown\<close> only.
\<close>

subsection \<open>The settings\<close>

record settings =
  c_db_path :: string
  c_api_port :: int
  c_api_host :: string
  c_dns_port :: int
  c_dns_host :: string
  c_instance_id :: string
  c_max_records_per_zone :: int
  c_max_changes_per_publish :: int
  c_max_name_len :: int
  c_max_label_len :: int
  c_max_rdata_len :: int
  c_max_udp_payload :: int
  c_max_tcp_message :: int
  c_xfer_idle_timeout :: int
  c_xfer_message_budget :: int
  c_xfer_sndbuf :: int

definition env_get :: "(string \<Rightarrow> string option) \<Rightarrow> string \<Rightarrow> string \<Rightarrow> string" where
  "env_get environ name dflt = (case environ name of None \<Rightarrow> dflt | Some s \<Rightarrow> s)"

text \<open>The body of the class runs when the module is imported: an exception ends the process.\<close>

definition read_config :: "(string \<Rightarrow> string option) \<Rightarrow> int \<Rightarrow> exn + settings" where
  "read_config environ pid =
     bindE (config_int (environ ''API_PORT'') 8080) (\<lambda>api_port.
     bindE (config_int (environ ''DNS_PORT'') 53) (\<lambda>dns_port.
     bindE (config_int (environ ''MAX_RECORDS_PER_ZONE'') 10000) (\<lambda>max_records.
     bindE (config_int (environ ''MAX_CHANGES_PER_PUBLISH'') 1000) (\<lambda>max_changes.
     bindE (config_int (environ ''MAX_NAME_LEN'') 255) (\<lambda>max_name.
     bindE (config_int (environ ''MAX_LABEL_LEN'') 63) (\<lambda>max_label.
     bindE (config_int (environ ''MAX_RDATA_LEN'') 65535) (\<lambda>max_rdata.
     bindE (config_int (environ ''XFER_IDLE_TIMEOUT'') 30) (\<lambda>idle.
     bindE (config_int (environ ''XFER_MESSAGE_BUDGET'') 65000) (\<lambda>budget.
     bindE (config_int (environ ''XFER_SNDBUF'') 16384) (\<lambda>sndbuf.
       Inr \<lparr>c_db_path = env_get environ ''DB_PATH'' ''/data/dns.db'',
         c_api_port = api_port, c_api_host = env_get environ ''API_HOST'' ''0.0.0.0'',
         c_dns_port = dns_port, c_dns_host = env_get environ ''DNS_HOST'' ''0.0.0.0'',
         c_instance_id = env_get environ ''INSTANCE_ID'' (''instance-'' @ dec_int pid),
         c_max_records_per_zone = max_records, c_max_changes_per_publish = max_changes,
         c_max_name_len = max_name, c_max_label_len = max_label, c_max_rdata_len = max_rdata,
         c_max_udp_payload = 512, c_max_tcp_message = 65535,
         c_xfer_idle_timeout = idle, c_xfer_message_budget = budget, c_xfer_sndbuf = sndbuf\<rparr>))))))))))"

definition int_settings :: "string list" where
  "int_settings = [''API_PORT'', ''DNS_PORT'', ''MAX_RECORDS_PER_ZONE'', ''MAX_CHANGES_PER_PUBLISH'', ''MAX_NAME_LEN'',
     ''MAX_LABEL_LEN'', ''MAX_RDATA_LEN'', ''XFER_IDLE_TIMEOUT'', ''XFER_MESSAGE_BUDGET'', ''XFER_SNDBUF'']"

text \<open>The limits of the model are the settings of an environment that does not name them.\<close>

lemma config_limits:
  assumes "\<forall>name \<in> set int_settings. environ name = None \<or> environ name = Some []"
  shows "\<exists>c. read_config environ pid = Inr c \<and>
    c_max_records_per_zone c = int MAX_RECORDS_PER_ZONE \<and> c_max_changes_per_publish c = int MAX_CHANGES_PER_PUBLISH \<and>
    c_max_name_len c = int MAX_NAME_LEN \<and> c_max_label_len c = int MAX_LABEL_LEN \<and>
    c_max_rdata_len c = int MAX_RDATA_LEN \<and> c_max_udp_payload c = int MAX_UDP_PAYLOAD \<and>
    c_max_tcp_message c = int MAX_TCP_MESSAGE \<and> c_xfer_message_budget c = 65000"
proof -
  have "config_int (environ name) n = Inr n" if "name \<in> set int_settings" for name n
    using assms that by (auto simp: config_int_def)
  then show ?thesis by (simp add: read_config_def int_settings_def limit_defs)
qed

text \<open>One setting that is neither empty nor an integer, and the process does not start.\<close>

lemma config_rejected:
  assumes "name \<in> set int_settings" and "environ name = Some s" and "s \<noteq> []" and "int_of_str s = Inl e"
  shows "\<exists>e'. read_config environ pid = Inl e'"
proof -
  have "config_int (environ name) n = Inl e" for n using assms(2-4) by (simp add: config_int_def)
  then show ?thesis
    using assms(1) by (cases "read_config environ pid") (auto simp: read_config_def bindE_Inr_iff int_settings_def)
qed

subsection \<open>The edge process\<close>

datatype endpoint = Absent | Bound | Serving | Shut

datatype signal = SIGTERM | SIGINT

record 's edge_process =
  e_schema :: "'s schema_state"
  e_udp :: endpoint
  e_tcp :: endpoint
  e_http :: endpoint
  e_ready_udp :: bool
  e_ready_tcp :: bool
  e_handled :: "signal list"
  e_stop :: bool

datatype action = Open_Database | Bind_Udp | Bind_Tcp | Serve_Udp | Serve_Tcp | Ready_Udp | Ready_Tcp
  | Bind_Http | Serve_Http | Handle signal | Shutdown_Http | Shutdown_Udp | Shutdown_Tcp

fun perform :: "('s schema_state \<Rightarrow> 's schema_state) \<Rightarrow> action \<Rightarrow> 's edge_process \<Rightarrow> 's edge_process" where
  "perform boot Open_Database e = e\<lparr>e_schema := boot (e_schema e)\<rparr>"
| "perform boot Bind_Udp e = e\<lparr>e_udp := Bound\<rparr>"
| "perform boot Bind_Tcp e = e\<lparr>e_tcp := Bound\<rparr>"
| "perform boot Serve_Udp e = e\<lparr>e_udp := Serving\<rparr>"
| "perform boot Serve_Tcp e = e\<lparr>e_tcp := Serving\<rparr>"
| "perform boot Ready_Udp e = e\<lparr>e_ready_udp := True\<rparr>"
| "perform boot Ready_Tcp e = e\<lparr>e_ready_tcp := True\<rparr>"
| "perform boot Bind_Http e = e\<lparr>e_http := Bound\<rparr>"
| "perform boot Serve_Http e = e\<lparr>e_http := Serving\<rparr>"
| "perform boot (Handle s) e = e\<lparr>e_handled := s # e_handled e\<rparr>"
| "perform boot Shutdown_Http e = e\<lparr>e_http := Shut\<rparr>"
| "perform boot Shutdown_Udp e = e\<lparr>e_udp := Shut\<rparr>"
| "perform boot Shutdown_Tcp e = e\<lparr>e_tcp := Shut\<rparr>"

definition build_dns_servers :: "action list" where
  "build_dns_servers = [Bind_Udp, Bind_Tcp, Serve_Udp, Serve_Tcp, Ready_Udp, Ready_Tcp]"

definition build_api_server :: "action list" where
  "build_api_server = [Bind_Http]"

definition run_edge_start :: "action list" where
  "run_edge_start = [Open_Database] @ build_dns_servers @ build_api_server @ [Serve_Http, Handle SIGTERM, Handle SIGINT]"

definition run_edge_finally :: "action list" where
  "run_edge_finally = [Shutdown_Http, Shutdown_Udp, Shutdown_Tcp]"

text \<open>Where the main thread is; a process that has ended has returned, raised, or was killed.\<close>

datatype ending = Returned int | Raised | Killed signal

datatype control = Starting "action list" | Waiting | Closing bool "action list" | Ended ending

datatype edge_event = Main | Main_Raises | Signal signal

text \<open>
  The main thread moves on, or its current action raises: before the \<open>try\<close> that ends the process, in
  the \<open>finally\<close> too, and while waiting it enters the \<open>finally\<close>.  A signal sets the stop event when its
  handler is installed, and ends the process when it is not.
\<close>

fun edge_next :: "('s schema_state \<Rightarrow> 's schema_state) \<Rightarrow> edge_event \<Rightarrow> 's edge_process \<times> control \<Rightarrow> 's edge_process \<times> control" where
  "edge_next boot ev (e, Ended x) = (e, Ended x)"
| "edge_next boot (Signal s) (e, c) = (if s \<in> set (e_handled e) then (e\<lparr>e_stop := True\<rparr>, c) else (e, Ended (Killed s)))"
| "edge_next boot Main (e, Starting (a # as)) = (perform boot a e, Starting as)"
| "edge_next boot Main (e, Starting []) = (e, Waiting)"
| "edge_next boot Main (e, Waiting) = (e, if e_stop e then Closing False run_edge_finally else Waiting)"
| "edge_next boot Main (e, Closing raised (a # as)) = (perform boot a e, Closing raised as)"
| "edge_next boot Main (e, Closing raised []) = (e, Ended (if raised then Raised else Returned 0))"
| "edge_next boot Main_Raises (e, Starting as) = (e, Ended Raised)"
| "edge_next boot Main_Raises (e, Waiting) = (e, Closing True run_edge_finally)"
| "edge_next boot Main_Raises (e, Closing raised as) = (e, Ended Raised)"

definition edge_start :: "'s schema_state \<Rightarrow> 's edge_process \<times> control" where
  "edge_start st = (\<lparr>e_schema = st, e_udp = Absent, e_tcp = Absent, e_http = Absent, e_ready_udp = False,
     e_ready_tcp = False, e_handled = [], e_stop = False\<rparr>, Starting run_edge_start)"

definition edge_run :: "('s schema_state \<Rightarrow> 's schema_state) \<Rightarrow> 's schema_state \<Rightarrow> edge_event list \<Rightarrow> 's edge_process \<times> control" where
  "edge_run boot st evs = fold (edge_next boot) evs (edge_start st)"

text \<open>What a request to the management API is served with in this process.\<close>

definition edge_env :: "'s edge_process \<Rightarrow> api_env \<Rightarrow> api_env" where
  "edge_env e env = env\<lparr>a_dns_ready := Some (e_ready_udp e, e_ready_tcp e)\<rparr>"

definition running :: "control \<Rightarrow> bool" where
  "running c \<longleftrightarrow> (\<forall>x. c \<noteq> Ended x)"

subsection \<open>How far a process has come\<close>

definition performed :: "('s schema_state \<Rightarrow> 's schema_state) \<Rightarrow> 's schema_state \<Rightarrow> action list \<Rightarrow> 's edge_process \<Rightarrow> bool" where
  "performed boot st done e \<longleftrightarrow> e\<lparr>e_stop := False\<rparr> = fold (perform boot) done (fst (edge_start st))"

definition progress :: "('s schema_state \<Rightarrow> 's schema_state) \<Rightarrow> 's schema_state \<Rightarrow> 's edge_process \<times> control \<Rightarrow> bool" where
  "progress boot st p \<longleftrightarrow>
     (case p of (e, c) \<Rightarrow>
        (case c of
           Starting as \<Rightarrow> (\<exists>done. run_edge_start = done @ as \<and> performed boot st done e)
         | Waiting \<Rightarrow> performed boot st run_edge_start e
         | Closing raised as \<Rightarrow> (raised \<or> e_stop e) \<and>
             (\<exists>done. run_edge_finally = done @ as \<and> performed boot st (run_edge_start @ done) e)
         | Ended x \<Rightarrow> (\<forall>n. x = Returned n \<longrightarrow>
             n = 0 \<and> e_stop e \<and> performed boot st (run_edge_start @ run_edge_finally) e)))"

lemma perform_stop: "(perform boot a e)\<lparr>e_stop := b\<rparr> = perform boot a (e\<lparr>e_stop := b\<rparr>)"
  by (cases a) simp_all

lemma perform_keeps_stop: "e_stop (perform boot a e) = e_stop e"
  by (cases a) simp_all

lemma performed_perform: "performed boot st done e \<Longrightarrow> performed boot st (done @ [a]) (perform boot a e)"
  by (simp add: performed_def perform_stop)

lemma performed_signal: "performed boot st done (e\<lparr>e_stop := b\<rparr>) = performed boot st done e"
  by (simp add: performed_def)

lemma progress_signal: "progress boot st (e, c) \<Longrightarrow> progress boot st (e\<lparr>e_stop := True\<rparr>, c)"
  by (auto simp: progress_def performed_signal split: control.splits)

lemma progress_main: "progress boot st (e, c) \<Longrightarrow> progress boot st (edge_next boot Main (e, c))"
proof (cases c)
  case (Starting as)
  assume "progress boot st (e, c)"
  then obtain "done" where d: "run_edge_start = done @ as" "performed boot st done e"
    by (auto simp: progress_def Starting)
  show ?thesis
  proof (cases as)
    case (Cons a as')
    with d(1) have "run_edge_start = (done @ [a]) @ as'" by simp
    then have "\<exists>done. run_edge_start = done @ as' \<and> performed boot st done (perform boot a e)"
      using performed_perform [OF d(2), of a] by blast
    then show ?thesis by (simp add: Starting Cons progress_def)
  qed (use d in \<open>simp add: Starting progress_def\<close>)
next
  case (Closing raised as)
  assume "progress boot st (e, c)"
  then obtain "done" where d: "run_edge_finally = done @ as" "performed boot st (run_edge_start @ done) e" "raised \<or> e_stop e"
    by (auto simp: progress_def Closing)
  show ?thesis
  proof (cases as)
    case (Cons a as')
    with d(1) have "run_edge_finally = (done @ [a]) @ as'" by simp
    moreover have "performed boot st (run_edge_start @ done @ [a]) (perform boot a e)"
      using performed_perform [OF d(2), of a] by simp
    ultimately have "\<exists>done. run_edge_finally = done @ as' \<and> performed boot st (run_edge_start @ done) (perform boot a e)"
      by blast
    then show ?thesis using d(3) by (simp add: Closing Cons progress_def perform_keeps_stop)
  qed (use d in \<open>auto simp: Closing progress_def\<close>)
qed (auto simp: progress_def)

lemma progress_next: "progress boot st p \<Longrightarrow> progress boot st (edge_next boot ev p)"
proof -
  assume p: "progress boot st p"
  obtain e c where ec: "p = (e, c)" by (metis surj_pair)
  show ?thesis
  proof (cases ev)
    case Main
    with p progress_main show ?thesis by (simp add: ec)
  next
    case Main_Raises
    with p show ?thesis by (cases c) (auto simp: ec progress_def)
  next
    case (Signal s)
    with p progress_signal [of boot st e c] show ?thesis by (cases c) (auto simp: ec progress_def)
  qed
qed

lemma progress_run: "progress boot st (edge_run boot st evs)"
proof -
  have "progress boot st (edge_start st)" by (simp add: progress_def edge_start_def performed_def)
  then have "progress boot st (fold (edge_next boot) evs (edge_start st))"
  proof (induction evs rule: rev_induct)
    case (snoc ev evs)
    then show ?case by (simp add: progress_next)
  qed simp
  then show ?thesis by (simp add: edge_run_def)
qed

text \<open>The states after each prefix of the actions.\<close>

lemma prefix_cases:
  assumes "xs = done @ as"
  shows "done \<in> set (map (\<lambda>k. take k xs) [0..<Suc (length xs)])"
  using assms by (auto simp: image_iff intro!: bexI [of _ "length done"])

definition serving_ok :: "'s edge_process \<Rightarrow> bool" where
  "serving_ok e \<longleftrightarrow> (e_http e = Serving \<longrightarrow> e_udp e = Serving \<and> e_tcp e = Serving \<and> e_ready_udp e \<and> e_ready_tcp e)"

lemmas action_defs = run_edge_start_def run_edge_finally_def build_dns_servers_def build_api_server_def

lemma performed_serving:
  assumes "performed boot st acts e" and "run_edge_start @ run_edge_finally = acts @ as"
  shows "serving_ok e" and "acts \<noteq> [] \<Longrightarrow> e_schema e = boot st" and "acts = [] \<Longrightarrow> e_udp e = Absent \<and> e_tcp e = Absent \<and> e_http e = Absent"
proof -
  have "Suc (length (run_edge_start @ run_edge_finally)) = 15" by (simp add: action_defs)
  from prefix_cases [OF assms(2), unfolded this]
  have a: "acts \<in> set (map (\<lambda>k. take k (run_edge_start @ run_edge_finally)) [0..<15])" .
  have c: "serving_ok e = serving_ok (e\<lparr>e_stop := False\<rparr>)" "e_schema e = e_schema (e\<lparr>e_stop := False\<rparr>)"
    "e_udp e = e_udp (e\<lparr>e_stop := False\<rparr>)" "e_tcp e = e_tcp (e\<lparr>e_stop := False\<rparr>)" "e_http e = e_http (e\<lparr>e_stop := False\<rparr>)"
    by (simp_all add: serving_ok_def)
  show "serving_ok e" unfolding c(1) assms(1) [unfolded performed_def]
    using a by (auto simp: upt_rec action_defs edge_start_def serving_ok_def)
  show "acts \<noteq> [] \<Longrightarrow> e_schema e = boot st" unfolding c(2) assms(1) [unfolded performed_def]
    using a by (auto simp: upt_rec action_defs edge_start_def)
  show "acts = [] \<Longrightarrow> e_udp e = Absent \<and> e_tcp e = Absent \<and> e_http e = Absent"
    unfolding c(3-5) assms(1) [unfolded performed_def] by (simp add: edge_start_def)
qed

lemma running_performed:
  assumes "edge_run boot st evs = (e, c)" and "running c"
  obtains acts as where "performed boot st acts e" "run_edge_start @ run_edge_finally = acts @ as"
proof (cases c)
  case (Starting as)
  with progress_run [of boot st evs] assms(1) obtain "done" where "run_edge_start = done @ as" "performed boot st done e"
    by (auto simp: progress_def)
  with that [of "done" "as @ run_edge_finally"] show ?thesis by simp
next
  case Waiting
  with progress_run [of boot st evs] assms(1) that show ?thesis by (simp add: progress_def)
next
  case (Closing raised as)
  with progress_run [of boot st evs] assms(1) obtain "done" where "run_edge_finally = done @ as"
    "performed boot st (run_edge_start @ done) e" by (auto simp: progress_def)
  with that [of "run_edge_start @ done" as] show ?thesis by simp
next
  case (Ended x)
  with assms(2) show ?thesis by (simp add: running_def)
qed

text \<open>
  C26.  An edge process is what its health check says.  Whatever signals and exceptions it meets, as long as
  it runs and accepts HTTP requests, the migrations have been applied and both DNS endpoints are
  serving; the health check then depends on the database alone, and is 503 exactly when
  the database does not answer.  The process returns 0 only after a signal, with its three servers shut down.
\<close>

theorem edge_lifecycle:
  assumes "edge_run (init_schema executescript listdir) st evs = (e, c)"
  shows "(running c \<and> e_http e = Serving \<longrightarrow>
      e_schema e = init_schema executescript listdir st \<and> e_udp e = Serving \<and> e_tcp e = Serving \<and>
      fst (api_health (edge_env e env)) = (if a_ping env then 200 else 503)) \<and>
    (c = Ended (Returned n) \<longrightarrow> n = 0 \<and> e_stop e \<and> e_http e = Shut \<and> e_udp e = Shut \<and> e_tcp e = Shut)"
proof (intro conjI impI)
  let ?boot = "init_schema executescript listdir"
  assume r: "running c \<and> e_http e = Serving"
  obtain acts as where a: "performed ?boot st acts e" "run_edge_start @ run_edge_finally = acts @ as"
    using running_performed [OF assms] r by blast
  note s = performed_serving [OF a]
  have ne: "acts \<noteq> []" using s(3) r by auto
  show "e_schema e = ?boot st" by (rule s(2) [OF ne])
  show "e_udp e = Serving" "e_tcp e = Serving" using s(1) r by (simp_all add: serving_ok_def)
  show "fst (api_health (edge_env e env)) = (if a_ping env then 200 else 503)"
    using s(1) r by (simp add: serving_ok_def api_health_def edge_env_def)
next
  assume c: "c = Ended (Returned n)"
  have p: "n = 0 \<and> e_stop e \<and> performed (init_schema executescript listdir) st (run_edge_start @ run_edge_finally) e"
    using progress_run [of "init_schema executescript listdir" st evs] assms c by (simp add: progress_def)
  then show "n = 0" "e_stop e" by simp_all
  have "e\<lparr>e_stop := False\<rparr> = fold (perform (init_schema executescript listdir)) (run_edge_start @ run_edge_finally) (fst (edge_start st))"
    using p by (simp add: performed_def)
  then have "e_http (e\<lparr>e_stop := False\<rparr>) = Shut" "e_udp (e\<lparr>e_stop := False\<rparr>) = Shut" "e_tcp (e\<lparr>e_stop := False\<rparr>) = Shut"
    by (simp_all add: action_defs edge_start_def)
  then show "e_http e = Shut" "e_udp e = Shut" "e_tcp e = Shut" by simp_all
qed

definition demo_edge :: "edge_event list \<Rightarrow> string set edge_process \<times> control" where
  "demo_edge evs = edge_run (init_schema demo_exec [''0001.sql'']) \<lparr>sc_schema = {}, sc_applied = []\<rparr> evs"

theorem edge_lifecycle_witness:
  "e_http (fst (demo_edge (replicate 12 Main))) = Serving \<and> e_udp (fst (demo_edge (replicate 12 Main))) = Serving \<and>
   snd (demo_edge (replicate 12 Main @ [Signal SIGTERM] @ replicate 5 Main)) = Ended (Returned 0) \<and>
   e_tcp (fst (demo_edge (replicate 12 Main @ [Signal SIGTERM] @ replicate 5 Main))) = Shut"
proof -
  have 1: "running (snd (demo_edge (replicate 12 Main)))" "e_http (fst (demo_edge (replicate 12 Main))) = Serving"
    by (simp_all add: demo_edge_def edge_run_def edge_start_def action_defs running_def eval_nat_numeral)
  have 2: "snd (demo_edge (replicate 12 Main @ [Signal SIGTERM] @ replicate 5 Main)) = Ended (Returned 0)"
    by (simp add: demo_edge_def edge_run_def edge_start_def action_defs eval_nat_numeral)
  show ?thesis
    using edge_lifecycle [OF prod.collapse [symmetric, of "demo_edge (replicate 12 Main)", unfolded demo_edge_def]] 1
      edge_lifecycle [OF prod.collapse [symmetric, of "demo_edge (replicate 12 Main @ [Signal SIGTERM] @ replicate 5 Main)",
        unfolded demo_edge_def]] 2
    by (simp add: demo_edge_def)
qed

text \<open>A signal that is handled ends a running process in order, in as many steps as it has actions left.\<close>

lemma edge_stops:
  assumes "edge_run boot st evs = (e, Waiting)" and "s \<in> set (e_handled e)"
  shows "snd (edge_run boot st (evs @ Signal s # replicate 5 Main)) = Ended (Returned 0)"
  using assms by (simp add: edge_run_def run_edge_finally_def eval_nat_numeral)

text \<open>Before its handler is installed, a signal kills the process, when it serves requests already.\<close>

lemma edge_killed_early:
  "snd (demo_edge (replicate 9 Main @ [Signal SIGTERM])) = Ended (Killed SIGTERM)"
  "e_http (fst (demo_edge (replicate 9 Main))) = Serving"
  by (simp_all add: demo_edge_def edge_run_def edge_start_def action_defs eval_nat_numeral)

end
