(* ===== verification/Json_Text.thy ===== *)
theory Json_Text
  imports Store
begin

text \<open>
  The JSON text on the wire between HTTP client and server: \<open>json.dumps\<close> with its default
  separators, \<open>json.loads\<close>, and that the one reads back what the other writes.  The parser agrees
  with Python's on texts without fractions or exponents whose code points are at most 255; on others
  it returns \<open>None\<close>.
\<close>

subsection \<open>json.dumps\<close>

fun json_dumps :: "json \<Rightarrow> string" where
  "json_dumps JNull = ''null''"
| "json_dumps (JBool b) = (if b then ''true'' else ''false'')"
| "json_dumps (JInt i) = dec_int i"
| "json_dumps (JFloat NotANumber r) = ''NaN''"
| "json_dumps (JFloat Infinite r) = (if r = ''-inf'' then ''-Infinity'' else ''Infinity'')"
| "json_dumps (JFloat (Trunc i) r) = r"
| "json_dumps (JStr s) = json_str s"
| "json_dumps (JList vs) = ''['' @ join_on '', '' (map json_dumps vs) @ '']''"
| "json_dumps (JObj kvs) = ''{'' @ join_on '', '' (map (\<lambda>(k, v). json_str k @ '': '' @ json_dumps v) kvs) @ ''}''"

subsection \<open>json.loads\<close>

definition skip_ws :: "string \<Rightarrow> string" where
  "skip_ws = dropWhile (\<lambda>c. let n = of_char c :: nat in n = 32 \<or> n = 9 \<or> n = 10 \<or> n = 13)"

definition hex_val :: "char \<Rightarrow> nat option" where
  "hex_val c = (let n = of_char c :: nat in
     if 48 \<le> n \<and> n \<le> 57 then Some (n - 48)
     else if 97 \<le> n \<and> n \<le> 102 then Some (n - 87)
     else if 65 \<le> n \<and> n \<le> 70 then Some (n - 55) else None)"

definition hex4 :: "char \<Rightarrow> char \<Rightarrow> char \<Rightarrow> char \<Rightarrow> nat option" where
  "hex4 a b c d =
     (case (hex_val a, hex_val b, hex_val c, hex_val d) of
        (Some a, Some b, Some c, Some d) \<Rightarrow> Some (((a * 16 + b) * 16 + c) * 16 + d)
      | _ \<Rightarrow> None)"

definition escaped :: "char \<Rightarrow> char option" where
  "escaped e = (let n = of_char e :: nat in
     if n = 34 \<or> n = 92 \<or> n = 47 then Some e
     else if n = 98 then Some (char_of (8 :: nat)) else if n = 102 then Some (char_of (12 :: nat))
     else if n = 110 then Some (char_of (10 :: nat)) else if n = 114 then Some (char_of (13 :: nat))
     else if n = 116 then Some (char_of (9 :: nat)) else None)"

text \<open>The rest of a string literal after its opening quote.\<close>

fun parse_chars :: "string \<Rightarrow> (string \<times> string) option" where
  "parse_chars [] = None"
| "parse_chars (c # s) =
     (if c = CHR 0x22 then Some ([], s)
      else if c = CHR 0x5C then
        (case s of
           [] \<Rightarrow> None
         | e # s1 \<Rightarrow>
           if e = CHR ''u'' then
             (case s1 of
                h1 # h2 # h3 # h4 # s' \<Rightarrow>
                  (case hex4 h1 h2 h3 h4 of
                     None \<Rightarrow> None
                   | Some n \<Rightarrow> if 255 < n then None else map_option (apfst ((#) (char_of n))) (parse_chars s'))
              | _ \<Rightarrow> None)
           else (case escaped e of None \<Rightarrow> None | Some x \<Rightarrow> map_option (apfst ((#) x)) (parse_chars s1)))
      else if (of_char c :: nat) < 32 then None
      else map_option (apfst ((#) c)) (parse_chars s))"

definition digit_run :: "string \<Rightarrow> string" where
  "digit_run t = (if take 1 t = ''0'' then ''0'' else takeWhile is_digit t)"

text \<open>An integer literal; a fraction or an exponent is outside the model.\<close>

definition parse_number :: "string \<Rightarrow> (json \<times> string) option" where
  "parse_number s =
     (let neg = (take 1 s = ''-''); t = (if neg then drop 1 s else s);
          ds = digit_run t;
          rest = drop (length ds) t;
          n = int (dec_value 0 ds) in
      if ds = [] \<or> take 1 rest \<in> {''.'', ''e'', ''E''} then None else Some (JInt (if neg then - n else n), rest))"

definition strip_prefix :: "string \<Rightarrow> string \<Rightarrow> string option" where
  "strip_prefix p s = (if take (length p) s = p then Some (drop (length p) s) else None)"

fun parse_literal :: "(string \<times> json) list \<Rightarrow> string \<Rightarrow> (json \<times> string) option" where
  "parse_literal [] s = parse_number s"
| "parse_literal ((p, v) # ls) s =
     (case strip_prefix p s of None \<Rightarrow> parse_literal ls s | Some r \<Rightarrow> Some (v, r))"

definition json_literals :: "(string \<times> json) list" where
  "json_literals = [(''null'', JNull), (''true'', JBool True), (''false'', JBool False),
     (''NaN'', JFloat NotANumber ''nan''), (''Infinity'', JFloat Infinite ''inf''),
     (''-Infinity'', JFloat Infinite ''-inf'')]"

text \<open>
  The recursive parser.  A key that occurs again replaces the value and keeps its place, as in a
  \<open>dict\<close>.
\<close>

fun parse_value :: "nat \<Rightarrow> string \<Rightarrow> (json \<times> string) option"
  and parse_items :: "nat \<Rightarrow> string \<Rightarrow> (json list \<times> string) option"
  and parse_members :: "nat \<Rightarrow> (string \<times> json) list \<Rightarrow> string \<Rightarrow> ((string \<times> json) list \<times> string) option"
where
  "parse_value 0 s = None"
| "parse_value (Suc n) s =
     (case skip_ws s of
        [] \<Rightarrow> None
      | c # r \<Rightarrow>
        if c = CHR 0x22 then map_option (apfst JStr) (parse_chars r)
        else if c = CHR ''['' then
          (if take 1 (skip_ws r) = '']'' then Some (JList [], drop 1 (skip_ws r))
           else map_option (apfst JList) (parse_items n r))
        else if c = CHR ''{'' then
          (if take 1 (skip_ws r) = ''}'' then Some (JObj [], drop 1 (skip_ws r))
           else map_option (apfst JObj) (parse_members n [] r))
        else parse_literal json_literals (c # r))"
| "parse_items 0 s = None"
| "parse_items (Suc n) s =
     (case parse_value n s of
        None \<Rightarrow> None
      | Some (v, r) \<Rightarrow>
        (case skip_ws r of
           [] \<Rightarrow> None
         | c # r' \<Rightarrow>
           if c = CHR '']'' then Some ([v], r')
           else if c = CHR '','' then map_option (apfst ((#) v)) (parse_items n r')
           else None))"
| "parse_members 0 acc s = None"
| "parse_members (Suc n) acc s =
     (if take 1 (skip_ws s) \<noteq> [CHR 0x22] then None
      else
        (case parse_chars (drop 1 (skip_ws s)) of
           None \<Rightarrow> None
         | Some (k, r) \<Rightarrow>
           if take 1 (skip_ws r) \<noteq> '':'' then None
           else
             (case parse_value n (drop 1 (skip_ws r)) of
                None \<Rightarrow> None
              | Some (v, r') \<Rightarrow>
                (case skip_ws r' of
                   [] \<Rightarrow> None
                 | c # r'' \<Rightarrow>
                   if c = CHR ''}'' then Some (obj_set k v acc, r'')
                   else if c = CHR '','' then parse_members n (obj_set k v acc) r''
                   else None))))"

text \<open>Every level of the recursion consumes a character, so the length of the text is fuel enough.\<close>

definition json_loads :: "string \<Rightarrow> json option" where
  "json_loads s =
     (case parse_value (Suc (length s)) s of
        None \<Rightarrow> None
      | Some (v, r) \<Rightarrow> if skip_ws r = [] then Some v else None)"


subsection \<open>Reading back what was written\<close>

text \<open>The values whose text is in the model: no fractions, and objects with distinct keys.\<close>

fun json_plain :: "json \<Rightarrow> bool" where
  "json_plain (JFloat (Trunc i) r) = False"
| "json_plain (JFloat NotANumber r) = (r = ''nan'')"
| "json_plain (JFloat Infinite r) = (r = ''inf'' \<or> r = ''-inf'')"
| "json_plain (JList vs) = list_all json_plain vs"
| "json_plain (JObj kvs) = (distinct (map fst kvs) \<and> list_all (\<lambda>(k, v). json_plain v) kvs)"
| "json_plain _ = True"

fun json_fuel :: "json \<Rightarrow> nat" where
  "json_fuel (JList vs) = Suc (sum_list (map (\<lambda>v. Suc (json_fuel v)) vs))"
| "json_fuel (JObj kvs) = Suc (sum_list (map (\<lambda>(k, v). Suc (json_fuel v)) kvs))"
| "json_fuel _ = 1"

lemma skip_ws_simps [simp]:
  "skip_ws [] = []" "skip_ws (CHR '' '' # s) = skip_ws s" "skip_ws (CHR '','' # s) = CHR '','' # s"
  "skip_ws (CHR '']'' # s) = CHR '']'' # s" "skip_ws (CHR ''}'' # s) = CHR ''}'' # s"
  "skip_ws (CHR '':'' # s) = CHR '':'' # s" "skip_ws (CHR 0x22 # s) = CHR 0x22 # s"
  "skip_ws (CHR ''['' # s) = CHR ''['' # s" "skip_ws (CHR ''{'' # s) = CHR ''{'' # s"
  by (simp_all add: skip_ws_def)

lemma hex_val_hex_char: "n < 16 \<Longrightarrow> hex_val (hex_char n) = Some n"
  by (auto simp: hex_val_def of_hex_char Let_def)

lemma hex4_hex2: "n < 256 \<Longrightarrow> hex4 CHR ''0'' CHR ''0'' (hex2 n ! 0) (hex2 n ! 1) = Some n"
  by (simp add: hex4_def hex2_def hex_val_hex_char) (simp add: hex_val_def Let_def)

lemma parse_chars_char: "parse_chars (json_char c @ s) = map_option (apfst ((#) c)) (parse_chars s)"
proof (rule json_char_cases [of c])
  assume p: "json_char c = [c]" "(of_char c :: nat) \<noteq> 92" "(of_char c :: nat) \<noteq> 34"
  then have "\<not> (of_char c :: nat) < 32"
    by (auto simp: json_char_def Let_def split: if_splits)
  moreover have "c \<noteq> CHR 0x22" "c \<noteq> CHR 0x5C" using p by auto
  ultimately show ?thesis by (simp add: p(1))
next
  fix e
  assume p: "json_char c = [CHR 0x5C, e]" "e \<noteq> CHR ''u''"
      "(of_char e :: nat) = (let n = of_char c in if n = 34 \<or> n = 92 then n else if n = 10 then 110
         else if n = 13 then 114 else if n = 9 then 116 else if n = 12 then 102 else 98)"
      "(of_char c :: nat) \<in> {34, 92, 10, 13, 9, 12, 8}"
  have c: "c = char_of (of_char c :: nat)" by simp
  have "escaped e = Some c"
    using p(3,4) c by (auto simp: escaped_def Let_def char_eq_nat simp del: of_char_eq_iff)
  with p(1,2) show ?thesis by simp
next
  assume p: "json_char c = [CHR 0x5C, CHR ''u'', CHR ''0'', CHR ''0''] @ hex2 (of_char c)"
  have "hex4 CHR ''0'' CHR ''0'' (hex2 (of_char c) ! 0) (hex2 (of_char c) ! 1) = Some (of_char c)"
    by (rule hex4_hex2) (rule nat_of_char_less)
  moreover have "\<not> 255 < (of_char c :: nat)" using nat_of_char_less [of c] by linarith
  ultimately show ?thesis by (simp add: p hex2_def)
qed

lemma parse_chars_str: "parse_chars (concat (map json_char s) @ CHR 0x22 # rest) = Some (s, rest)"
  by (induction s) (simp_all add: parse_chars_char)

text \<open>What may follow a value in a text.\<close>

definition closes :: "string \<Rightarrow> bool" where
  "closes s \<longleftrightarrow> take 1 s \<in> {[], '','', '']'', ''}''}"

lemma closes_simps [simp]:
  "closes []" "closes (CHR '','' # s)" "closes (CHR '']'' # s)" "closes (CHR ''}'' # s)"
  by (simp_all add: closes_def)

lemma closes_no_digit: "closes s \<Longrightarrow> takeWhile is_digit s = []"
  by (cases s) (auto simp: closes_def is_digit_def)

lemma digit_char_zero: "d < 10 \<Longrightarrow> digit_char d = CHR ''0'' \<longleftrightarrow> d = 0"
  by (simp add: char_eq_nat of_digit_char del: of_char_eq_iff)

lemma dec_nat_head: "0 < n \<Longrightarrow> take 1 (dec_nat n) \<noteq> ''0''"
proof (induction n rule: dec_nat.induct)
  case (1 n)
  then show ?case
    using dec_nat_ne [of "n div 10"]
    by (cases "n < 10"; cases "dec_nat (n div 10)") (auto simp: dec_nat.simps [of n] digit_char_zero)
qed

lemma parse_digits:
  assumes "closes rest"
  shows "digit_run (dec_nat n @ rest) = dec_nat n"
proof (cases "n = 0")
  case True
  moreover have "digit_char 0 = CHR ''0''" by (simp add: digit_char_zero)
  ultimately show ?thesis by (simp add: digit_run_def dec_nat.simps [of 0])
next
  case False
  then have "take 1 (dec_nat n @ rest) \<noteq> ''0''" using dec_nat_head [of n] dec_nat_ne [of n] by (cases "dec_nat n") auto
  moreover have "takeWhile is_digit (dec_nat n @ rest) = dec_nat n"
    using dec_nat_digits closes_no_digit [OF assms] by (subst takeWhile_append2) auto
  ultimately show ?thesis by (simp add: digit_run_def)
qed

lemma closes_no_fraction: "closes s \<Longrightarrow> take 1 s \<notin> {''.'', ''e'', ''E''}"
  by (auto simp: closes_def)

lemma dec_nat_no_minus: "take 1 (dec_nat n @ rest) \<noteq> ''-''"
  using dec_nat_ne [of n] dec_nat_digits [of "CHR ''-''" n] minus_not_digit by (cases "dec_nat n") auto

lemma parse_number_nat:
  assumes "closes rest"
  shows "parse_number (dec_nat n @ rest) = Some (JInt (int n), rest)"
    and "parse_number (CHR ''-'' # dec_nat n @ rest) = Some (JInt (- int n), rest)"
  using dec_nat_no_minus [of n rest] closes_no_fraction [OF assms] dec_nat_ne [of n]
  by (simp_all add: parse_number_def Let_def parse_digits [OF assms] dec_value_dec_nat del: take_append)

lemma parse_number_int: "closes rest \<Longrightarrow> parse_number (dec_int i @ rest) = Some (JInt i, rest)"
  using parse_number_nat [of rest "nat i"] parse_number_nat [of rest "nat (- i)"]
  by (simp add: dec_int_def)

lemma dec_nat_Cons: "\<exists>c ds. is_digit c \<and> dec_nat n = c # ds"
  using dec_nat_ne [of n] dec_nat_digits [of _ n] by (cases "dec_nat n") auto

lemma parse_literal_int:
  assumes "closes rest"
  shows "parse_literal json_literals (dec_int i @ rest) = Some (JInt i, rest)"
proof -
  have "strip_prefix p (dec_int i @ rest) = None" if "p \<in> fst ` set json_literals" for p
  proof -
    have d: "\<not> is_digit (hd p)" "hd p = CHR ''-'' \<Longrightarrow> \<not> is_digit (p ! 1)" "p \<noteq> []" "hd p = CHR ''-'' \<Longrightarrow> 1 < length p"
      using that by (auto simp: json_literals_def is_digit_def)
    have "\<exists>c ds. is_digit c \<and> (dec_int i = c # ds \<or> dec_int i = CHR ''-'' # c # ds)"
      using dec_nat_Cons [of "nat i"] dec_nat_Cons [of "nat (- i)"] by (auto simp: dec_int_def)
    with d show ?thesis by (cases p; cases "tl p") (auto simp: strip_prefix_def)
  qed
  then show ?thesis
    using parse_number_int [OF assms] by (simp add: json_literals_def)
qed

lemma update_fresh: "k \<notin> fst ` set acc \<Longrightarrow> AList.update k w acc = acc @ [(k, w)]"
  by (induction acc) auto

text \<open>A value may be preceded by a blank.\<close>

lemma parse_blank [simp]:
  "parse_value n (CHR '' '' # s) = parse_value n s"
  "parse_items n (CHR '' '' # s) = parse_items n s"
  "parse_members n acc (CHR '' '' # s) = parse_members n acc s"
proof -
  show v: "parse_value n (CHR '' '' # s) = parse_value n s" for n by (cases n) simp_all
  show "parse_items n (CHR '' '' # s) = parse_items n s" by (cases n) (simp_all add: v)
  show "parse_members n acc (CHR '' '' # s) = parse_members n acc s" by (cases n) simp_all
qed

text \<open>The first character of a text says which value it is.\<close>

lemma dec_int_Cons: "\<exists>c ds. dec_int i = c # ds \<and> (is_digit c \<or> c = CHR ''-'')"
  using dec_nat_Cons [of "nat i"] dec_nat_Cons [of "nat (- i)"] by (auto simp: dec_int_def)

lemma dumps_Cons:
  assumes "json_plain v"
  obtains c r where "json_dumps v = c # r" "\<And>s. skip_ws (c # s) = c # s" "c \<noteq> CHR '']''" "c \<noteq> CHR ''}''"
proof (cases "\<exists>i. v = JInt i")
  case True
  then obtain i c ds where "v = JInt i" "dec_int i = c # ds" "is_digit c \<or> c = CHR ''-''"
    using dec_int_Cons by blast
  then show ?thesis by (intro that [of c ds]) (auto simp: skip_ws_def is_digit_def Let_def)
next
  case False
  show ?thesis
    by (rule that [of "hd (json_dumps v)" "tl (json_dumps v)"];
        use assms False in \<open>cases v rule: json_dumps.cases\<close>)
      (auto simp: skip_ws_def json_str_def quote_char)
qed

lemma parse_value_int: "closes rest \<Longrightarrow> parse_value (Suc n) (dec_int i @ rest) = Some (JInt i, rest)"
  using dec_int_Cons [of i] parse_literal_int [of rest i]
  by (auto simp: skip_ws_def is_digit_def Let_def)

lemma join_Cons: "\<exists>t. join_on '', '' (x # xs) = x @ t"
  by (cases xs) auto

lemma parse_dumps:
  "json_plain v \<Longrightarrow> json_fuel v \<le> n \<Longrightarrow> closes rest \<Longrightarrow> parse_value n (json_dumps v @ rest) = Some (v, rest)"
  "list_all json_plain (v # vs) \<Longrightarrow> sum_list (map (\<lambda>v. Suc (json_fuel v)) (v # vs)) \<le> n \<Longrightarrow>
     parse_items n (join_on '', '' (map json_dumps (v # vs)) @ '']'' @ rest) = Some (v # vs, rest)"
  "list_all (\<lambda>(k, v). json_plain v) ((k, w) # kvs) \<Longrightarrow> distinct (map fst (acc @ (k, w) # kvs)) \<Longrightarrow>
     sum_list (map (\<lambda>(k, v). Suc (json_fuel v)) ((k, w) # kvs)) \<le> n \<Longrightarrow>
     parse_members n acc (join_on '', '' (map (\<lambda>(k, v). json_str k @ '': '' @ json_dumps v) ((k, w) # kvs)) @ ''}'' @ rest)
       = Some (acc @ (k, w) # kvs, rest)"
proof (induction n arbitrary: v vs rest k w kvs acc)
  case 0
  { case 1 then show ?case by (cases v rule: json_fuel.cases) auto }
  { case 2 then show ?case by simp }
  { case 3 then show ?case by simp }
next
  case (Suc n)
  { case 1
    show ?case
    proof (cases v)
      case (JFloat t r)
      with 1 show ?thesis
        by (cases t) (auto simp: json_literals_def strip_prefix_def skip_ws_def)
    next
      case (JInt i)
      with 1 show ?thesis by (simp add: parse_value_int del: parse_value.simps)
    next
      case (JStr t)
      then show ?thesis by (simp add: json_str_def quote_char parse_chars_str)
    next
      case (JList vs)
      show ?thesis
      proof (cases vs)
        case (Cons w ws)
        from 1 JList Cons have w: "json_plain w" by simp
        obtain t where t: "join_on '', '' (map json_dumps (w # ws)) = json_dumps w @ t"
          using join_Cons [of "json_dumps w" "map json_dumps ws"] by auto
        from w obtain c r where "json_dumps w = c # r" "\<And>s. skip_ws (c # s) = c # s" "c \<noteq> CHR '']''"
          by (rule dumps_Cons) auto
        then have "take 1 (skip_ws (join_on '', '' (map json_dumps (w # ws)) @ '']'' @ rest)) \<noteq> '']''"
          by (simp only: t) simp
        with Suc(2) [of w ws rest] 1 show ?thesis by (simp add: JList Cons)
      qed (simp add: JList)
    next
      case (JObj kvs)
      show ?thesis
      proof (cases kvs)
        case (Cons kw kws)
        obtain k w where kw: "kw = (k, w)" by (cases kw)
        obtain t where t: "join_on '', '' (map (\<lambda>(k, v). json_str k @ '': '' @ json_dumps v) ((k, w) # kws)) = json_str k @ t"
          using join_Cons [of "json_str k @ '': '' @ json_dumps w"] by auto
        have "take 1 (skip_ws (join_on '', '' (map (\<lambda>(k, v). json_str k @ '': '' @ json_dumps v) ((k, w) # kws)) @ ''}'' @ rest)) \<noteq> ''}''"
          by (simp only: t) (simp add: json_str_def quote_char)
        with Suc(3) [of k w kws "[]" rest] 1 show ?thesis by (simp add: JObj Cons kw)
      qed (simp add: JObj)
    qed (auto simp: json_literals_def strip_prefix_def skip_ws_def) }
  { case 2
    show ?case
    proof (cases vs)
      case Nil
      with Suc(1) [of v "'']'' @ rest"] 2 show ?thesis by simp
    next
      case (Cons w ws)
      with Suc(1) [of v "'', '' @ join_on '', '' (map json_dumps vs) @ '']'' @ rest"] Suc(2) [of w ws rest] 2
      show ?thesis by simp
    qed }
  { case 3
    have k: "obj_set k w acc = acc @ [(k, w)]"
      using 3(2) by (auto simp: obj_set_def intro: update_fresh)
    show ?case
    proof (cases kvs)
      case Nil
      with Suc(1) [of w "''}'' @ rest"] 3 k show ?thesis
        by (simp add: json_str_def quote_char parse_chars_str)
    next
      case (Cons lx kvs')
      obtain l x where lx: "lx = (l, x)" by (cases lx)
      with Suc(1) [of w "'', '' @ join_on '', '' (map (\<lambda>(k, v). json_str k @ '': '' @ json_dumps v) kvs) @ ''}'' @ rest"]
        Suc(3) [of l x kvs' "acc @ [(k, w)]" rest] 3 k Cons
      show ?thesis by (simp add: json_str_def quote_char parse_chars_str)
    qed }
qed

lemma join_on_length: "sum_list (map (\<lambda>x. Suc (length x)) xs) \<le> Suc (length (join_on '', '' xs))"
  by (induction "'', ''" xs rule: join_on.induct) auto

lemma dumps_float: "json_dumps (JFloat t r) = [] \<Longrightarrow> \<not> json_plain (JFloat t r)"
  by (cases t) (auto split: if_splits)

lemma fuel_le_length: "json_fuel v \<le> length (json_dumps v) \<or> \<not> json_plain v"
proof (induction v rule: json_fuel.induct)
  case (1 vs)
  show ?case
  proof (cases "list_all json_plain vs")
    case True
    then have "sum_list (map (\<lambda>v. Suc (json_fuel v)) vs) \<le> sum_list (map (\<lambda>v. Suc (length (json_dumps v))) vs)"
      using 1 by (intro sum_list_mono) (auto simp: list_all_iff)
    also have "\<dots> \<le> Suc (length (join_on '', '' (map json_dumps vs)))"
      using join_on_length [of "map json_dumps vs"] by (simp add: comp_def)
    finally show ?thesis by simp
  qed simp
next
  case (2 kvs)
  let ?t = "\<lambda>(k, v). json_str k @ '': '' @ json_dumps v"
  show ?case
  proof (cases "list_all (\<lambda>(k, v). json_plain v) kvs")
    case True
    then have "sum_list (map (\<lambda>(k, v). Suc (json_fuel v)) kvs) \<le> sum_list (map (\<lambda>kv. Suc (length (?t kv))) kvs)"
      using 2 by (intro sum_list_mono) (fastforce simp: list_all_iff)
    also have "\<dots> \<le> Suc (length (join_on '', '' (map ?t kvs)))"
      using join_on_length [of "map ?t kvs"] by (simp add: comp_def)
    finally show ?thesis by simp
  qed simp
qed (auto simp: json_str_def dec_int_def dec_nat_ne Suc_le_eq dest: dumps_float)

lemma loads_dumps: "json_plain v \<Longrightarrow> json_loads (json_dumps v) = Some v"
  using parse_dumps(1) [of v "Suc (length (json_dumps v))" "[]"] fuel_le_length [of v]
  by (simp add: json_loads_def del: parse_value.simps)

subsection \<open>The fuel is enough\<close>

lemma skip_ws_length: "length (skip_ws s) \<le> length s"
  by (simp add: skip_ws_def length_dropWhile_le)

lemma parse_chars_length: "parse_chars s = Some (t, r) \<Longrightarrow> length r < length s"
proof (induction s arbitrary: t r rule: parse_chars.induct)
  case (2 c s)
  note IH = 2(1-3)
  consider "c = CHR 0x22" | e s1 where "c = CHR 0x5C" "s = e # s1" | "c \<noteq> CHR 0x22" "c \<noteq> CHR 0x5C"
    using 2(4) by (cases s; cases "c = CHR 0x22"; cases "c = CHR 0x5C") auto
  then show ?case
  proof cases
    case 2
    then show ?thesis using IH(1,2) \<open>parse_chars (c # s) = Some (t, r)\<close>
      by (fastforce split: if_splits list.splits option.splits)
  next
    case 3
    then show ?thesis using IH(3) \<open>parse_chars (c # s) = Some (t, r)\<close>
      by (auto split: if_splits intro: less_SucI)
  qed (use 2 in simp)
qed simp

lemma parse_literal_length: "parse_literal ls s = Some (v, r) \<Longrightarrow> [] \<notin> fst ` set ls \<Longrightarrow> length r < length s"
proof (induction ls s rule: parse_literal.induct)
  case (1 s)
  then show ?case by (cases s) (auto simp: parse_number_def Let_def digit_run_def split: if_splits)
next
  case (2 p v ls s)
  then show ?case by (cases s) (auto simp: strip_prefix_def split: option.splits if_splits)
qed

lemma json_literals_ne: "[] \<notin> fst ` set json_literals"
  by (simp add: json_literals_def)

text \<open>
  What a run with any fuel parses, a run with as much fuel as it consumes characters parses.
\<close>

lemma parse_value_SucE:
  assumes "parse_value (Suc n) s = Some (v, r)"
  obtains (leaf) "length r < length s" "\<And>m. parse_value (Suc m) s = Some (v, r)"
  | (items) u vs where "length u < length s" "parse_items n u = Some (vs, r)"
      "\<And>m. parse_items m u = Some (vs, r) \<Longrightarrow> parse_value (Suc m) s = Some (v, r)"
  | (members) u kvs where "length u < length s" "parse_members n [] u = Some (kvs, r)"
      "\<And>m. parse_members m [] u = Some (kvs, r) \<Longrightarrow> parse_value (Suc m) s = Some (v, r)"
proof (cases "skip_ws s")
  case Nil
  with assms show ?thesis by simp
next
  case (Cons c u)
  with skip_ws_length [of s] have u: "length u < length s" by simp
  have w: "length (skip_ws u) \<le> length u" by (rule skip_ws_length)
  consider "c = CHR 0x22" | "c = CHR ''[''" "take 1 (skip_ws u) = '']''" | "c = CHR ''[''" "take 1 (skip_ws u) \<noteq> '']''"
    | "c = CHR ''{''" "take 1 (skip_ws u) = ''}''" | "c = CHR ''{''" "take 1 (skip_ws u) \<noteq> ''}''"
    | "c \<noteq> CHR 0x22" "c \<noteq> CHR ''[''" "c \<noteq> CHR ''{''" by blast
  then show ?thesis
  proof cases
    case 1
    with assms obtain t where t: "parse_chars u = Some (t, r)" "v = JStr t" by (auto simp: Cons)
    with u parse_chars_length [OF t(1)] 1 show ?thesis by (intro leaf) (simp_all add: Cons)
  next
    case 2
    with assms u w show ?thesis by (intro leaf) (auto simp: Cons)
  next
    case 3
    with assms obtain vs where "parse_items n u = Some (vs, r)" "v = JList vs" by (auto simp: Cons)
    with u 3 show ?thesis by (intro items [of u vs]) (simp_all add: Cons)
  next
    case 4
    with assms u w show ?thesis by (intro leaf) (auto simp: Cons)
  next
    case 5
    with assms obtain kvs where "parse_members n [] u = Some (kvs, r)" "v = JObj kvs" by (auto simp: Cons)
    with u 5 show ?thesis by (intro members [of u kvs]) (simp_all add: Cons)
  next
    case 6
    with assms have l: "parse_literal json_literals (c # u) = Some (v, r)" by (simp add: Cons)
    with u parse_literal_length [OF l json_literals_ne] 6 show ?thesis by (intro leaf) (simp_all add: Cons)
  qed
qed

lemma parse_items_SucE:
  assumes "parse_items (Suc n) s = Some (vs, r)"
  obtains (last) v u where "parse_value n s = Some (v, u)" "length r < length u"
      "\<And>m. parse_value m s = Some (v, u) \<Longrightarrow> parse_items (Suc m) s = Some (vs, r)"
  | (more) v u u' vs' where "parse_value n s = Some (v, u)" "length u' < length u" "parse_items n u' = Some (vs', r)"
      "\<And>m. parse_value m s = Some (v, u) \<Longrightarrow> parse_items m u' = Some (vs', r) \<Longrightarrow> parse_items (Suc m) s = Some (vs, r)"
proof -
  from assms obtain v u c u' where v: "parse_value n s = Some (v, u)" and c: "skip_ws u = c # u'"
    by (auto split: option.splits list.splits)
  with skip_ws_length [of u] have u: "length u' < length u" by simp
  show ?thesis
  proof (cases "c = CHR '']''")
    case True
    with assms v c u show ?thesis by (intro last [of v u]) auto
  next
    case False
    with assms v c obtain vs' where "c = CHR '',''" "parse_items n u' = Some (vs', r)" "vs = v # vs'"
      by (auto split: if_splits)
    with v c u show ?thesis by (intro more [of v u u' vs']) auto
  qed
qed

lemma parse_members_SucE:
  assumes "parse_members (Suc n) acc s = Some (kvs, r)"
  obtains (last) v u u' where "length u < length s" "parse_value n u = Some (v, u')" "length r < length u'"
      "\<And>m. parse_value m u = Some (v, u') \<Longrightarrow> parse_members (Suc m) acc s = Some (kvs, r)"
  | (more) v u u' u'' acc' where "length u < length s" "parse_value n u = Some (v, u')" "length u'' < length u'"
      "parse_members n acc' u'' = Some (kvs, r)"
      "\<And>m. parse_value m u = Some (v, u') \<Longrightarrow> parse_members m acc' u'' = Some (kvs, r) \<Longrightarrow>
         parse_members (Suc m) acc s = Some (kvs, r)"
proof -
  from assms have q: "take 1 (skip_ws s) = [CHR 0x22]" by (auto split: if_splits)
  with assms obtain k t where k: "parse_chars (drop 1 (skip_ws s)) = Some (k, t)"
    by (auto split: option.splits)
  from assms q k have col: "take 1 (skip_ws t) = '':''" by (auto split: if_splits)
  with assms q k obtain v u' c u'' where v: "parse_value n (drop 1 (skip_ws t)) = Some (v, u')" and c: "skip_ws u' = c # u''"
    by (auto split: option.splits list.splits)
  have u: "length (drop 1 (skip_ws t)) < length s"
    using parse_chars_length [OF k] skip_ws_length [of s] skip_ws_length [of t] by simp
  from c skip_ws_length [of u'] have u'': "length u'' < length u'" by simp
  show ?thesis
  proof (cases "c = CHR ''}''")
    case True
    with assms q k col v c u u'' show ?thesis by (intro last [of "drop 1 (skip_ws t)" v u']) auto
  next
    case False
    with assms q k col v c have "c = CHR '',''" "parse_members n (obj_set k v acc) u'' = Some (kvs, r)"
      by (auto split: if_splits)
    with q k col v c u u'' show ?thesis by (intro more [of "drop 1 (skip_ws t)" v u' u'' "obj_set k v acc"]) auto
  qed
qed

text \<open>
  What a run with any fuel parses, a run with as much fuel as it consumes characters parses.
\<close>

lemma parse_fuel:
  "parse_value n s = Some (v, r) \<Longrightarrow> length r < length s \<and> (\<forall>m \<ge> length s - length r. parse_value m s = Some (v, r))"
  "parse_items n s = Some (vs, r) \<Longrightarrow> length r < length s \<and> (\<forall>m \<ge> length s - length r. parse_items m s = Some (vs, r))"
  "parse_members n acc s = Some (kvs, r) \<Longrightarrow>
     length r < length s \<and> (\<forall>m \<ge> length s - length r. parse_members m acc s = Some (kvs, r))"
proof (induction n arbitrary: s v vs acc kvs r)
  case (Suc n)
  have step: "length r < length s \<and> (\<forall>m \<ge> length s - length r. P m)"
    if "length r < length s" "\<And>m. length s - length r - 1 \<le> m \<Longrightarrow> P (Suc m)" for P and r s :: string
  proof (intro conjI allI impI)
    fix m
    assume m: "length s - length r \<le> m"
    with that(1) have "m = Suc (m - 1)" by simp
    with that(2) [of "m - 1"] m show "P m" by simp
  qed (rule that(1))
  { case 1
    then show ?case
    proof (cases rule: parse_value_SucE)
      case leaf
      then show ?thesis by (intro step) simp_all
    next
      case (items u vs)
      from Suc.IH(2) [OF items(2)] items(1) show ?thesis by (intro step items(3)) auto
    next
      case (members u kvs)
      from Suc.IH(3) [OF members(2)] members(1) show ?thesis by (intro step members(3)) auto
    qed }
  { case 2
    then show ?case
    proof (cases rule: parse_items_SucE)
      case (last v u)
      from Suc.IH(1) [OF last(1)] last(2) show ?thesis by (intro step last(3)) auto
    next
      case (more v u u' vs')
      from Suc.IH(1) [OF more(1)] Suc.IH(2) [OF more(3)] more(2) show ?thesis by (intro step more(4)) auto
    qed }
  { case 3
    then show ?case
    proof (cases rule: parse_members_SucE)
      case (last v u u')
      from Suc.IH(1) [OF last(2)] last(1,3) show ?thesis by (intro step last(4)) auto
    next
      case (more v u u' u'' acc')
      from Suc.IH(1) [OF more(2)] Suc.IH(3) [OF more(4)] more(1,3) show ?thesis by (intro step more(5)) auto
    qed }
qed simp_all

lemma json_loads_fuel: "parse_value n s = Some (v, r) \<Longrightarrow> skip_ws r = [] \<Longrightarrow> json_loads s = Some v"
  using parse_fuel(1) [of n s v r] by (simp add: json_loads_def del: parse_value.simps)

subsection \<open>Bodies\<close>

text \<open>\<open>bytes.decode("utf-8")\<close>, to code points up to 255.\<close>

fun decode_utf8 :: "bytes \<Rightarrow> string option" where
  "decode_utf8 [] = Some []"
| "decode_utf8 (a # bs) =
     (if a < 0x80 then map_option ((#) (byte_char a)) (decode_utf8 bs)
      else if a = 0xC2 \<or> a = 0xC3 then
        (case bs of
           [] \<Rightarrow> None
         | b # bs' \<Rightarrow>
           if 0x80 \<le> b \<and> b \<le> 0xBF
           then map_option ((#) (char_of ((unat a - 192) * 64 + (unat b - 128)))) (decode_utf8 bs')
           else None)
      else None)"

definition loads_body :: "bytes \<Rightarrow> json option" where
  "loads_body raw = (case decode_utf8 raw of None \<Rightarrow> None | Some s \<Rightarrow> json_loads s)"

definition dumps_body :: "json \<Rightarrow> bytes" where
  "dumps_body v = encode_utf8 (json_dumps v)"

lemma unat_small: "n < 256 \<Longrightarrow> unat (word_of_nat n :: byte) = n"
  by (simp add: unat_of_nat)

lemma decode_utf8_char: "decode_utf8 (utf8_char c @ bs) = map_option ((#) c) (decode_utf8 bs)"
proof -
  obtain n where n: "n = (of_char c :: nat)" "n < 256" using nat_of_char_less [of c] by blast
  have c: "char_of n = c" by (simp add: n(1))
  show ?thesis
  proof (cases "n < 128")
    case True
    have u: "utf8_char c = [char_byte c]" using True by (simp add: utf8_char_def char_byte_def n(1) Let_def)
    have "char_byte c < 0x80" using True by (simp add: word_less_nat_alt n(1))
    then show ?thesis by (simp add: u)
  next
    case False
    obtain k where k: "k = n div 64" by blast
    define a :: byte where "a = word_of_nat (192 + k)"
    define b :: byte where "b = word_of_nat (128 + n mod 64)"
    have "2 \<le> k" using div_le_mono [of 128 n 64] False by (simp add: k)
    moreover have "k < 4" using n(2) by (simp add: k less_mult_imp_div_less)
    ultimately have d: "k = 2 \<or> k = 3" by linarith
    have m: "n mod 64 < 64" by simp
    from d have "192 + k < 256" by (elim disjE) simp_all
    from unat_small [OF this] have ua: "unat a = 192 + k" by (simp only: a_def)
    from m have "128 + n mod 64 < 256" by linarith
    from unat_small [OF this] have ub: "unat b = 128 + n mod 64" by (simp only: b_def)
    have "\<not> a < 0x80" by (simp add: word_less_nat_alt ua)
    moreover have "a = 0xC2 \<or> a = 0xC3" using d by (auto simp: word_unat_eq_iff ua)
    moreover have "0x80 \<le> b \<and> b \<le> 0xBF" using m by (simp add: word_le_nat_alt ub)
    moreover have "char_of ((unat a - 192) * 64 + (unat b - 128)) = c"
      by (simp add: ua ub k c)
    moreover have "utf8_char c = [a, b]" using False by (simp add: utf8_char_def n(1) Let_def a_def b_def k)
    ultimately show ?thesis by auto
  qed
qed

lemma decode_encode_utf8: "decode_utf8 (encode_utf8 s) = Some s"
  by (induction s) (simp_all add: encode_utf8_def decode_utf8_char)

lemma loads_dumps_body: "json_plain v \<Longrightarrow> loads_body (dumps_body v) = Some v"
  by (simp add: loads_body_def dumps_body_def decode_encode_utf8 loads_dumps)

end
