(* ===== verification/Api_Json.thy ===== *)
theory Api_Json
  imports Api Json_Text
begin

text \<open>
  The responses of \<open>app/api.py\<close> as JSON: the dictionaries that \<open>app/storage.py\<close> and the handlers
  build, and \<open>_send_json\<close>; and base64, in which a key secret travels.
\<close>

subsection \<open>Base64\<close>

definition b64_alphabet :: string where
  "b64_alphabet = ''ABCDEFGHIJKLMNOPQRSTUVWXYZabcdefghijklmnopqrstuvwxyz0123456789+/''"

definition b64_char :: "nat \<Rightarrow> char" where
  "b64_char n = b64_alphabet ! n"

fun b64encode :: "bytes \<Rightarrow> string" where
  "b64encode [] = []"
| "b64encode [a] =
     (let n = unat a * 16 in [b64_char (n div 64), b64_char (n mod 64), CHR ''='', CHR ''=''])"
| "b64encode [a, b] =
     (let n = (unat a * 256 + unat b) * 4 in
      [b64_char (n div 4096), b64_char (n div 64 mod 64), b64_char (n mod 64), CHR ''=''])"
| "b64encode (a # b # c # bs) =
     (let n = (unat a * 256 + unat b) * 256 + unat c in
      [b64_char (n div 262144), b64_char (n div 4096 mod 64), b64_char (n div 64 mod 64), b64_char (n mod 64)]
        @ b64encode bs)"

fun index_of :: "'a \<Rightarrow> 'a list \<Rightarrow> nat option" where
  "index_of x [] = None"
| "index_of x (y # ys) = (if x = y then Some 0 else map_option Suc (index_of x ys))"

text \<open>On texts of whole groups; Python also skips characters outside the alphabet.\<close>

fun b64decode :: "string \<Rightarrow> bytes option" where
  "b64decode [] = Some []"
| "b64decode (p # q # r # s # rest) =
     (case (index_of p b64_alphabet, index_of q b64_alphabet) of
        (Some p', Some q') \<Rightarrow>
          if r = CHR ''='' \<and> s = CHR ''='' \<and> rest = [] then Some [word_of_nat ((p' * 64 + q') div 16)]
          else (case index_of r b64_alphabet of
            None \<Rightarrow> None
          | Some r' \<Rightarrow>
            if s = CHR ''='' \<and> rest = [] then
              (let n = ((p' * 64 + q') * 64 + r') div 4 in Some [word_of_nat (n div 256), word_of_nat (n mod 256)])
            else (case index_of s b64_alphabet of
              None \<Rightarrow> None
            | Some s' \<Rightarrow>
              (let n = ((p' * 64 + q') * 64 + r') * 64 + s' in
               map_option (\<lambda>bs. word_of_nat (n div 65536) # word_of_nat (n div 256 mod 256) # word_of_nat (n mod 256) # bs)
                 (b64decode rest))))
      | _ \<Rightarrow> None)"
| "b64decode _ = None"

subsection \<open>Dictionaries\<close>

fun code_name :: "error_code \<Rightarrow> string" where
  "code_name INTERNAL = ''INTERNAL''"
| "code_name MALFORMED_JSON = ''MALFORMED_JSON''"
| "code_name VALIDATION_ERROR = ''VALIDATION_ERROR''"
| "code_name LIMIT_EXCEEDED = ''LIMIT_EXCEEDED''"
| "code_name METHOD_NOT_ALLOWED = ''METHOD_NOT_ALLOWED''"
| "code_name NOT_FOUND = ''NOT_FOUND''"
| "code_name ZONE_NOT_FOUND = ''ZONE_NOT_FOUND''"
| "code_name ZONE_ALREADY_EXISTS = ''ZONE_ALREADY_EXISTS''"
| "code_name NAME_OUT_OF_ZONE = ''NAME_OUT_OF_ZONE''"
| "code_name VERSION_CONFLICT = ''VERSION_CONFLICT''"
| "code_name IDEMPOTENCY_CONFLICT = ''IDEMPOTENCY_CONFLICT''"
| "code_name SERIAL_INVALID = ''SERIAL_INVALID''"
| "code_name SERIAL_UNDECIDABLE = ''SERIAL_UNDECIDABLE''"
| "code_name ZONE_INVALID = ''ZONE_INVALID''"
| "code_name CHANGESET_INVALID = ''CHANGESET_INVALID''"
| "code_name KEY_NOT_FOUND = ''KEY_NOT_FOUND''"
| "code_name NO_ACTIVE_KEY = ''NO_ACTIVE_KEY''"
| "code_name KEY_STATE_INVALID = ''KEY_STATE_INVALID''"
| "code_name REQUEST_NOT_FOUND = ''REQUEST_NOT_FOUND''"
| "code_name DNS_FORMERR = ''DNS_FORMERR''"
| "code_name DNS_SERVFAIL = ''DNS_SERVFAIL''"
| "code_name DNS_NOTIMP = ''DNS_NOTIMP''"
| "code_name DNS_REFUSED = ''DNS_REFUSED''"
| "code_name TRANSFER_DENIED = ''TRANSFER_DENIED''"
| "code_name TRANSFER_PROTOCOL = ''TRANSFER_PROTOCOL''"

fun key_state_name :: "key_state \<Rightarrow> string" where
  "key_state_name ACTIVE = ''ACTIVE''"
| "key_state_name RETIRING = ''RETIRING''"
| "key_state_name REVOKED = ''REVOKED''"

definition int_or_null :: "int option \<Rightarrow> json" where
  "int_or_null v = (case v of None \<Rightarrow> JNull | Some i \<Rightarrow> JInt i)"

text \<open>A stored RDATA, as \<open>json.loads\<close> gives it back: the keys in the order of the stored text.\<close>

fun rdata_json :: "rdata \<Rightarrow> (string \<times> json) list" where
  "rdata_json (Address a) = [(''address'', JStr a)]"
| "rdata_json (Target t) = [(''target'', JStr t)]"
| "rdata_json (Mx p e) = [(''exchange'', JStr e), (''preference'', JInt p)]"
| "rdata_json (Text t) = [(''text'', JStr t)]"
| "rdata_json (Soa s) =
     [(''expire'', JInt (s_expire s)), (''minimum'', JInt (s_minimum s)), (''mname'', JStr (s_mname s)),
      (''refresh'', JInt (s_refresh s)), (''retry'', JInt (s_retry s)), (''rname'', JStr (s_rname s)),
      (''serial'', JInt (s_serial s))]"

definition zone_json :: "zone_meta \<Rightarrow> json" where
  "zone_json m = (let z = zm_row m in
     JObj [(''name'', JStr (z_name z)), (''currentSerial'', JInt (z_current_serial z)),
       (''currentVersionId'', JInt (z_current_version z)), (''retainVersions'', JInt (z_retain_versions z)),
       (''recordCount'', JInt (z_record_count z)), (''rrsetCount'', JInt (z_rrset_count z)),
       (''soa'', JObj (filter (\<lambda>(k, v). k \<noteq> ''serial'') (rdata_json (zm_soa m)))),
       (''serial'', JInt (z_current_serial z)), (''ns'', JList (map JStr (zm_ns m))),
       (''createdAt'', JInt (z_created_at z)), (''updatedAt'', JInt (z_updated_at z))])"

definition result_json :: "publish_result \<Rightarrow> json" where
  "result_json r =
     JObj ([(''status'', JStr ''COMMITTED''), (''zone'', JStr (pr_zone r)), (''requestId'', JStr (pr_request_id r)),
       (''versionId'', JInt (pr_version_id r)), (''serial'', JInt (pr_serial r))] @
       (if pr_replayed r then [(''replayed'', JBool True)] else []))"

definition new_key_json :: "key_row \<Rightarrow> json" where
  "new_key_json k =
     JObj [(''keyId'', JStr (k_key_id k)), (''keyName'', JStr (k_key_name k)), (''generation'', JInt (k_gen k)),
       (''state'', JStr ''ACTIVE''), (''secret'', JStr (b64encode (k_secret k))),
       (''createdAt'', JInt (k_created_at k)), (''algorithm'', JStr ''hmac-sha256'')]"

definition key_json :: "key_row \<Rightarrow> json" where
  "key_json k =
     JObj [(''keyId'', JStr (k_key_id k)), (''keyName'', JStr (k_key_name k)), (''generation'', JInt (k_gen k)),
       (''state'', JStr (key_state_name (k_state k))), (''createdAt'', JInt (k_created_at k)),
       (''expiresAt'', int_or_null (k_expires_at k)), (''revokedAt'', int_or_null (k_revoked_at k))]"

definition request_json :: "request_view \<Rightarrow> json" where
  "request_json v = (let p = rv_row v in
     JObj ([(''zone'', JStr (p_zone p)), (''requestId'', JStr (p_request_id p)),
       (''status'', JStr (case p_status p of COMMITTED _ _ \<Rightarrow> ''COMMITTED'' | FAILED _ \<Rightarrow> ''FAILED'')),
       (''versionId'', case p_status p of COMMITTED vid _ \<Rightarrow> JInt vid | FAILED _ \<Rightarrow> JNull),
       (''serial'', case p_status p of COMMITTED _ s \<Rightarrow> JInt s | FAILED _ \<Rightarrow> JNull),
       (''baseSerial'', JInt (p_base_serial p)), (''nextSerial'', JInt (p_next_serial p)),
       (''createdAt'', JInt (p_created_at p))] @
       (case rv_error v of None \<Rightarrow> []
        | Some (c, msg) \<Rightarrow> [(''error'', JObj [(''code'', JStr (code_name c)), (''message'', JStr msg)])])))"

definition ok_or_down :: "bool \<Rightarrow> json" where
  "ok_or_down b = JStr (if b then ''ok'' else ''down'')"

definition health_json :: "health_checks \<Rightarrow> json" where
  "health_json c =
     JObj [(''status'', JStr (if h_persistence c \<and> h_dns_udp c \<and> h_dns_tcp c then ''ok'' else ''degraded'')),
       (''checks'', JObj [(''api'', JStr ''ok''), (''persistence'', ok_or_down (h_persistence c)),
         (''dnsUdp'', ok_or_down (h_dns_udp c)), (''dnsTcp'', ok_or_down (h_dns_tcp c))])]"

text \<open>\<open>ApiError.to_dict\<close>.\<close>

definition error_json :: "error_code \<Rightarrow> string \<Rightarrow> (string \<times> json) list \<Rightarrow> json" where
  "error_json c msg details =
     JObj [(''error'', JObj ([(''code'', JStr (code_name c)), (''message'', JStr msg)] @
       (if details = [] then [] else [(''details'', JObj details)])))]"

text \<open>A created zone is wrapped, a zone that is read is not.\<close>

definition response_json :: "response \<Rightarrow> json" where
  "response_json r =
     (case snd r of
        Zone_Body m \<Rightarrow> if fst r = 201 then JObj [(''zone'', zone_json m)] else zone_json m
      | Zones_Body ms \<Rightarrow> JObj [(''zones'', JList (map zone_json ms))]
      | Result_Body x \<Rightarrow> JObj [(''result'', result_json x)]
      | Retention_Body z n \<Rightarrow> JObj [(''retention'', JObj [(''zone'', JStr z), (''retainVersions'', JInt n)])]
      | Key_Body k \<Rightarrow> JObj [(''key'', new_key_json k)]
      | Keys_Body ks \<Rightarrow> JObj [(''keys'', JList (map key_json ks))]
      | Revoked_Body kid ts \<Rightarrow>
          JObj [(''keyId'', JStr kid), (''state'', JStr ''REVOKED''), (''revokedAt'', JInt ts)]
      | Request_Body v \<Rightarrow> request_json v
      | Health_Body c \<Rightarrow> health_json c
      | Error_Body c msg details \<Rightarrow> error_json c msg details)"

text \<open>\<open>_send_json\<close>: the status, \<open>Content-Length\<close> and the body.\<close>

definition send_json :: "response \<Rightarrow> int \<times> nat \<times> bytes" where
  "send_json r = (let data = dumps_body (response_json r) in (fst r, length data, data))"

subsection \<open>Base64 is decoded to what was encoded\<close>

lemma b64_index_all: "list_all (\<lambda>n. index_of (b64_char n) b64_alphabet = Some n \<and> b64_char n \<noteq> CHR ''='') [0..<64]"
  by code_simp

lemma b64_index [simp]: "n < 64 \<Longrightarrow> index_of (b64_char n) b64_alphabet = Some n"
  and b64_char_pad [simp]: "n < 64 \<Longrightarrow> b64_char n \<noteq> CHR ''=''"
  using b64_index_all by (auto simp: list_all_iff)

lemma digits64:
  fixes n :: nat
  shows "n div 64 * 64 + n mod 64 = n"
    and "(n div 4096 * 64 + n div 64 mod 64) * 64 + n mod 64 = n"
    and "((n div 262144 * 64 + n div 4096 mod 64) * 64 + n div 64 mod 64) * 64 + n mod 64 = n"
proof -
  have 1: "m div 64 * 64 + m mod 64 = m" for m :: nat by simp
  have d: "n div 4096 = n div 64 div 64" "n div 262144 = n div 64 div 64 div 64" by (simp_all add: div_mult2_eq [symmetric])
  show "n div 64 * 64 + n mod 64 = n" by (rule 1)
  show "(n div 4096 * 64 + n div 64 mod 64) * 64 + n mod 64 = n" unfolding d 1 ..
  show "((n div 262144 * 64 + n div 4096 mod 64) * 64 + n div 64 mod 64) * 64 + n mod 64 = n" unfolding d 1 ..
qed

lemma bytes_of_number:
  fixes a b c :: nat
  assumes "a < 256" "b < 256" "c < 256"
  shows "((a * 256 + b) * 256 + c) div 65536 = a" "((a * 256 + b) * 256 + c) div 256 mod 256 = b"
    "((a * 256 + b) * 256 + c) mod 256 = c" "(a * 256 + b) div 256 = a" "(a * 256 + b) mod 256 = b"
proof -
  have q: "(x * 256 + y) div 256 = x" "(x * 256 + y) mod 256 = y" if "y < 256" for x y :: nat
    using that by simp_all
  have "n div 65536 = n div 256 div 256" for n :: nat by (simp add: div_mult2_eq [symmetric])
  then show "((a * 256 + b) * 256 + c) div 65536 = a" by (simp only: q assms)
  show "((a * 256 + b) * 256 + c) div 256 mod 256 = b" by (simp only: q assms)
  show "((a * 256 + b) * 256 + c) mod 256 = c" "(a * 256 + b) div 256 = a" "(a * 256 + b) mod 256 = b"
    by (simp_all only: q assms)
qed

lemma sextets:
  fixes a b c :: nat
  shows "a < 256 \<Longrightarrow> a * 16 div 64 < 64"
    and "a < 256 \<Longrightarrow> b < 256 \<Longrightarrow> (a * 256 + b) * 4 div 4096 < 64"
    and "a < 256 \<Longrightarrow> b < 256 \<Longrightarrow> c < 256 \<Longrightarrow> ((a * 256 + b) * 256 + c) div 262144 < 64"
  by (intro less_mult_imp_div_less, simp)+

lemma b64_roundtrip: "b64decode (b64encode bs) = Some bs"
proof (induction bs rule: b64encode.induct)
  case (2 a)
  let ?n = "unat a * 16"
  have "?n div 64 < 64" using unat_byte_lt [of a] by (rule sextets(1))
  then show ?case using digits64(1) [of ?n] by (simp add: Let_def)
next
  case (3 a b)
  let ?n = "(unat a * 256 + unat b) * 4"
  have "?n div 4096 < 64" using unat_byte_lt [of a] unat_byte_lt [of b] by (rule sextets(2))
  then show ?case using digits64(2) [of ?n] bytes_of_number [of "unat a" "unat b" 0] unat_byte_lt
    by (simp add: Let_def)
next
  case (4 a b c bs)
  let ?n = "(unat a * 256 + unat b) * 256 + unat c"
  have "?n div 262144 < 64" using unat_byte_lt [of a] unat_byte_lt [of b] unat_byte_lt [of c] by (rule sextets(3))
  then show ?case using digits64(3) [of ?n] bytes_of_number [of "unat a" "unat b" "unat c"] unat_byte_lt 4
    by (simp add: Let_def)
qed simp

subsection \<open>Stored RDATA\<close>

text \<open>
  The store keeps the text of a canonical RDATA, the model its value: \<open>parse_rdata_json\<close> of the one
  is the dictionary of the other.
\<close>

definition parse_rdata_json :: "string \<Rightarrow> string \<Rightarrow> json option" where
  "parse_rdata_json rtype text = json_loads text"

declare parse_value.simps [simp del] parse_items.simps [simp del] parse_members.simps [simp del]

lemma skip_ws_quote [simp]: "skip_ws (json_str k @ s) = json_str k @ s"
  by (simp add: json_str_def quote_char)

lemma parse_member:
  assumes v: "parse_value n (t @ c # rest) = Some (v, c # rest)" and c: "c = CHR '','' \<or> c = CHR ''}''"
  shows "parse_members (Suc n) acc (json_field k t @ c # rest) =
    (if c = CHR '','' then parse_members n (obj_set k v acc) rest else Some (obj_set k v acc, rest))"
  using v c by (auto simp: parse_members.simps json_field_def json_str_def quote_char parse_chars_str)

lemma parse_member_str:
  assumes "c = CHR '','' \<or> c = CHR ''}''"
  shows "parse_members (Suc (Suc n)) acc (json_field k (json_str v) @ c # rest) =
    (if c = CHR '','' then parse_members (Suc n) (obj_set k (JStr v) acc) rest else Some (obj_set k (JStr v) acc, rest))"
  by (rule parse_member [OF _ assms]) (simp add: parse_value.simps json_str_def quote_char parse_chars_str)

lemma parse_member_int:
  assumes "c = CHR '','' \<or> c = CHR ''}''"
  shows "parse_members (Suc (Suc n)) acc (json_field k (dec_int v) @ c # rest) =
    (if c = CHR '','' then parse_members (Suc n) (obj_set k (JInt v) acc) rest else Some (obj_set k (JInt v) acc, rest))"
  by (rule parse_member [OF _ assms]) (use assms in \<open>auto intro!: parse_value_int\<close>)

lemma parse_object:
  assumes "parse_members n [] (json_str k @ s) = Some (kvs, r)"
  shows "parse_value (Suc n) (CHR ''{'' # json_str k @ s) = Some (JObj kvs, r)"
  using assms by (simp add: parse_value.simps json_str_def quote_char)

lemma rdata_members:
  "\<exists>n. parse_value n (rdata_text rd) = Some (JObj (rdata_json rd), [])"
proof -
  have o: "\<exists>m. parse_value m (CHR ''{'' # json_field k t @ s) = Some (JObj kvs, r)"
    if "parse_members n [] (json_field k t @ s) = Some (kvs, r)" for n k t s kvs r
    using parse_object [of n k "'':'' @ t @ s" kvs r] that by (auto simp: json_field_def)
  have e: "\<exists>m. parse_value m (rdata_text rd) = Some (JObj (rdata_json rd), [])" if "parse_members (Suc (Suc (Suc (Suc (Suc (Suc (Suc (Suc n)))))))) [] (tl (rdata_text rd)) = Some (rdata_json rd, [])" for n
    using that by (cases rd) (auto simp: json_obj_def intro!: o)
  show ?thesis
    by (rule e; cases rd) (simp_all add: json_obj_def parse_member_str parse_member_int obj_set_def)
qed

lemma stored_rdata: "parse_rdata_json rtype (rdata_text rd) = Some (JObj (rdata_json rd))"
  using rdata_members [of rd] by (auto simp: parse_rdata_json_def intro: json_loads_fuel)

subsection \<open>What a client reads\<close>

lemma rdata_json_plain: "json_plain (JObj (filter P (rdata_json rd)))"
proof -
  have "json_plain (JObj (rdata_json rd))" by (cases rd) simp_all
  then show ?thesis by (auto simp: list_all_iff intro: distinct_map_filter)
qed

lemma zone_json_plain: "json_plain (zone_json m)"
  using rdata_json_plain by (simp add: zone_json_def Let_def list_all_iff)

lemma response_json_plain:
  assumes "\<And>c msg details. snd r = Error_Body c msg details \<Longrightarrow> json_plain (JObj details)"
  shows "json_plain (response_json r)"
proof (cases "snd r")
  case (Error_Body c msg details)
  with assms show ?thesis by (simp add: response_json_def error_json_def)
qed (simp_all add: response_json_def zone_json_plain list_all_iff result_json_def new_key_json_def key_json_def
    int_or_null_def request_json_def Let_def health_json_def ok_or_down_def split: option.split request_status.split prod.split)

lemma client_reads_response:
  assumes "\<And>c msg details. snd r = Error_Body c msg details \<Longrightarrow> json_plain (JObj details)"
  shows "\<exists>body. send_json r = (fst r, length body, body) \<and> loads_body body = Some (response_json r)"
  using loads_dumps_body [OF response_json_plain [of r, OF assms]] by (simp add: send_json_def Let_def)

end
