(* ===== verification/Secrecy.thy ===== *)
theory Secrecy
  imports Demo Api_Json
begin

text \<open>
  Key secrets do not leak through the management API: responses and the rest of the database
  depend on the keys only through their metadata.
\<close>

definition hide_key :: "key_row \<Rightarrow> key_row" where
  "hide_key k = k\<lparr>k_secret := []\<rparr>"

definition hide_secrets :: "db \<Rightarrow> db" where
  "hide_secrets d = d\<lparr>keys := map hide_key (keys d)\<rparr>"

text \<open>An operation that does not look at the keys commutes with replacing them.\<close>

definition with_keys :: "key_row list \<Rightarrow> db \<Rightarrow> db" where
  "with_keys ks d = d\<lparr>keys := ks\<rparr>"

lemma with_keys_simps [simp]:
  "zones (with_keys ks d) = zones d" "versions (with_keys ks d) = versions d"
  "records (with_keys ks d) = records d" "changes (with_keys ks d) = changes d"
  "publish_requests (with_keys ks d) = publish_requests d" "keys (with_keys ks d) = ks"
  "transfer_refs (with_keys ks d) = transfer_refs d" "cleanup_tasks (with_keys ks d) = cleanup_tasks d"
  "next_task_id (with_keys ks d) = next_task_id d"
  "with_keys ks d\<lparr>zones := zs\<rparr> = with_keys ks (d\<lparr>zones := zs\<rparr>)"
  "with_keys ks d\<lparr>versions := vs\<rparr> = with_keys ks (d\<lparr>versions := vs\<rparr>)"
  "with_keys ks d\<lparr>records := rs\<rparr> = with_keys ks (d\<lparr>records := rs\<rparr>)"
  "with_keys ks d\<lparr>changes := cs\<rparr> = with_keys ks (d\<lparr>changes := cs\<rparr>)"
  "with_keys ks d\<lparr>publish_requests := ps\<rparr> = with_keys ks (d\<lparr>publish_requests := ps\<rparr>)"
  "with_keys ks d\<lparr>cleanup_tasks := ts\<rparr> = with_keys ks (d\<lparr>cleanup_tasks := ts\<rparr>)"
  "with_keys ks d\<lparr>next_task_id := i\<rparr> = with_keys ks (d\<lparr>next_task_id := i\<rparr>)"
  by (simp_all add: with_keys_def)

lemma keys_readers [simp]:
  "find_zone (with_keys ks d) z = find_zone d z"
  "get_zone_row z (with_keys ks d) = get_zone_row z d"
  "records_of (with_keys ks d) z n = records_of d z n"
  "find_soa (with_keys ks d) z n = find_soa d z n"
  "get_soa z n (with_keys ks d) = get_soa z n d"
  "zone_metadata z (with_keys ks d) = zone_metadata z d"
  "list_zones (with_keys ks d) = list_zones d"
  "find_request (with_keys ks d) z r = find_request d z r"
  "get_request z r (with_keys ks d) = get_request z r d"
  "load_rrsets (with_keys ks d) z n = load_rrsets d z n"
  by (simp_all add: find_zone_def get_zone_row_def records_of_def find_soa_def get_soa_def zone_metadata_def
      list_zones_def find_request_def get_request_def load_rrsets_def)

lemma keys_delete_rows [simp]: "delete_rows (with_keys ks d) = delete_rows d"
  by (intro ext) (simp add: delete_rows_def)

lemma map_sum_bindE: "map_sum id f (bindE m g) = bindE m (\<lambda>x. map_sum id f (g x))"
  by (cases m) simp_all

lemma bindE_map_sum: "bindE (map_sum id f m) g = bindE m (\<lambda>x. g (f x))"
  by (cases m) simp_all

lemma keys_writers [simp]:
  "materialize z old n rs ch (with_keys ks d) = map_sum id (with_keys ks) (materialize z old n rs ch d)"
  "enqueue_cleanup ts z (with_keys ks d) = with_keys ks (enqueue_cleanup ts z d)"
  "plan_publish (with_keys ks d) zr base nxt ops = plan_publish d zr base nxt ops"
  by (simp_all add: materialize_def enqueue_cleanup_def plan_publish_def delta_def map_sum_bindE Let_def)

lemma keys_commit [simp]:
  "commit_publish ts z rid fp base nxt rs ch (with_keys ks d) =
    map_sum id (with_keys ks) (commit_publish ts z rid fp base nxt rs ch d)"
  by (simp add: commit_publish_def map_sum_bindE bindE_map_sum Let_def)

lemma keys_fail [simp]:
  "fail_or_rollback ts z rid fp base nxt e (with_keys ks d) (with_keys ks d) =
    with_keys ks (fail_or_rollback ts z rid fp base nxt e d d)"
  by (simp add: fail_or_rollback_def)

lemma publish_outcome:
  "(case map_sum id (apsnd (with_keys ks)) m of
      Inr (r, d') \<Rightarrow> (Inr r, d')
    | Inl (ApiError e) \<Rightarrow> (Inl (ApiError e), with_keys ks (f e))
    | Inl e \<Rightarrow> (Inl e, with_keys ks d)) =
   apsnd (with_keys ks) (case m of
      Inr (r, d') \<Rightarrow> (Inr r, d')
    | Inl (ApiError e) \<Rightarrow> (Inl (ApiError e), f e)
    | Inl e \<Rightarrow> (Inl e, d))"
  by (cases m) (auto split: exn.split)

lemma keys_publish:
  "publish ts zn rid base nxt ops fp (with_keys ks d) = apsnd (with_keys ks) (publish ts zn rid base nxt ops fp d)"
proof (cases "find_zone d zn")
  case (Some z)
  let ?result = "\<lambda>d. case find_request d (z_name z) rid of
                 Some l \<Rightarrow>
                   if p_fingerprint l \<noteq> fp then Inl (idempotency_conflict l)
                   else bindE (ledger_result l) (\<lambda>r. Inr (r, d))
               | None \<Rightarrow>
                   bindE (plan_publish d z base nxt ops) (\<lambda>(rs, changed).
                   bindE (commit_publish ts z rid fp base nxt rs changed d) (\<lambda>d'.
                     Inr (\<lparr>pr_zone = z_name z, pr_request_id = rid, pr_version_id = z_current_version z + 1,
                       pr_serial = nxt, pr_replayed = False\<rparr>, d')))"
  have "?result (with_keys ks d) = map_sum id (apsnd (with_keys ks)) (?result d)"
    by (auto simp: map_sum_bindE bindE_map_sum split_def split: option.split)
  then show ?thesis
    unfolding publish_def Some keys_readers option.case Let_def keys_fail by (simp only: publish_outcome)
qed (simp add: publish_def)

lemma keys_create:
  "create_zone ts z serial soa ns n (with_keys ks d) = apsnd (with_keys ks) (create_zone ts z serial soa ns n d)"
  by (auto simp: create_zone_def split: option.split sum.split bindE_split)

lemma keys_retention:
  "set_retention now now' z n (with_keys ks d) = apsnd (with_keys ks) (set_retention now now' z n d)"
  by (auto simp: set_retention_def split: sum.split)

subsection \<open>Operations on keys\<close>

lemma hide_key_simps [simp]:
  "k_zone (hide_key k) = k_zone k" "k_key_id (hide_key k) = k_key_id k" "k_gen (hide_key k) = k_gen k"
  "k_key_name (hide_key k) = k_key_name k" "k_state (hide_key k) = k_state k"
  "k_created_at (hide_key k) = k_created_at k" "k_expires_at (hide_key k) = k_expires_at k"
  "k_revoked_at (hide_key k) = k_revoked_at k" "hide_key (hide_key k) = hide_key k"
  "key_key (hide_key k) = key_key k"
  by (simp_all add: hide_key_def key_key_def)

lemma hide_with_keys: "hide_secrets d = with_keys (map hide_key (keys d)) d"
  by (simp add: hide_secrets_def with_keys_def)

lemma keys_of_hide: "keys_of (hide_secrets d) z = map hide_key (keys_of d z)"
  by (simp add: keys_of_def hide_with_keys filter_map comp_def)

lemma insort_key_hide: "insort_key k_gen (hide_key k) (map hide_key ks) = map hide_key (insort_key k_gen k ks)"
  by (induction ks) auto

lemma sort_key_hide: "sort_key k_gen (map hide_key ks) = map hide_key (sort_key k_gen ks)"
  by (induction ks) (simp_all add: insort_key_hide)

lemma list_keys_hide: "list_keys z (hide_secrets d) = map_sum id (map hide_key) (list_keys z d)"
  by (simp add: list_keys_def keys_of_hide sort_key_hide map_sum_bindE) (simp add: hide_with_keys)

lemma retire_hide: "retire_active z e (hide_key k) = hide_key (retire_active z e k)"
  by (simp add: retire_active_def hide_key_def)

lemma revoke_row_hide: "revoke_row ts z kid (hide_key k) = hide_key (revoke_row ts z kid k)"
  by (simp add: revoke_row_def hide_key_def)

lemma find_hide: "find P (map hide_key ks) = map_option hide_key (find (\<lambda>k. P (hide_key k)) ks)"
  by (induction ks) auto

lemma hide_idem [simp]: "hide_secrets (hide_secrets d) = hide_secrets d"
  by (simp add: hide_secrets_def comp_def)

lemma hide_selectors [simp]:
  "get_zone_row z (hide_secrets d) = get_zone_row z d" "keys (hide_secrets d) = map hide_key (keys d)"
  "hide_secrets d\<lparr>keys := ks\<rparr> = d\<lparr>keys := ks\<rparr>" "hide_secrets (d\<lparr>keys := ks\<rparr>) = d\<lparr>keys := map hide_key ks\<rparr>"
  by (simp add: hide_with_keys) (simp_all add: hide_secrets_def)

lemma revoke_hide:
  "revoke_key ts z kid (hide_secrets d) = apsnd hide_secrets (revoke_key ts z kid d)"
  by (auto simp: revoke_key_def find_hide comp_def revoke_row_hide split: sum.split option.split)

lemma next_gen_hide: "next_gen (hide_secrets d) z = next_gen d z"
  by (simp add: next_gen_def keys_of_hide comp_def)

lemma insert_key_hide:
  "insert_unique key_key row (map (retire_active z e) (map hide_key ks)) =
    (case insert_unique key_key row (map (retire_active z e) ks) of
       Inl x \<Rightarrow> Inl x | Inr _ \<Rightarrow> Inr (map hide_key (map (retire_active z e) ks) @ [row]))"
  by (auto simp: insert_unique_def retire_hide comp_def image_iff)

lemma install_hide:
  "apsnd hide_secrets (install_key ts secret z kid kn e (hide_secrets d)) = apsnd hide_secrets (install_key ts secret z kid kn e d)"
  unfolding install_key_def Let_def hide_selectors insert_key_hide next_gen_hide keys_of_hide
  by (auto simp: insert_unique_def comp_def split: sum.split)

lemma install_row:
  "fst (install_key ts secret z kid kn e (hide_secrets d)) = fst (install_key ts secret z kid kn e d)"
  using install_hide [of ts secret z kid kn e d] by (metis fst_apsnd)

subsection \<open>Operations that do not look at the keys\<close>

text \<open>Such an operation keeps them, and does the same with the secrets hidden.\<close>

locale key_blind =
  fixes f :: "db \<Rightarrow> 'r \<times> db"
  assumes blind: "f (with_keys ks d) = apsnd (with_keys ks) (f d)"
begin

lemma keeps_keys: "keys (snd (f d)) = keys d"
proof -
  have "with_keys (keys d) d = d" by (simp add: with_keys_def)
  with blind [of "keys d" d] have "snd (f d) = with_keys (keys d) (snd (f d))" by (metis snd_apsnd)
  then show ?thesis by (metis with_keys_simps(6))
qed

lemma hides: "f (hide_secrets d) = apsnd hide_secrets (f d)"
  by (cases "f d") (use keeps_keys [of d] in \<open>simp add: hide_with_keys blind\<close>)

end

interpretation blind_publish: key_blind "publish ts zn rid base nxt ops fp" for ts zn rid base nxt ops fp
  by unfold_locales (rule keys_publish)

interpretation blind_create: key_blind "create_zone ts z serial soa ns n" for ts z serial soa ns n
  by unfold_locales (rule keys_create)

interpretation blind_retention: key_blind "set_retention now now' z n" for now now' z n
  by unfold_locales (rule keys_retention)

subsection \<open>Requests\<close>

lemma zone_metadata_hide [simp]: "zone_metadata z (hide_secrets d) = zone_metadata z d"
  by (simp add: hide_with_keys)

lemma get_request_hide [simp]: "get_request z r (hide_secrets d) = get_request z r d"
  by (simp add: hide_with_keys)

lemma list_zones_hide [simp]: "list_zones (hide_secrets d) = list_zones d"
  by (simp add: hide_with_keys)

lemma key_json_hide [simp]: "key_json (hide_key k) = key_json k"
  by (simp add: key_json_def)

lemma keys_body_hide: "send_json (c, Keys_Body (map hide_key ks)) = send_json (c, Keys_Body ks)"
  by (simp add: send_json_def response_json_def comp_def)

lemma get_hide: "send_json (do_GET env path (hide_secrets d)) = send_json (do_GET env path d)"
proof -
  have k: "send_json (respond (bindE (list_keys z (hide_secrets d)) (\<lambda>ks. Inr (200, Keys_Body ks)))) =
      send_json (respond (bindE (list_keys z d) (\<lambda>ks. Inr (200, Keys_Body ks))))" for z
    by (cases "list_keys z d") (simp_all add: list_keys_hide respond_def keys_body_hide)
  have k': "send_json (respond (bindE (canonical_zone_arg a) (\<lambda>z. bindE (list_keys z (hide_secrets d)) (\<lambda>ks. Inr (200, Keys_Body ks))))) =
      send_json (respond (bindE (canonical_zone_arg a) (\<lambda>z. bindE (list_keys z d) (\<lambda>ks. Inr (200, Keys_Body ks)))))" for a
    using k by (cases "canonical_zone_arg a") simp_all
  show ?thesis
    unfolding do_GET_def route_get_def by (auto simp: k' split: list.split)
qed

lemma create_hide: "api_create_zone env body (hide_secrets d) = apsnd hide_secrets (api_create_zone env body d)"
proof (cases "check_create body")
  case (Inr c)
  obtain r d' where "create_zone (a_ts env) (cq_name c) (cq_serial c) (cq_soa c) (cq_ns c) (cq_retain c) d = (r, d')"
    by (metis surj_pair)
  then show ?thesis by (simp add: api_create_zone_def Inr blind_create.hides split: sum.split)
qed (simp add: api_create_zone_def)

lemma publish_hide: "api_publish env zn body (hide_secrets d) = apsnd hide_secrets (api_publish env zn body d)"
proof (cases "check_publish (a_sha256 env) zn body")
  case (Inr b)
  obtain r d' where "publish (a_ts env) (bq_zone b) (bq_request_id b) (bq_base b) (bq_next b) (JList (bq_ops b))
      (bq_fingerprint b) d = (r, d')"
    by (metis surj_pair)
  then show ?thesis by (simp add: api_publish_def Inr blind_publish.hides split: sum.split)
qed (simp add: api_publish_def)

lemma retention_hide:
  "api_set_retention env zn body (hide_secrets d) = apsnd hide_secrets (api_set_retention env zn body d)"
  unfolding api_set_retention_def
  by (auto simp: blind_retention.hides split: sum.split json.split prod.split)

lemma api_revoke_hide: "api_revoke_key env zn kid (hide_secrets d) = apsnd hide_secrets (api_revoke_key env zn kid d)"
  by (auto simp: api_revoke_key_def revoke_hide split: sum.split prod.split)

lemma api_install_hide:
  "apsnd hide_secrets (api_install_key env zn body (hide_secrets d)) = apsnd hide_secrets (api_install_key env zn body d)"
proof (cases "check_install (a_now env) zn body")
  case (Inr k)
  let ?i = "install_key (a_ts env) (a_secret env) (kq_zone k) (kq_key_id k) (kq_key_name k) (kq_expires k)"
  obtain r d1 r' d2 where "?i d = (r, d1)" "?i (hide_secrets d) = (r', d2)" by (metis surj_pair)
  with install_hide [of "a_ts env" "a_secret env" "kq_zone k" "kq_key_id k" "kq_key_name k" "kq_expires k" d]
  show ?thesis by (simp add: api_install_key_def Inr split: sum.split)
qed (simp add: api_install_key_def)

lemma hide_twice: "apsnd hide_secrets (apsnd hide_secrets x) = apsnd hide_secrets x"
  by (cases x) simp

lemma post_hide:
  "apsnd hide_secrets (route_post env path body (hide_secrets d)) = apsnd hide_secrets (route_post env path body d)"
  unfolding route_post_def
  by (auto simp: create_hide publish_hide api_revoke_hide api_install_hide hide_twice split: list.split)

lemma responded: "apsnd hide_secrets (case x of (r, d) \<Rightarrow> (respond r, d)) = apfst respond (apsnd hide_secrets x)"
  by (cases x) simp

lemma do_POST_hide: "apsnd hide_secrets (do_POST env path cl raw (hide_secrets d)) = apsnd hide_secrets (do_POST env path cl raw d)"
  unfolding do_POST_def by (cases "read_json (a_loads env) cl raw") (simp_all add: responded post_hide)

lemma do_PUT_hide: "apsnd hide_secrets (do_PUT env path cl raw (hide_secrets d)) = apsnd hide_secrets (do_PUT env path cl raw d)"
  unfolding do_PUT_def
  by (cases "read_json (a_loads env) cl raw") (auto simp: retention_hide split: list.split prod.split)

lemma rows_named_hide: "rows_named (hide_secrets d) = rows_named d"
  by (intro ext) (simp add: rows_named_def hide_with_keys)

lemma answer_hide: "answer_question q (hide_secrets d) = answer_question q d"
  unfolding answer_question_def find_zone_by_name_def rows_named_hide by (simp add: hide_with_keys)

lemma udp_hide: "udp_handle data (hide_secrets d) = udp_handle data d"
  unfolding udp_handle_def udp_response_def answer_hide ..

subsection \<open>Properties\<close>

text \<open>
  C13.  Key secrets are not disclosed: two databases that differ in key secrets only give the same
  bytes as the response to every GET, POST and PUT and as the answer to every datagram, and stay
  equal up to secrets.  The one response that carries a secret is that of an installation, which
  carries the new one, drawn for it.
\<close>

theorem secrets_not_disclosed:
  assumes h: "hide_secrets d = hide_secrets d'"
  shows "send_json (do_GET env path d) = send_json (do_GET env path d') \<and>
    udp_handle data d = udp_handle data d' \<and>
    apsnd hide_secrets (do_POST env path cl raw d) = apsnd hide_secrets (do_POST env path cl raw d') \<and>
    apsnd hide_secrets (do_PUT env path cl raw d) = apsnd hide_secrets (do_PUT env path cl raw d')"
proof (intro conjI)
  show "send_json (do_GET env path d) = send_json (do_GET env path d')" by (metis get_hide h)
  show "udp_handle data d = udp_handle data d'" by (metis udp_hide h)
  show "apsnd hide_secrets (do_POST env path cl raw d) = apsnd hide_secrets (do_POST env path cl raw d')"
    by (metis do_POST_hide h)
  show "apsnd hide_secrets (do_PUT env path cl raw d) = apsnd hide_secrets (do_PUT env path cl raw d')"
    by (metis do_PUT_hide h)
qed

definition demo_other_secret :: db where
  "demo_other_secret = demo3\<lparr>keys := map (\<lambda>k. k\<lparr>k_secret := [9]\<rparr>) (keys demo3)\<rparr>"

theorem secrets_not_disclosed_witness:
  "map k_secret (keys demo3) \<noteq> map k_secret (keys demo_other_secret) \<and>
    send_json (do_GET (demo_env [] 5) ''/v1/zones/a./keys'' demo3) =
    send_json (do_GET (demo_env [] 5) ''/v1/zones/a./keys'' demo_other_secret)"
proof -
  have "hide_secrets demo3 = hide_secrets demo_other_secret"
    by (simp add: hide_secrets_def demo_other_secret_def hide_key_def comp_def)
  moreover have "map k_secret (keys demo3) \<noteq> map k_secret (keys demo_other_secret)"
    by (simp add: demo_other_secret_def demo3_def)
  ultimately show ?thesis using secrets_not_disclosed by blast
qed

end
