(* ===== verification/Transfer_Theorems.thy ===== *)
theory Transfer_Theorems
  imports Demo_Transfer
begin

text \<open>
  The properties of zone transfers, with the witnesses that run them on the demo database.
\<close>

subsection \<open>Isolation of the messages\<close>

lemma authorized_tsig:
  assumes "authorize_transfer hm now now' ts inst rid q d = (Inr p, d1)"
  obtains t where "q_tsig q = Some t" "expected_request_mac hm (tp_secret p) q = Inr (t_mac t)" "tp_key_name p = t_name t"
  using assms
proof (cases rule: authorize_transfer_effect)
  case (granted p' z t key)
  then have "tp_secret p = k_secret key" "tp_key_name p = t_name t" by (metis sum.inject(2) plan.select_convs(8), metis sum.inject(2) plan.select_convs(7))
  with granted show ?thesis by (intro that [of t]) simp_all
qed simp

lemma transfer_messages_isolated:
  assumes wf: "wf_db d" and a: "authorize_transfer hm now now' ts inst rid q d = (Inr p, d1)"
    and m: "tp_mode p \<in> {Some MODE_AXFR, Some MODE_IXFR}" and run: "run_pinned rid d1 d2"
  shows "transfer_messages budget p q d2 = transfer_messages budget p q d1"
proof -
  note pin = authorized_pin [OF wf a]
  have r: "wf_db d2" "same_versions (tp_zone p) (tp_min_version p) (tp_target_version p) d1 d2"
    using pinned_run [OF run] pin by auto
  show ?thesis
  proof (cases "tp_mode p = Some MODE_AXFR")
    case True
    then have "axfr_rr_stream d2 p = axfr_rr_stream d1 p" using axfr_stream_same [OF r(2)] pin by simp
    then show ?thesis by (simp add: transfer_messages_def True)
  next
    case False
    then have i: "tp_mode p = Some MODE_IXFR" using m by simp
    with authorized_plan_for [OF wf a] obtain cs start where cs: "q_client_soa_serial q = Some cs"
      "version_by_serial d1 (tp_zone p) cs = Some start" "v_version_id start = tp_min_version p"
      by (auto simp: plan_for_def)
    from ixfr_stream_same [OF r(1,2) refl refl cs(2,3)] pin have "ixfr_rr_stream d2 p (Some cs) = ixfr_rr_stream d1 p (Some cs)"
      by simp
    then show ?thesis by (simp add: transfer_messages_def i cs(1))
  qed
qed

lemma authority_serial_Inr:
  assumes "authority_serial buf r l cs = Inr (Some s)"
  shows "cs = Some s \<or> 0 \<le> s \<and> s \<le> 0xFFFFFFFF"
proof (cases "decode_name buf r")
  case (Inl e)
  with assms show ?thesis by (auto simp: authority_serial_def split: exn.splits)
next
  case (Inr x)
  obtain n p where d: "decode_name buf r = Inr (n, p)" using Inr by (cases x) simp
  show ?thesis
  proof (cases "decode_name buf p")
    case (Inl e)
    with d assms show ?thesis by (auto simp: authority_serial_def split: exn.splits)
  next
    case (Inr x)
    obtain n' p' where d': "decode_name buf p = Inr (n', p')" using Inr by (cases x) simp
    have "n < 4294967296" if "unpack32 bs = Inr n" for bs n
      using that val32_lt by (auto simp: unpack32_def split: list.splits)
    then show ?thesis
      using assms by (cases "unpack32 (slice buf p' (p' + 4))")
        (fastforce simp: authority_serial_def d d' split: exn.splits if_splits)+
  qed
qed

lemma parse_authority_serial:
  "parse_authority buf k off cs = Inr (off', Some s) \<Longrightarrow> (\<And>x. cs = Some x \<Longrightarrow> 0 \<le> x \<and> x \<le> 0xFFFFFFFF) \<Longrightarrow>
    0 \<le> s \<and> s \<le> 0xFFFFFFFF"
proof (induction k arbitrary: off cs)
  case (Suc k)
  from Suc.prems(1) obtain cs' off2 where rec: "parse_authority buf k off2 cs' = Inr (off', Some s)"
    and cs': "cs' = cs \<or> (\<exists>r l. authority_serial buf r l cs = Inr cs')"
    by (auto simp: bindE_Inr_iff Let_def split: if_splits)
  have "0 \<le> x \<and> x \<le> 0xFFFFFFFF" if "cs' = Some x" for x
    using cs' that Suc.prems(2) authority_serial_Inr by blast
  then show ?case by (rule Suc.IH [OF rec])
qed simp

lemma parse_query_serial:
  assumes "parse_query buf = Inr q" and "q_client_soa_serial q = Some s"
  shows "0 \<le> s \<and> s \<le> 0xFFFFFFFF"
proof -
  from assms obtain k off off' where "parse_authority buf k off None = Inr (off', Some s)"
    by (auto simp: parse_query_def Let_def bindE_Inr_iff split: if_splits)
  then show ?thesis by (rule parse_authority_serial) simp
qed

subsection \<open>Properties\<close>

text \<open>
  C2.  A client that holds a live key of a zone and sends a signed AXFR or IXFR request whose
  time is within the fudge is served by the TCP endpoint, in every reachable database: the
  request parses, the transfer is authorised for that zone, every frame sent parses in the
  client, the answer sections together are the payload of the transfer in order, the first
  message verifies against the request MAC and the last against the MAC of the first; the
  database is as before, and the pin of the transfer is released.
\<close>

theorem transfer_served:
  assumes "reachable d" and "find_zone d (wire_name_of zname) = Some z"
    and "live_key (e_now' env * 1000) d (z_name z) (wire_name_of kn) k"
    and "build_tsig_query hmac_sha256 qid zname qt kn (k_secret k) when fudge auth = Inr wire"
    and "authority_of zone' serial = Inr auth" and "qt = TYPE_AXFR \<or> qt = TYPE_IXFR"
    and "encode_name kn = Inr kw" and "length kw \<le> 255" and "length wire \<le> 65535"
    and "verify_tsig_time (int (take_bit 48 when)) (int fudge) (e_now env) 300"
    and "e_ref_id env \<notin> f_ref_id ` set (transfer_refs d)"
  shows "\<exists>q p d1 fs d'. parse_query wire = Inr q \<and> q_id q = qid \<and>
    authorize_transfer hmac_sha256 (e_now env) (e_now' env) (e_ts env) (e_instance env) (e_ref_id env) q d = (Inr p, d1) \<and>
    tp_zone p = z_name z \<and> tcp_handle hmac_sha256 env (be16 (length wire) @ wire) d = (fs, d') \<and>
    delivered hmac_sha256 p q (transfer_payload d1 p) fs \<and> same_tables d d' \<and>
    (\<forall>x \<in> set (transfer_refs d'). f_ref_id x = e_ref_id env \<longrightarrow> f_state x = REF_DONE)"
  using signed_transfer_served [OF reachable_wf [OF assms(1)] reachable_wf_keys [OF assms(1)] assms(2-11)]
  by simp

theorem transfer_served_witness:
  "\<exists>wire fs d'. build_tsig_query hmac_sha256 7 ''a.'' TYPE_AXFR ''k.'' demo_secret 5 300 [] = Inr wire \<and>
    tcp_handle hmac_sha256 demo_tcp (be16 (length wire) @ wire) demo3 = (fs, d') \<and> same_tables demo3 d'"
proof -
  have ax: "TYPE_AXFR = TYPE_AXFR \<or> TYPE_AXFR = TYPE_IXFR" by simp
  obtain wire auth where w: "authority_of ''a.'' (demo_serial TYPE_AXFR) = Inr auth"
    "build_tsig_query hmac_sha256 7 ''a.'' TYPE_AXFR ''k.'' demo_secret 5 300 auth = Inr wire" "length wire \<le> 65535"
    by (rule demo_query [OF ax])
  have "auth = []" using w(1) by (simp add: demo_serial_def authority_of_def)
  have "\<exists>q p d1 fs d'. parse_query wire = Inr q \<and> q_id q = 7 \<and>
    authorize_transfer hmac_sha256 (e_now demo_tcp) (e_now' demo_tcp) (e_ts demo_tcp) (e_instance demo_tcp) (e_ref_id demo_tcp) q demo3 = (Inr p, d1) \<and>
    tp_zone p = z_name demo_zone \<and> tcp_handle hmac_sha256 demo_tcp (be16 (length wire) @ wire) demo3 = (fs, d') \<and>
    delivered hmac_sha256 p q (transfer_payload d1 p) fs \<and> same_tables demo3 d' \<and>
    (\<forall>x \<in> set (transfer_refs d'). f_ref_id x = e_ref_id demo_tcp \<longrightarrow> f_state x = REF_DONE)"
  proof (rule transfer_served [OF demo_reachable(3) _ _ _ w(1) ax demo_facts(7) _ w(3)])
    show "find_zone demo3 (wire_name_of ''a.'') = Some demo_zone" by (simp add: demo_facts)
    show "live_key (e_now' demo_tcp * 1000) demo3 (z_name demo_zone) (wire_name_of ''k.'') demo_key_row"
      using demo_facts by (simp add: demo_tcp_def)
    show "build_tsig_query hmac_sha256 7 ''a.'' TYPE_AXFR ''k.'' (k_secret demo_key_row) 5 300 auth = Inr wire"
      using w(2) by (simp add: demo_facts)
    show "verify_tsig_time (int (take_bit 48 5)) (int 300) (e_now demo_tcp) 300"
      by (simp add: verify_tsig_time_def take_bit_eq_mod demo_tcp_def)
  qed (simp_all add: demo_facts)
  with w(2) \<open>auth = []\<close> show ?thesis by blast
qed

text \<open>
  C3.  Transfers are isolated from concurrent writes: after a transfer of a reachable database
  is authorised, any interleaving of publishes, retention changes, key changes, cleanups and
  other transfers that leaves its pin alive changes nothing of what it sends; the stream
  completes, and the client reads exactly the payload at the time of the authorisation.
\<close>

theorem transfer_isolated:
  assumes "reachable d" and "authorize_transfer hmac_sha256 now now' ts inst rid q d = (Inr p, d1)"
    and "parse_query buf = Inr q" and "q_qtype q = TYPE_AXFR \<or> q_qtype q = TYPE_IXFR" and "run_pinned rid d1 d2"
    and "encode_name (tp_key_name p) = Inr kw" and "length kw \<le> 255"
  shows "\<exists>fs. send_transfer hmac_sha256 budget when p q d2 = (fs, Inr ()) \<and>
    delivered hmac_sha256 p q (transfer_payload d1 p) fs"
proof -
  note wf = reachable_wf [OF assms(1)]
  have wf1: "wf_db d1" using authorized_pin [OF wf assms(2)] by simp
  note m = authorized_mode [OF assms(2,4)]
  obtain t where t: "q_tsig q = Some t" "expected_request_mac hmac_sha256 (tp_secret p) q = Inr (t_mac t)"
    using authorized_tsig [OF assms(2)] by blast
  have hm: "\<forall>key m. length (hmac_sha256 key m) = 32" by simp
  have "length (t_mac t) < 65536" using expected_request_mac_length [OF t(2) hm] by simp
  from send_transfer_delivers [OF wf1 authorized_plan_for [OF wf assms(2)] m t(1) this parse_query_id [OF assms(3)] assms(6,7) hm]
  have "\<exists>fs. send_transfer hmac_sha256 budget when p q d1 = (fs, Inr ()) \<and>
    delivered hmac_sha256 p q (transfer_payload d1 p) fs" .
  then show ?thesis
    unfolding send_transfer_def transfer_messages_isolated [OF wf assms(2) m assms(5)] .
qed

theorem transfer_isolated_witness:
  "\<exists>q p d1 d2 fs. authorize_transfer hmac_sha256 5 5 5000 ''i'' ''r'' q demo3 = (Inr p, d1) \<and>
    d2 = heartbeat_transfer 9000 ''other'' d1 \<and> send_transfer hmac_sha256 65000 5 p q d2 = (fs, Inr ())"
proof -
  have ax: "TYPE_AXFR = TYPE_AXFR \<or> TYPE_AXFR = TYPE_IXFR" by simp
  obtain wire q p d1 t where g: "parse_query wire = Inr q" "q_qtype q = TYPE_AXFR"
    "authorize_transfer hmac_sha256 5 5 5000 ''i'' ''r'' q demo3 = (Inr p, d1)" "tp_key_name p = ''k.''"
    by (rule demo_granted [OF ax])
  have run: "run_pinned ''r'' d1 (heartbeat_transfer 9000 ''other'' d1)"
    by (rule run_step [OF run_refl step_beat]) (simp add: pin_alive_def)
  have q: "q_qtype q = TYPE_AXFR \<or> q_qtype q = TYPE_IXFR" using g(2) by simp
  have k: "encode_name (tp_key_name p) = Inr [1, 107, 0]" by (simp add: g(4) demo_facts)
  from transfer_isolated [OF demo_reachable(3) g(3,1) q run k, of 65000 5] g(3) show ?thesis by auto
qed



text \<open>
  C6.  An incremental transfer of a reachable database brings the client up to date: the client
  named the serial of a retained version, the payload opens with the SOA of the current serial,
  and a receiver that starts with the content of the version it named and changes mode at
  every SOA record ends with exactly the content of the current version.
\<close>

theorem ixfr_replays:
  assumes "reachable d" and "authorize_transfer hm now now' ts inst rid q d = (Inr p, d1)"
    and "tp_mode p = Some MODE_IXFR"
  shows "\<exists>cs start soa chs. q_client_soa_serial q = Some cs \<and> version_by_serial d (tp_zone p) cs = Some start \<and>
    transfer_payload d1 p = soa # chs \<and> soa_of (tp_zone p) (tp_target_serial p) soa \<and>
    foldl (receive (tp_zone p)) (ADD, content d (tp_zone p) (v_version_id start)) chs =
      (ADD, content d (tp_zone p) (tp_target_version p))"
proof -
  note wf = reachable_wf [OF assms(1)]
  note pin = authorized_pin [OF wf assms(2)]
  have co: "content d1 zone n = content d zone n" for zone n
    using pin by (intro content_cong) (simp add: records_of_def)
  have vs: "version_by_serial d1 = version_by_serial d" using pin by (simp add: version_by_serial_def fun_eq_iff)
  show ?thesis
    using payload_ixfr(2) [OF _ authorized_plan_for [OF wf assms(2)] assms(3)] pin unfolding co vs by metis
qed

theorem ixfr_replays_witness:
  "\<exists>q p d1 soa chs. authorize_transfer hmac_sha256 5 5 5000 ''i'' ''r'' q demo3 = (Inr p, d1) \<and>
    transfer_payload d1 p = soa # chs \<and>
    (\<exists>v. foldl (receive ''a.'') (ADD, content demo3 ''a.'' v) chs = (ADD, content demo3 ''a.'' 1))"
proof -
  have ix: "TYPE_IXFR = TYPE_AXFR \<or> TYPE_IXFR = TYPE_IXFR" by simp
  obtain wire q p d1 t where g: "q_qtype q = TYPE_IXFR" "q_qname q = ''a.''"
    "q_client_soa_serial q = map_option int (demo_serial TYPE_IXFR)"
    "authorize_transfer hmac_sha256 5 5 5000 ''i'' ''r'' q demo3 = (Inr p, d1)" "tp_zone p = ''a.''"
    by (rule demo_granted [OF ix])
  have cs: "q_client_soa_serial q = Some 1" using g(3) by (simp add: demo_serial_def)
  have "tp_mode p = Some MODE_IXFR \<and> tp_target_version p = z_current_version demo_zone"
    using g(4)
  proof (rule authorize_transfer_effect)
    fix p' z t key
    assume r: "(Inr p :: exn + plan) = Inr p'" "find_zone demo3 (q_qname q) = Some z"
      "transfer_mode demo3 z q = Inr (tp_mode p', tp_min_version p')"
      "p' = \<lparr>tp_mode = tp_mode p', tp_zone = z_name z, tp_target_version = z_current_version z,
         tp_target_serial = z_current_serial z, tp_min_version = tp_min_version p', tp_ref_id = ''r'',
         tp_key_name = t_name t, tp_secret = k_secret key, tp_qid = q_id q\<rparr>"
    have "z = demo_zone" using r(2) by (simp add: g(2) demo_facts)
    with r(3,4) demo_ixfr_mode [OF g(1) cs] show ?thesis using r(1) by (metis Inr_inject Pair_inject plan.select_convs(3))
  qed simp
  moreover have "z_current_version demo_zone = 1" by code_simp
  ultimately have m: "tp_mode p = Some MODE_IXFR" "tp_target_version p = 1" by simp_all
  from ixfr_replays [OF demo_reachable(3) g(4) m(1)] g(4) show ?thesis unfolding g(5) m(2) by blast
qed


text \<open>
  C8.  A transfer request is authorised exactly when it should be: in a reachable database and
  with a fresh reference id, the service grants a parsed request if and only if it carries a
  TSIG record, names a zone of the service, names a key of that zone that is neither revoked nor
  past its expiry, is signed at a time within the fudge, and carries the HMAC-SHA256 of its own
  bytes under the secret of that key.
\<close>

theorem transfer_authorised_iff:
  assumes "reachable d" and "parse_query buf = Inr q" and "rid \<notin> f_ref_id ` set (transfer_refs d)"
  shows "(\<exists>p d1. authorize_transfer hmac_sha256 now now' ts inst rid q d = (Inr p, d1)) \<longleftrightarrow>
    (\<exists>t z k. q_tsig q = Some t \<and> find_zone d (q_qname q) = Some z \<and>
       live_key (now' * 1000) d (z_name z) (t_name t) k \<and>
       verify_tsig_time (int (t_time t)) (int (t_fudge t)) now 300 \<and>
       expected_request_mac hmac_sha256 (k_secret k) q = Inr (t_mac t))"
    (is "?granted \<longleftrightarrow> ?ok")
proof
  assume ?granted
  then obtain p d1 where "authorize_transfer hmac_sha256 now now' ts inst rid q d = (Inr p, d1)" by blast
  then show ?ok
  proof (cases rule: authorize_transfer_effect)
    case (granted p' z t key)
    with resolve_in_tx_Inr [OF granted(4)] show ?thesis by blast
  qed simp
next
  assume ?ok
  then obtain t z k where ok: "q_tsig q = Some t" "find_zone d (q_qname q) = Some z"
    "live_key (now' * 1000) d (z_name z) (t_name t) k"
    "verify_tsig_time (int (t_time t)) (int (t_fudge t)) now 300"
    "expected_request_mac hmac_sha256 (k_secret k) q = Inr (t_mac t)" by blast
  from authorize_grants [OF reachable_wf [OF assms(1)] reachable_wf_keys [OF assms(1)] ok _ assms(3)]
    parse_query_serial [OF assms(2)] show ?granted by blast
qed

theorem transfer_authorised_iff_witness:
  "\<exists>q t k. (\<exists>p d1. authorize_transfer hmac_sha256 5 5 5000 ''i'' ''r'' q demo3 = (Inr p, d1)) \<and>
    q_tsig q = Some t \<and> live_key 5000 demo3 ''a.'' (t_name t) k \<and>
    expected_request_mac hmac_sha256 (k_secret k) q = Inr (t_mac t)"
proof -
  have ax: "TYPE_AXFR = TYPE_AXFR \<or> TYPE_AXFR = TYPE_IXFR" by simp
  obtain wire q p d1 t where g: "parse_query wire = Inr q" "q_qname q = ''a.''"
    "authorize_transfer hmac_sha256 5 5 5000 ''i'' ''r'' q demo3 = (Inr p, d1)" by (rule demo_granted [OF ax])
  have fresh: "''r'' \<notin> f_ref_id ` set (transfer_refs demo3)" by (simp add: demo_facts)
  have "\<exists>p d1. authorize_transfer hmac_sha256 5 5 5000 ''i'' ''r'' q demo3 = (Inr p, d1)" using g(3) by blast
  note granted = this
  then obtain t z k where ok: "q_tsig q = Some t" "find_zone demo3 (q_qname q) = Some z"
    "live_key (5 * 1000) demo3 (z_name z) (t_name t) k" "expected_request_mac hmac_sha256 (k_secret k) q = Inr (t_mac t)"
    unfolding transfer_authorised_iff [OF demo_reachable(3) g(1) fresh] by blast
  have "z = demo_zone" using ok(2) by (simp add: g(2) demo_facts)
  with ok granted show ?thesis using demo_facts(2) by (intro exI [of _ q] exI [of _ t] exI [of _ k]) simp
qed

text \<open>
  C19.  A denied transfer discloses nothing of the zone and changes nothing: the connection gets
  at most one frame, whose answer and authority counts are zero, and the database is as before.
\<close>

theorem denied_transfer_discloses_nothing:
  assumes "authorize_transfer hm (e_now env) (e_now' env) (e_ts env) (e_instance env) (e_ref_id env) q d =
      (Inl (TransferDenied err), d')"
    and "q_qtype q = TYPE_AXFR \<or> q_qtype q = TYPE_IXFR" and "tcp_dispatch hm env q d = ((fs, r), d'')"
  shows "d'' = d \<and> length fs \<le> 1 \<and> (\<forall>f \<in> set fs. \<exists>msg. f = be16 (length msg) @ msg \<and> no_data_response q msg)"
  using denied_dispatch [OF assms] by simp

definition demo_unsigned :: query where
  "demo_unsigned = \<lparr>q_id = 1, q_flags = 0, q_qname = ''a.'', q_qtype = TYPE_AXFR, q_qclass = 1,
     q_raw_question = [1, 97, 0, 0, 252, 0, 1], q_tsig = None, q_tsig_offset = None, q_arcount = 0, q_raw = [],
     q_client_soa_serial = None\<rparr>"

theorem denied_transfer_discloses_nothing_witness:
  "\<exists>fs r. tcp_dispatch hmac_sha256 demo_tcp demo_unsigned demo3 = ((fs, r), demo3) \<and> length fs \<le> 1"
proof -
  have a: "authorize_transfer hmac_sha256 (e_now demo_tcp) (e_now' demo_tcp) (e_ts demo_tcp) (e_instance demo_tcp)
      (e_ref_id demo_tcp) demo_unsigned demo3 = (Inl (TransferDenied None), demo3)"
    by (simp add: authorize_transfer_def demo_unsigned_def)
  have q: "q_qtype demo_unsigned = TYPE_AXFR \<or> q_qtype demo_unsigned = TYPE_IXFR" by (simp add: demo_unsigned_def)
  obtain fs r d'' where t: "tcp_dispatch hmac_sha256 demo_tcp demo_unsigned demo3 = ((fs, r), d'')" by (metis prod.exhaust)
  from denied_transfer_discloses_nothing [OF a q t] t show ?thesis by blast
qed

text \<open>
  C32.  The choice between an incremental and a full transfer: an IXFR request is answered
  incrementally exactly when the client's serial is the current one, or is behind it in serial
  arithmetic and belongs to a retained older version.
\<close>

theorem ixfr_decision:
  assumes "reachable d" and "find_zone d name = Some z"
  shows "decide_ixfr d (z_name z) (z_current_version z) (z_current_serial z) client = MODE_IXFR \<longleftrightarrow>
    (\<exists>cs. client = Some cs \<and>
      (compare cs (z_current_serial z) = EQUAL \<or>
       compare cs (z_current_serial z) = GREATER \<and>
         (\<exists>v \<in> set (versions d). v_zone v = z_name z \<and> v_serial v = cs \<and> v_version_id v < z_current_version z)))"
proof -
  note wf = reachable_wf [OF assms(1)] and z = find_zone_in [OF assms(2)]
  have vs: "(\<exists>v. version_by_serial d (z_name z) cs = Some v \<and> v_version_id v < z_current_version z) \<longleftrightarrow>
      (\<exists>v \<in> set (versions d). v_zone v = z_name z \<and> v_serial v = cs \<and> v_version_id v < z_current_version z)" for cs
    using version_by_serial_Some version_by_serial_unique [OF wf] by metis
  show ?thesis
  proof (cases client)
    case None
    then show ?thesis by (simp add: decide_ixfr_def)
  next
    case (Some cs)
    have zm: "z \<in> set (zones d)" using z by blast
    show ?thesis unfolding Some decide_ixfr_iff [OF wf zm] vs by blast
  qed
qed

theorem ixfr_decision_witness:
  "decide_ixfr demo3 (z_name demo_zone) (z_current_version demo_zone) (z_current_serial demo_zone) (Some 3) \<noteq> MODE_IXFR"
proof -
  have "compare 3 (z_current_serial demo_zone) = LESS" by code_simp
  then show ?thesis using ixfr_decision [OF demo_reachable(3) demo_facts(1), of "Some 3"] by auto
qed

end
