(* ===== verification/Wire_Theorems.thy ===== *)
theory Wire_Theorems
  imports Demo_Transfer
begin

text \<open>
  The properties of the wire format: names and signed queries survive encoding and decoding, the
  decoders fail only in the ways their callers handle, and UDP answers stay within their limit.
\<close>

text \<open>
  C35.  A name that encodes is read back from the wire, at any place in any message, as its
  lower-case absolute form, with the offset of the byte that follows; and that form encodes to
  the same bytes.
\<close>

theorem name_roundtrip:
  assumes "encode_name name = Inr w"
  shows "decode_name (pre @ w @ post) (length pre) = Inr (wire_name_of name, length pre + length w) \<and>
    encode_name (wire_name_of name) = Inr w"
proof -
  have "holds_at (pre @ w @ post) (length pre) w" by (simp add: holds_at_def)
  from names.dec_enc [OF assms this] encode_wire_name [OF assms] show ?thesis by simp
qed

theorem name_roundtrip_witness:
  "decode_name [1, 2, 1, 119, 1, 97, 0, 3] 2 = Inr (wire_name_of ''W.a'', 7)"
proof -
  have "encode_name ''W.a'' = Inr [1, 119, 1, 97, 0]" by code_simp
  from name_roundtrip [OF this, of "[1, 2]" "[3]"] show ?thesis by (simp add: numeral_eq_Suc)
qed

text \<open>
  C34.  The name decoder returns on every input, whatever its compression pointers say, and either
  raises one of the two errors its callers expect, or returns a lower-case absolute name with an
  offset that makes progress and stays within the message.
\<close>

theorem decode_name_safe:
  "case decode_name buf off of
     Inl e \<Rightarrow> e = UnicodeError \<or> (\<exists>m. e = WireError m)
   | Inr (name, nxt) \<Rightarrow> off < nxt \<and> nxt \<le> length buf \<and> ends_with name ''.'' \<and> py_lower name = name"
proof (cases "decode_name buf off")
  case (Inl e)
  then show ?thesis using decode_name_Inl [OF Inl] by (auto simp: parse_exn_def)
next
  case (Inr x)
  obtain name nxt where "x = (name, nxt)" by (cases x)
  with Inr decode_name_bounds [of buf off name nxt] show ?thesis by simp
qed


text \<open>
  A signed query survives the wire: what the client builds, the server parses back field by
  field, including the serial of the authority section and every field of the TSIG record, and
  the MAC the server recomputes from the received bytes with the client's secret is the MAC the
  record carries.
\<close>

theorem signed_query_roundtrip:
  assumes "build_tsig_query hm qid qn qt kn secret when fudge auth = Inr wire" and "authority_of zone serial = Inr auth"
  shows "\<exists>q t. parse_query wire = Inr q \<and> q_tsig q = Some t \<and>
    q_id q = qid \<and> q_qname q = wire_name_of qn \<and> q_qtype q = qt \<and> q_qclass q = 1 \<and>
    question_wire qn qt = Inr (q_raw_question q) \<and>
    q_client_soa_serial q = map_option int serial \<and>
    t_name t = wire_name_of kn \<and> t_algorithm t = ''hmac-sha256.'' \<and> t_time t = take_bit 48 when \<and>
    t_fudge t = fudge \<and> t_orig_id t = qid \<and> t_error t = 0 \<and> t_other t = [] \<and>
    expected_request_mac hm secret q = Inr (t_mac t)"
  by (rule parse_signed_query [OF assms])

theorem signed_query_roundtrip_witness:
  "\<exists>wire q t. build_tsig_query hmac_sha256 7 ''a.'' TYPE_AXFR ''k.'' demo_secret 5 300 [] = Inr wire \<and>
    parse_query wire = Inr q \<and> q_tsig q = Some t \<and> t_name t = wire_name_of ''k.''"
proof -
  have ax: "TYPE_AXFR = TYPE_AXFR \<or> TYPE_AXFR = TYPE_IXFR" by simp
  obtain wire auth where w: "authority_of ''a.'' (demo_serial TYPE_AXFR) = Inr auth"
    "build_tsig_query hmac_sha256 7 ''a.'' TYPE_AXFR ''k.'' demo_secret 5 300 auth = Inr wire"
    by (rule demo_query [OF ax])
  have "auth = []" using w(1) by (simp add: demo_serial_def authority_of_def)
  with signed_query_roundtrip [OF w(2,1)] w(2) show ?thesis by blast
qed

text \<open>
  C36.  A UDP answer to a datagram of at most 512 bytes has at most 512 bytes: a longer one is cut
  to the header and the question, with the TC bit.
\<close>

theorem udp_answer_bounded:
  assumes "udp_handle data d = Inr r" and "length data \<le> 512"
  shows "length r \<le> 512"
  by (rule udp_handle_length [OF assms])

theorem udp_answer_bounded_witness:
  "\<exists>r. udp_handle [0, 1, 1, 0, 0, 1, 0, 0, 0, 0, 0, 0, 1, 97, 0, 0, 6, 0, 1] demo3 = Inr r \<and> length r \<le> 512"
proof -
  have "\<not> isl (udp_handle [0, 1, 1, 0, 0, 1, 0, 0, 0, 0, 0, 0, 1, 97, 0, 0, 6, 0, 1] demo3)" by code_simp
  then obtain r where r: "udp_handle [0, 1, 1, 0, 0, 1, 0, 0, 0, 0, 0, 0, 1, 97, 0, 0, 6, 0, 1] demo3 = Inr r"
    by (metis isl_def sum.exhaust)
  from udp_answer_bounded [OF r] r show ?thesis by simp
qed

text \<open>
  C37.  The UDP handler always produces a reply, in any database, for every datagram except one with
  a name that is not ASCII, where the decoding error escapes: a malformed message gets a bare
  FORMERR header, and a query that raises while it is answered gets SERVFAIL.
\<close>

theorem udp_always_replies:
  assumes "parse_query data \<noteq> Inl UnicodeError"
  shows "\<exists>r. udp_handle data d = Inr r"
  by (rule udp_handle_total [OF assms])

theorem udp_always_replies_witness:
  "\<exists>r. udp_handle [1, 2, 3] demo3 = Inr r"
  by (rule udp_always_replies) code_simp

text \<open>
  C38.  The canonical form of a request's name is a name of the zone that the service can always
  put on the wire in at most 255 bytes and that reads back unchanged.
\<close>

theorem canonical_name_servable:
  assumes "canonical_zone_arg arg = Inr zone" and "canonical_name v zone = Inr n"
  shows "in_zone zone n \<and> (\<exists>w. encode_name n = Inr w \<and> length w \<le> 255 \<and>
    (\<forall>pre post. decode_name (pre @ w @ post) (length pre) = Inr (n, length pre + length w)))"
  using canonical_name_sound [OF assms(2) canonical_zone_arg_sound [OF assms(1)]] canonical_form_roundtrip by blast

theorem canonical_name_servable_witness:
  "\<exists>n w. canonical_name (JStr ''W'') ''a.'' = Inr n \<and> encode_name n = Inr w \<and> length w \<le> 255"
proof -
  have "canonical_zone_arg ''a.'' = Inr ''a.''" "canonical_name (JStr ''W'') ''a.'' = Inr ''w.a.''" by code_simp+
  from canonical_name_servable [OF this] this(2) show ?thesis by blast
qed

end
