(* ===== verification/Query_Theorems.thy ===== *)
theory Query_Theorems
  imports Wire_Theorems
begin

text \<open>
  The properties of ordinary queries: the enclosing zone is the longest one, and the answer is
  exactly the matching records of the zone's current version.
\<close>

subsection \<open>Zone selection\<close>

lemma better_zone_fold:
  "foldl (better_zone name) best zs = res \<Longrightarrow>
    (case res of
       None \<Rightarrow> best = None \<and> (\<forall>y \<in> set zs. \<not> in_zone (z_name y) name)
     | Some z \<Rightarrow> (best = Some z \<or> z \<in> set zs \<and> in_zone (z_name z) name) \<and>
         (\<forall>y \<in> set zs. in_zone (z_name y) name \<longrightarrow> length (z_name y) \<le> length (z_name z)) \<and>
         (\<forall>b. best = Some b \<longrightarrow> length (z_name b) \<le> length (z_name z)))"
proof (induction zs arbitrary: best)
  case (Cons y zs)
  note ih = Cons.IH [of "better_zone name best y", OF Cons.prems [simplified]]
  show ?case
  proof (cases "in_zone (z_name y) name")
    case False
    then have "better_zone name best y = best" by (simp add: better_zone_def in_zone_def Let_def)
    with ih False show ?thesis by (cases res) auto
  next
    case True
    then have b: "better_zone name best y = (case best of None \<Rightarrow> Some y
         | Some b \<Rightarrow> if length (z_name b) < length (z_name y) then Some y else best)"
      by (simp add: better_zone_def in_zone_def Let_def)
    show ?thesis
      using ih True unfolding b by (cases res; cases best) (auto split: if_splits)
  qed
qed (auto split: option.splits)

lemma find_zone_by_name_iff:
  "case find_zone_by_name name d of
     None \<Rightarrow> \<forall>y \<in> set (zones d). \<not> in_zone (z_name y) (py_lower name)
   | Some z \<Rightarrow> z \<in> set (zones d) \<and> in_zone (z_name z) (py_lower name) \<and>
       (\<forall>y \<in> set (zones d). in_zone (z_name y) (py_lower name) \<longrightarrow> length (z_name y) \<le> length (z_name z))"
  using better_zone_fold [OF refl, where name = "py_lower name" and best = None and zs = "zones d"]
  by (simp add: find_zone_by_name_def split: option.splits)

lemma parse_query_lower: "parse_query buf = Inr q \<Longrightarrow> py_lower (q_qname q) = q_qname q"
  by (auto simp: parse_query_def Let_def bindE_Inr_iff dest: decode_name_bounds(4) split: if_splits)

subsection \<open>Answers\<close>

lemma rows_fit:
  assumes "reachable d" and "z \<in> set (zones d)" and "set rows \<subseteq> set (records_of d (z_name z) (z_current_version z))"
  obtains ws where "mapE rr_wire rows = Inr ws" "list_all2 (\<lambda>x b. data_wire x = Inr b) (map row_data rows) ws"
proof -
  note wf = reachable_wf [OF assms(1)]
  have "row_data r \<in> content d (z_name z) (z_current_version z)" if "r \<in> set rows" for r
    using assms(3) that by (auto simp: content_def)
  then have "\<forall>x \<in> set (map row_data rows). data_fits x"
    using content_fits [OF wf current_in_vids [OF wf assms(2)]] by (simp only: set_map) blast
  from fits_wires [OF this] obtain ws where ws: "map data_wire (map row_data rows) = map Inr ws" by blast
  have "mapE rr_wire rows = Inr ws \<and> list_all2 (\<lambda>x b. data_wire x = Inr b) (map row_data rows) ws"
    using ws
  proof (induction rows arbitrary: ws)
    case (Cons r rows)
    then obtain w ws' where "ws = w # ws'" by (cases ws) auto
    with Cons show ?case by (auto simp: rr_wire_data)
  qed simp
  then show ?thesis using that by blast
qed

text \<open>The rows of an answer, in the order of the source's query.\<close>

definition answer_rows :: "query \<Rightarrow> db \<Rightarrow> zone_row \<Rightarrow> record_row list" where
  "answer_rows q d z =
     (let named = rows_named d (z_name z) (z_current_version z) (q_qname q) in
      if q_qtype q = TYPE_ANY then sort_key (\<lambda>r. (r_rtype r, r_rdata r)) named
      else sort_key r_rdata (filter (\<lambda>r. Some (r_rtype r) = TYPES_BY_VALUE (q_qtype q)) named))"

lemma answer_question_rows:
  assumes "find_zone_by_name (q_qname q) d = Some z" and "in_zone (z_name z) (q_qname q)"
    and "q_qclass q = CLASS_IN \<or> q_qclass q = CLASS_ANY" and "q_qtype q \<noteq> TYPE_AXFR" "q_qtype q \<noteq> TYPE_IXFR"
    and "q_qtype q = TYPE_ANY \<or> TYPES_BY_VALUE (q_qtype q) \<noteq> None" and "mapE rr_wire (answer_rows q d z) = Inr ws"
  shows "answer_question q d = Inr (Reply
    (if answer_rows q d z = [] \<and> rows_named d (z_name z) (z_current_version z) (q_qname q) = [] then RCODE_NXDOMAIN
     else RCODE_NOERROR) (Some (concat ws)))"
proof -
  let ?named = "rows_named d (z_name z) (z_current_version z) (q_qname q)"
  have iz: "\<not> (q_qname q \<noteq> z_name z \<and> \<not> ends_with (q_qname q) (''.'' @ z_name z))"
    using assms(2) by (simp add: in_zone_def)
  have a: "answer_question q d =
      (if answer_rows q d z = [] then Inr (Reply (if ?named \<noteq> [] then RCODE_NOERROR else RCODE_NXDOMAIN) (Some []))
       else bindE (mapE rr_wire (answer_rows q d z)) (\<lambda>ws. Inr (Reply RCODE_NOERROR (Some (concat ws)))))"
    using assms(3-6) iz unfolding answer_question_def answer_rows_def Let_def assms(1) option.case by auto
  show ?thesis
  proof (cases "answer_rows q d z = []")
    case True
    with assms(7) have "ws = []" by simp
    with True show ?thesis by (simp add: a)
  next
    case False
    then show ?thesis by (simp add: a assms(7))
  qed
qed

text \<open>
  The zone that answers a name is the longest zone of the database that encloses it, and there
  is none exactly when no zone does.
\<close>

theorem longest_zone_answers:
  "case find_zone_by_name name d of
     None \<Rightarrow> \<forall>y \<in> set (zones d). \<not> in_zone (z_name y) (py_lower name)
   | Some z \<Rightarrow> z \<in> set (zones d) \<and> in_zone (z_name z) (py_lower name) \<and>
       (\<forall>y \<in> set (zones d). in_zone (z_name y) (py_lower name) \<longrightarrow> length (z_name y) \<le> length (z_name z))"
  by (rule find_zone_by_name_iff)

theorem longest_zone_answers_witness:
  "\<exists>z. find_zone_by_name ''w.a.'' demo3 = Some z \<and> length ''a.'' \<le> length (z_name z)"
proof -
  have "find_zone_by_name ''w.a.'' demo3 \<noteq> None" "\<exists>y \<in> set (zones demo3). z_name y = ''a.'' \<and> in_zone (z_name y) (py_lower ''w.a.'')"
    by code_simp+
  with longest_zone_answers [where name = "''w.a.''" and d = demo3] show ?thesis by (auto split: option.splits)
qed

text \<open>
  C29.  An ordinary query is answered from the current version, completely and without error: in a
  reachable database, a parsed query of class IN or ANY for a supported type gets exactly the
  records of the longest enclosing zone's current version with that name and type (all types for
  ANY), each of which a parser reads back from the answer; the code is NXDOMAIN exactly when
  the version has no record of that name, and NOERROR otherwise.
\<close>

theorem query_answer_exact:
  assumes "reachable d" and "parse_query buf = Inr q" and "find_zone_by_name (q_qname q) d = Some z"
    and "q_qclass q = CLASS_IN \<or> q_qclass q = CLASS_ANY" and "q_qtype q \<noteq> TYPE_AXFR" and "q_qtype q \<noteq> TYPE_IXFR"
    and "q_qtype q = TYPE_ANY \<or> TYPES_BY_VALUE (q_qtype q) \<noteq> None"
  shows "\<exists>rcode blob xs. answer_question q d = Inr (Reply rcode (Some blob)) \<and>
    set xs = {x \<in> content d (z_name z) (z_current_version z). fst (delta_key x) = q_qname q \<and>
      (q_qtype q = TYPE_ANY \<or> Some (snd (delta_key x)) = TYPES_BY_VALUE (q_qtype q))} \<and>
    (\<forall>pre post. parse_rrs (pre @ blob @ post) (length pre) (length xs) = Inr (map data_rr xs, length pre + length blob)) \<and>
    rcode = (if \<exists>x \<in> content d (z_name z) (z_current_version z). fst (delta_key x) = q_qname q
      then RCODE_NOERROR else RCODE_NXDOMAIN)"
proof -
  let ?rows = "answer_rows q d z" and ?C = "content d (z_name z) (z_current_version z)"
  let ?named = "rows_named d (z_name z) (z_current_version z) (q_qname q)"
  have z: "z \<in> set (zones d)" "in_zone (z_name z) (q_qname q)"
    using find_zone_by_name_iff [where name = "q_qname q" and d = d] assms(3) parse_query_lower [OF assms(2)] by auto
  have sub: "set ?rows \<subseteq> set (records_of d (z_name z) (z_current_version z))"
    by (auto simp: answer_rows_def rows_named_def Let_def)
  obtain ws where ws: "mapE rr_wire ?rows = Inr ws" "list_all2 (\<lambda>x b. data_wire x = Inr b) (map row_data ?rows) ws"
    by (rule rows_fit [OF assms(1) z(1) sub])
  have len: "length ws = length ?rows" using list_all2_lengthD [OF ws(2)] by simp
  have "parse_rrs (pre @ concat ws @ post) (length pre) (length (map row_data ?rows)) =
      Inr (map data_rr (map row_data ?rows), length pre + length (concat ws))" for pre post
  proof -
    have "holds_at (pre @ concat ws @ post) (length pre) (concat ws)" by (simp add: holds_at_def)
    from parse_rrs_data [OF ws(2) this] len show ?thesis by simp
  qed
  moreover have named: "row_data ` set ?named = {x \<in> ?C. fst (delta_key x) = q_qname q}"
    by (force simp: rows_named_def content_def delta_key_def row_data_def)
  moreover have "row_data ` set ?rows = {x \<in> ?C. fst (delta_key x) = q_qname q \<and>
      (q_qtype q = TYPE_ANY \<or> Some (snd (delta_key x)) = TYPES_BY_VALUE (q_qtype q))}"
    by (force simp: answer_rows_def Let_def rows_named_def content_def delta_key_def row_data_def)
  moreover have "(?rows = [] \<and> ?named = []) \<longleftrightarrow> \<not> (\<exists>x \<in> ?C. fst (delta_key x) = q_qname q)"
  proof -
    have "?named = [] \<Longrightarrow> ?rows = []" by (simp add: answer_rows_def Let_def)
    moreover have "?named = [] \<longleftrightarrow> {x \<in> ?C. fst (delta_key x) = q_qname q} = {}"
      unfolding named [symmetric] by simp
    ultimately show ?thesis by auto
  qed
  ultimately show ?thesis
    using answer_question_rows [OF assms(3) z(2) assms(4-7) ws(1)]
    by (intro exI [of _ "if \<exists>x \<in> ?C. fst (delta_key x) = q_qname q then RCODE_NOERROR else RCODE_NXDOMAIN"]
        exI [of _ "concat ws"] exI [of _ "map row_data ?rows"]) simp
qed

definition demo_soa_query :: bytes where
  "demo_soa_query = [0, 1, 1, 0, 0, 1, 0, 0, 0, 0, 0, 0, 1, 97, 0, 0, 6, 0, 1]"

theorem query_answer_exact_witness:
  "\<exists>q z blob. parse_query demo_soa_query = Inr q \<and> find_zone_by_name (q_qname q) demo3 = Some z \<and>
    (\<exists>rcode. answer_question q demo3 = Inr (Reply rcode (Some blob)))"
proof -
  have q: "parse_query demo_soa_query = Inr (projr (parse_query demo_soa_query))" by code_simp
  have z: "find_zone_by_name (q_qname (projr (parse_query demo_soa_query))) demo3 = Some demo_zone" by code_simp
  have c: "q_qclass (projr (parse_query demo_soa_query)) = CLASS_IN \<or> q_qclass (projr (parse_query demo_soa_query)) = CLASS_ANY"
    "q_qtype (projr (parse_query demo_soa_query)) \<noteq> TYPE_AXFR" "q_qtype (projr (parse_query demo_soa_query)) \<noteq> TYPE_IXFR"
    "q_qtype (projr (parse_query demo_soa_query)) = TYPE_ANY \<or> TYPES_BY_VALUE (q_qtype (projr (parse_query demo_soa_query))) \<noteq> None"
    by code_simp+
  from query_answer_exact [OF demo_reachable(3) q z c] q z show ?thesis by blast
qed

definition demo_any_query :: bytes where
  "demo_any_query = [0, 1, 1, 0, 0, 1, 0, 0, 0, 0, 0, 0, 1, 97, 0, 0, 255, 0, 1]"

text \<open>
  An answer announces one record whatever their number: the records are joined to a single
  blob before they are counted, so the UDP reply to an ordinary query whose answer fits a datagram is
  a header with ANCOUNT 1, the question and the whole blob; a client that trusts the header reads
  the first record and takes the rest for authority and additional data.
\<close>

theorem multi_answer_miscounted:
  assumes q: "parse_query data = Inr q" "q_qtype q \<noteq> TYPE_AXFR" "q_qtype q \<noteq> TYPE_IXFR"
    and a: "answer_question q d = Inr (Reply rcode (Some blob))" "blob \<noteq> []"
    and len: "12 + length (q_raw_question q) + length blob \<le> MAX_UDP_PAYLOAD"
  shows "\<exists>h. udp_handle data d = Inr (h @ q_raw_question q @ blob) \<and> length h = 12 \<and> take 2 (drop 6 h) = [0, 1]"
proof -
  let ?h = "header_wire (q_id q) (FLAG_QR OR FLAG_AA) 1 1 0 0"
  from a have r: "rcode = 0"
    by (auto simp: answer_question_def bindE_Inr_iff Let_def split: if_splits option.splits)
  have "simple_reply q (Reply rcode (Some blob)) = Inr (?h @ q_raw_question q @ blob)"
    using parse_query_id [OF q(1)] a(2)
    by (simp add: simple_reply_def make_simple_response_def build_header_def r)
  moreover have l: "length ?h = 12" "take 2 (drop 6 ?h) = [0, 1]" by (simp_all add: header_wire_def be16_def)
  ultimately have "udp_response q d = Inr (?h @ q_raw_question q @ blob)"
    using q a len by (simp add: udp_response_def)
  with q(1) l show ?thesis by (simp add: udp_handle_def)
qed

text \<open>A query of type ANY for the apex of the demo zone, which has two records.\<close>

theorem multi_answer_miscounted_witness:
  "length (rows_named demo3 ''a.'' 1 ''a.'') = 2 \<and>
   bindE (udp_handle demo_any_query demo3) (\<lambda>r. bindE (parse_message r) (\<lambda>m. Inr (length (m_answers m), 60 < length r))) =
     Inr (1, True) \<and>
   (\<exists>r. udp_handle demo_any_query demo3 = Inr r \<and> take 2 (drop 6 r) = [0, 1])"
proof (intro conjI)
  show "length (rows_named demo3 ''a.'' 1 ''a.'') = 2" by code_simp
  show "bindE (udp_handle demo_any_query demo3) (\<lambda>r. bindE (parse_message r) (\<lambda>m. Inr (length (m_answers m), 60 < length r))) =
     Inr (1, True)" by code_simp
  let ?q = "projr (parse_query demo_any_query)"
  let ?b = "concat (projr (mapE rr_wire (rows_named demo3 ''a.'' 1 ''a.'')))"
  have 1: "parse_query demo_any_query = Inr ?q" "q_qtype ?q \<noteq> TYPE_AXFR" "q_qtype ?q \<noteq> TYPE_IXFR" by code_simp+
  have 2: "answer_question ?q demo3 = Inr (Reply 0 (Some ?b))" "?b \<noteq> []" "12 + length (q_raw_question ?q) + length ?b \<le> MAX_UDP_PAYLOAD"
    by code_simp+
  from multi_answer_miscounted [OF 1 2] show "\<exists>r. udp_handle demo_any_query demo3 = Inr r \<and> take 2 (drop 6 r) = [0, 1]"
    by auto
qed

end
