(* ===== verification/Reads.thy ===== *)
theory Reads
  imports Query_Theorems History
begin

text \<open>
  Reads outside a transaction.  A connection in autocommit mode sees the newest committed
  database at every \<open>SELECT\<close>, so that \<open>DNSLogic.answer_question\<close> and \<open>Database.zone_metadata\<close>, which
  issue several, may read several databases.  The definitions below take one database per statement; with
  the same one they are the atomic definitions of \<open>Endpoints\<close> and \<open>Store\<close>.
\<close>

subsection \<open>One database per statement\<close>

definition answer_question_reads :: "query \<Rightarrow> db \<Rightarrow> db \<Rightarrow> db \<Rightarrow> exn + answer" where
  "answer_question_reads q d0 d1 d2 =
     (if q_qclass q \<noteq> CLASS_IN \<and> q_qclass q \<noteq> CLASS_ANY then Inr (Reply RCODE_REFUSED None)
      else case find_zone_by_name (q_qname q) d0 of
        None \<Rightarrow> Inr (Reply RCODE_REFUSED None)
      | Some z \<Rightarrow>
        let zone = z_name z; version = z_current_version z;
            named = rows_named d1 zone version (q_qname q) in
        if q_qname q \<noteq> zone \<and> \<not> ends_with (q_qname q) (''.'' @ zone) then Inr (Reply RCODE_REFUSED None)
        else if q_qtype q = TYPE_AXFR \<or> q_qtype q = TYPE_IXFR then Inr Transfer_Signal
        else if q_qtype q \<noteq> TYPE_ANY \<and> TYPES_BY_VALUE (q_qtype q) = None then Inr (Reply RCODE_NOTIMP None)
        else
          let rows = (if q_qtype q = TYPE_ANY then sort_key (\<lambda>r. (r_rtype r, r_rdata r)) named
                else sort_key r_rdata (filter (\<lambda>r. Some (r_rtype r) = TYPES_BY_VALUE (q_qtype q)) named)) in
          if rows = [] then
            Inr (Reply (if rows_named d2 zone version (q_qname q) \<noteq> [] then RCODE_NOERROR else RCODE_NXDOMAIN) (Some []))
          else bindE (mapE rr_wire rows) (\<lambda>ws. Inr (Reply RCODE_NOERROR (Some (concat ws)))))"

definition zone_metadata_reads :: "string \<Rightarrow> db \<Rightarrow> db \<Rightarrow> db \<Rightarrow> exn + zone_meta" where
  "zone_metadata_reads zone d0 d1 d2 =
     bindE (get_zone_row zone d0) (\<lambda>z.
     bindE (get_soa zone (z_current_version z) d1) (\<lambda>soa.
     bindE (mapE (\<lambda>r. target_of (r_rdata r))
         (sort_key r_rdata
           (filter (\<lambda>r. r_name r = zone \<and> r_rtype r = ''NS'') (records_of d2 zone (z_current_version z))))) (\<lambda>ns.
       Inr \<lparr>zm_row = z, zm_soa = r_rdata soa, zm_ns = ns\<rparr>)))"

lemma answer_question_atomic: "answer_question_reads q d d d = answer_question q d"
  unfolding answer_question_reads_def answer_question_def Let_def by (rule refl)

lemma zone_metadata_atomic: "zone_metadata_reads zone d d d = zone_metadata zone d"
  by (simp add: zone_metadata_reads_def zone_metadata_def)

subsection \<open>A version that is still there was not touched\<close>

lemma version_kept:
  assumes "reachable d" and "steps d d'" and "z \<in> set (zones d)" and "n \<le> z_current_version z"
    and "n \<in> vids d' (z_name z)"
  shows "n \<in> vids d (z_name z)" and "records_of d' (z_name z) n = records_of d (z_name z) n"
  using steps_kept [OF assms(2,1)] assms(3-5) unfolding history_kept_def same_versions_def by (auto 0 3)

lemma current_version_kept:
  assumes "reachable d0" and "steps d0 d1" and "steps d1 d2" and "z \<in> set (zones d0)"
    and "z_current_version z \<in> vids d2 (z_name z)"
  shows "records_of d1 (z_name z) (z_current_version z) = records_of d0 (z_name z) (z_current_version z)"
    and "records_of d2 (z_name z) (z_current_version z) = records_of d0 (z_name z) (z_current_version z)"
proof -
  obtain z' where z': "z' \<in> set (zones d1)" "z_name z' = z_name z" "z_current_version z \<le> z_current_version z'"
    using steps_kept [OF assms(2,1)] assms(4) unfolding zones_kept_def by blast
  note 2 = version_kept [OF steps_reachable [OF assms(2,1)] assms(3) z'(1,3)]
  note 1 = version_kept [OF assms(1,2,4) order_refl]
  have v: "z_current_version z \<in> vids d1 (z_name z)" using 2(1) assms(5) z'(2) by simp
  show r1: "records_of d1 (z_name z) (z_current_version z) = records_of d0 (z_name z) (z_current_version z)"
    by (rule 1(2) [OF v])
  show "records_of d2 (z_name z) (z_current_version z) = records_of d0 (z_name z) (z_current_version z)"
    using 2(2) assms(5) z'(2) r1 by simp
qed

lemma zone_found: "find_zone_by_name name d = Some z \<Longrightarrow> z \<in> set (zones d)"
proof -
  have "foldl (better_zone n) best zs = Some z \<Longrightarrow> z \<in> set zs \<or> best = Some z" for n best zs
    by (induction zs arbitrary: best) (fastforce simp: better_zone_def Let_def split: option.splits if_splits)+
  then show "find_zone_by_name name d = Some z \<Longrightarrow> z \<in> set (zones d)"
    unfolding find_zone_by_name_def by blast
qed

text \<open>
  C28.  Queries are linearizable as long as the version they answer from is retained: whatever
  transactions of other processes commit between the statements of \<open>answer_question\<close>, if the
  version that was current at the first statement still exists at the last, the answer is the one of
  the database at the first statement.
\<close>

theorem query_linearizable:
  assumes "reachable d0" and "steps d0 d1" and "steps d1 d2"
    and "\<And>z. find_zone_by_name (q_qname q) d0 = Some z \<Longrightarrow> z_current_version z \<in> vids d2 (z_name z)"
  shows "answer_question_reads q d0 d1 d2 = answer_question q d0"
proof (cases "find_zone_by_name (q_qname q) d0")
  case None
  then show ?thesis by (simp add: answer_question_reads_def answer_question_def)
next
  case (Some z)
  note kept = current_version_kept [OF assms(1-3) zone_found [OF Some] assms(4) [OF Some]]
  have named: "rows_named d1 (z_name z) (z_current_version z) n = rows_named d0 (z_name z) (z_current_version z) n"
    "rows_named d2 (z_name z) (z_current_version z) n = rows_named d0 (z_name z) (z_current_version z) n" for n
    by (simp_all add: rows_named_def kept)
  show ?thesis unfolding answer_question_reads_def answer_question_def Some option.case Let_def named by (rule refl)
qed

lemma metadata_linearizable:
  assumes "reachable d0" and "steps d0 d1" and "steps d1 d2"
    and "\<And>z. find_zone d0 zone = Some z \<Longrightarrow> z_current_version z \<in> vids d2 zone"
  shows "zone_metadata_reads zone d0 d1 d2 = zone_metadata zone d0"
proof (cases "find_zone d0 zone")
  case (Some z)
  note z = find_zone_name [OF Some]
  have "z_current_version z \<in> vids d2 (z_name z)" using assms(4) [OF Some] z by simp
  with current_version_kept [OF assms(1-3) _ this] z
  show ?thesis by (simp add: zone_metadata_reads_def zone_metadata_def get_zone_row_def get_soa_def find_soa_def Some)
qed (simp add: zone_metadata_reads_def zone_metadata_def get_zone_row_def)

subsection \<open>A run that removes the version between two statements\<close>

text \<open>
  From the demo zone at version 1: a publish of version 2, a change of the retention count to 1, and the
  cleanup that follows remove version 1, which a query had just read as the current one.
\<close>

definition demo_publish2 :: "(string \<times> json) list" where
  "demo_publish2 = [(''requestId'', JStr ''r2''), (''baseSerial'', JInt 2), (''nextSerial'', JInt 3),
     (''changes'', JList (demo_ops 3))]"

definition demo4 :: db where
  "demo4 =
     \<lparr>zones = [\<lparr>z_name = ''a.'', z_current_serial = 3, z_current_version = 2,
     z_retain_versions = 10, z_record_count = 3, z_rrset_count = 3, z_created_at = 1000, z_updated_at =
     4000\<rparr>], versions = [\<lparr>v_zone = ''a.'', v_version_id = 0, v_serial = 1, v_request_id =
     ''__create__'', v_created_at = 1000\<rparr>, \<lparr>v_zone = ''a.'', v_version_id = 1, v_serial =
     2, v_request_id = ''r1'', v_created_at = 3000\<rparr>, \<lparr>v_zone = ''a.'', v_version_id = 2,
     v_serial = 3, v_request_id = ''r2'', v_created_at = 4000\<rparr>], records = [\<lparr>r_zone =
     ''a.'', r_version_id = 0, r_name = ''a.'', r_rtype = ''SOA'', r_ttl = 3600, r_rdata = Soa
     \<lparr>s_mname = ''n.a.'', s_rname = ''h.a.'', s_serial = 1, s_refresh = 7200, s_retry = 3600,
     s_expire = 1209600, s_minimum = 3600\<rparr>, r_rdata_wire = [1, 110, 1, 97, 0, 1, 104, 1, 97, 0,
     0, 0, 0, 1, 0, 0, 28, 32, 0, 0, 14, 16, 0, 18, 117, 0, 0, 0, 14, 16]\<rparr>, \<lparr>r_zone =
     ''a.'', r_version_id = 0, r_name = ''a.'', r_rtype = ''NS'', r_ttl = 3600, r_rdata = Target
     ''n.a.'', r_rdata_wire = [1, 110, 1, 97, 0]\<rparr>, \<lparr>r_zone = ''a.'', r_version_id = 1,
     r_name = ''a.'', r_rtype = ''NS'', r_ttl = 3600, r_rdata = Target ''n.a.'', r_rdata_wire = [1, 110,
     1, 97, 0]\<rparr>, \<lparr>r_zone = ''a.'', r_version_id = 1, r_name = ''w.a.'', r_rtype = ''A'',
     r_ttl = 3600, r_rdata = Address ''192.0.2.1'', r_rdata_wire = [192, 0, 2, 1]\<rparr>,
     \<lparr>r_zone = ''a.'', r_version_id = 1, r_name = ''a.'', r_rtype = ''SOA'', r_ttl = 3600,
     r_rdata = Soa \<lparr>s_mname = ''n.a.'', s_rname = ''h.a.'', s_serial = 2, s_refresh = 7200,
     s_retry = 3600, s_expire = 1209600, s_minimum = 3600\<rparr>, r_rdata_wire = [1, 110, 1, 97, 0, 1,
     104, 1, 97, 0, 0, 0, 0, 2, 0, 0, 28, 32, 0, 0, 14, 16, 0, 18, 117, 0, 0, 0, 14, 16]\<rparr>,
     \<lparr>r_zone = ''a.'', r_version_id = 2, r_name = ''a.'', r_rtype = ''NS'', r_ttl = 3600, r_rdata
     = Target ''n.a.'', r_rdata_wire = [1, 110, 1, 97, 0]\<rparr>, \<lparr>r_zone = ''a.'', r_version_id
     = 2, r_name = ''w.a.'', r_rtype = ''A'', r_ttl = 3600, r_rdata = Address ''192.0.2.1'',
     r_rdata_wire = [192, 0, 2, 1]\<rparr>, \<lparr>r_zone = ''a.'', r_version_id = 2, r_name = ''a.'',
     r_rtype = ''SOA'', r_ttl = 3600, r_rdata = Soa \<lparr>s_mname = ''n.a.'', s_rname = ''h.a.'',
     s_serial = 3, s_refresh = 7200, s_retry = 3600, s_expire = 1209600, s_minimum = 3600\<rparr>,
     r_rdata_wire = [1, 110, 1, 97, 0, 1, 104, 1, 97, 0, 0, 0, 0, 3, 0, 0, 28, 32, 0, 0, 14, 16, 0, 18,
     117, 0, 0, 0, 14, 16]\<rparr>], changes = [\<lparr>c_zone = ''a.'', c_version_id = 1, c_seq = 1,
     c_op = DEL, c_name = ''a.'', c_rtype = ''SOA'', c_ttl = 3600, c_rdata = Soa \<lparr>s_mname =
     ''n.a.'', s_rname = ''h.a.'', s_serial = 1, s_refresh = 7200, s_retry = 3600, s_expire = 1209600,
     s_minimum = 3600\<rparr>, c_rdata_wire = [1, 110, 1, 97, 0, 1, 104, 1, 97, 0, 0, 0, 0, 1, 0, 0, 28,
     32, 0, 0, 14, 16, 0, 18, 117, 0, 0, 0, 14, 16]\<rparr>, \<lparr>c_zone = ''a.'', c_version_id = 1,
     c_seq = 2, c_op = ADD, c_name = ''a.'', c_rtype = ''SOA'', c_ttl = 3600, c_rdata = Soa
     \<lparr>s_mname = ''n.a.'', s_rname = ''h.a.'', s_serial = 2, s_refresh = 7200, s_retry = 3600,
     s_expire = 1209600, s_minimum = 3600\<rparr>, c_rdata_wire = [1, 110, 1, 97, 0, 1, 104, 1, 97, 0,
     0, 0, 0, 2, 0, 0, 28, 32, 0, 0, 14, 16, 0, 18, 117, 0, 0, 0, 14, 16]\<rparr>, \<lparr>c_zone =
     ''a.'', c_version_id = 1, c_seq = 3, c_op = ADD, c_name = ''w.a.'', c_rtype = ''A'', c_ttl = 3600,
     c_rdata = Address ''192.0.2.1'', c_rdata_wire = [192, 0, 2, 1]\<rparr>, \<lparr>c_zone = ''a.'',
     c_version_id = 2, c_seq = 1, c_op = DEL, c_name = ''a.'', c_rtype = ''SOA'', c_ttl = 3600, c_rdata
     = Soa \<lparr>s_mname = ''n.a.'', s_rname = ''h.a.'', s_serial = 2, s_refresh = 7200, s_retry =
     3600, s_expire = 1209600, s_minimum = 3600\<rparr>, c_rdata_wire = [1, 110, 1, 97, 0, 1, 104, 1,
     97, 0, 0, 0, 0, 2, 0, 0, 28, 32, 0, 0, 14, 16, 0, 18, 117, 0, 0, 0, 14, 16]\<rparr>, \<lparr>c_zone
     = ''a.'', c_version_id = 2, c_seq = 2, c_op = ADD, c_name = ''a.'', c_rtype = ''SOA'', c_ttl =
     3600, c_rdata = Soa \<lparr>s_mname = ''n.a.'', s_rname = ''h.a.'', s_serial = 3, s_refresh = 7200,
     s_retry = 3600, s_expire = 1209600, s_minimum = 3600\<rparr>, c_rdata_wire = [1, 110, 1, 97, 0, 1,
     104, 1, 97, 0, 0, 0, 0, 3, 0, 0, 28, 32, 0, 0, 14, 16, 0, 18, 117, 0, 0, 0, 14, 16]\<rparr>],
     publish_requests = [\<lparr>p_zone = ''a.'', p_request_id = ''r1'', p_fingerprint = ''f'', p_status
     = COMMITTED 1 2, p_base_serial = 1, p_next_serial = 2, p_created_at = 3000\<rparr>, \<lparr>p_zone
     = ''a.'', p_request_id = ''r2'', p_fingerprint = ''f'', p_status = COMMITTED 2 3, p_base_serial =
     2, p_next_serial = 3, p_created_at = 4000\<rparr>], keys = [\<lparr>k_zone = ''a.'', k_key_id =
     ''k1'', k_gen = 0, k_key_name = ''k.'', k_secret = [1, 2, 3], k_state = ACTIVE, k_created_at =
     2000, k_expires_at = None, k_revoked_at = None\<rparr>], transfer_refs = [], cleanup_tasks =
     [\<lparr>t_task_id = 1, t_zone = ''a.'', t_state = PENDING, t_token = None, t_leased_at = None,
     t_lease_expires = None, t_attempts = 0, t_last_error = None, t_created_at = 3000, t_finished_at =
     None\<rparr>, \<lparr>t_task_id = 2, t_zone = ''a.'', t_state = PENDING, t_token = None,
     t_leased_at = None, t_lease_expires = None, t_attempts = 0, t_last_error = None, t_created_at =
     4000, t_finished_at = None\<rparr>], next_task_id = 3\<rparr>"

definition demo5 :: db where
  "demo5 = snd (do_PUT (demo_env [(''retainVersions'', JInt 1)] 5000) ''/v1/zones/a./retention'' (Some ''1'') [0] demo4)"

definition demo6 :: db where
  "demo6 = snd (claim_cleanup_task ''w1'' 10 demo5)"

definition demo7 :: db where
  "demo7 =
     \<lparr>zones = [\<lparr>z_name = ''a.'', z_current_serial = 3, z_current_version = 2,
     z_retain_versions = 1, z_record_count = 3, z_rrset_count = 3, z_created_at = 1000, z_updated_at =
     5000\<rparr>], versions = [\<lparr>v_zone = ''a.'', v_version_id = 2, v_serial = 3, v_request_id =
     ''r2'', v_created_at = 4000\<rparr>], records = [\<lparr>r_zone = ''a.'', r_version_id = 2, r_name
     = ''a.'', r_rtype = ''NS'', r_ttl = 3600, r_rdata = Target ''n.a.'', r_rdata_wire = [1, 110, 1, 97,
     0]\<rparr>, \<lparr>r_zone = ''a.'', r_version_id = 2, r_name = ''w.a.'', r_rtype = ''A'', r_ttl =
     3600, r_rdata = Address ''192.0.2.1'', r_rdata_wire = [192, 0, 2, 1]\<rparr>, \<lparr>r_zone =
     ''a.'', r_version_id = 2, r_name = ''a.'', r_rtype = ''SOA'', r_ttl = 3600, r_rdata = Soa
     \<lparr>s_mname = ''n.a.'', s_rname = ''h.a.'', s_serial = 3, s_refresh = 7200, s_retry = 3600,
     s_expire = 1209600, s_minimum = 3600\<rparr>, r_rdata_wire = [1, 110, 1, 97, 0, 1, 104, 1, 97, 0,
     0, 0, 0, 3, 0, 0, 28, 32, 0, 0, 14, 16, 0, 18, 117, 0, 0, 0, 14, 16]\<rparr>], changes =
     [\<lparr>c_zone = ''a.'', c_version_id = 2, c_seq = 1, c_op = DEL, c_name = ''a.'', c_rtype =
     ''SOA'', c_ttl = 3600, c_rdata = Soa \<lparr>s_mname = ''n.a.'', s_rname = ''h.a.'', s_serial = 2,
     s_refresh = 7200, s_retry = 3600, s_expire = 1209600, s_minimum = 3600\<rparr>, c_rdata_wire = [1,
     110, 1, 97, 0, 1, 104, 1, 97, 0, 0, 0, 0, 2, 0, 0, 28, 32, 0, 0, 14, 16, 0, 18, 117, 0, 0, 0, 14,
     16]\<rparr>, \<lparr>c_zone = ''a.'', c_version_id = 2, c_seq = 2, c_op = ADD, c_name = ''a.'',
     c_rtype = ''SOA'', c_ttl = 3600, c_rdata = Soa \<lparr>s_mname = ''n.a.'', s_rname = ''h.a.'',
     s_serial = 3, s_refresh = 7200, s_retry = 3600, s_expire = 1209600, s_minimum = 3600\<rparr>,
     c_rdata_wire = [1, 110, 1, 97, 0, 1, 104, 1, 97, 0, 0, 0, 0, 3, 0, 0, 28, 32, 0, 0, 14, 16, 0, 18,
     117, 0, 0, 0, 14, 16]\<rparr>], publish_requests = [\<lparr>p_zone = ''a.'', p_request_id = ''r1'',
     p_fingerprint = ''f'', p_status = COMMITTED 1 2, p_base_serial = 1, p_next_serial = 2, p_created_at
     = 3000\<rparr>, \<lparr>p_zone = ''a.'', p_request_id = ''r2'', p_fingerprint = ''f'', p_status =
     COMMITTED 2 3, p_base_serial = 2, p_next_serial = 3, p_created_at = 4000\<rparr>], keys =
     [\<lparr>k_zone = ''a.'', k_key_id = ''k1'', k_gen = 0, k_key_name = ''k.'', k_secret = [1, 2, 3],
     k_state = ACTIVE, k_created_at = 2000, k_expires_at = None, k_revoked_at = None\<rparr>],
     transfer_refs = [], cleanup_tasks = [\<lparr>t_task_id = 1, t_zone = ''a.'', t_state = TASK_DONE,
     t_token = Some ''w1'', t_leased_at = Some 10, t_lease_expires = Some 40, t_attempts = 1,
     t_last_error = None, t_created_at = 3000, t_finished_at = Some 9000\<rparr>, \<lparr>t_task_id = 2,
     t_zone = ''a.'', t_state = PENDING, t_token = None, t_leased_at = None, t_lease_expires = None,
     t_attempts = 0, t_last_error = None, t_created_at = 4000, t_finished_at = None\<rparr>,
     \<lparr>t_task_id = 3, t_zone = ''a.'', t_state = PENDING, t_token = None, t_leased_at = None,
     t_lease_expires = None, t_attempts = 0, t_last_error = None, t_created_at = 5000, t_finished_at =
     None\<rparr>], next_task_id = 4\<rparr>"

lemma demo4_run: "snd (demo_post ''/v1/zones/a./publish'' demo_publish2 4000 demo3) = demo4"
  by code_simp

lemma demo7_run: "snd (run_cleanup 9000 9000 (the (fst (claim_cleanup_task ''w1'' 10 demo5))) demo6) = demo7"
  by code_simp

lemma demo_steps_4567: "steps demo3 demo4" "steps demo3 demo7"
proof -
  have "ttl_guard (demo_env demo_publish2 4000) (Some ''1'') [0]" by code_simp
  with step_post [OF prod.collapse [symmetric]] have 4: "step demo3 Request demo4"
    unfolding demo4_run [symmetric] demo_post_def by blast
  have 5: "step demo4 Request demo5" unfolding demo5_def by (rule step_put [OF prod.collapse [symmetric]])
  have 6: "step demo5 Claim demo6" unfolding demo6_def by (rule step_claim [OF prod.collapse [symmetric]])
  have 7: "step demo6 (Clean 9000) demo7" unfolding demo7_run [symmetric] by (rule step_clean [OF prod.collapse [symmetric]])
  show s: "steps demo3 demo4" by (rule steps_one [OF 4])
  show "steps demo3 demo7" by (rule steps_step [OF steps_step [OF steps_step [OF s 5] 6] 7])
qed

definition demo_question :: "string \<Rightarrow> nat \<Rightarrow> query" where
  "demo_question name qtype = (projr (parse_query demo_soa_query))\<lparr>q_qname := name, q_qtype := qtype\<rparr>"

theorem query_linearizable_witness:
  "answer_question_reads (demo_question ''w.a.'' TYPE_A) demo3 demo4 demo4 = answer_question (demo_question ''w.a.'' TYPE_A) demo3"
proof (rule query_linearizable [OF demo_reachable(3) demo_steps_4567(1) steps_refl])
  fix z assume z: "find_zone_by_name (q_qname (demo_question ''w.a.'' TYPE_A)) demo3 = Some z"
  have "case find_zone_by_name (q_qname (demo_question ''w.a.'' TYPE_A)) demo3 of None \<Rightarrow> True
    | Some z \<Rightarrow> (z_name z, z_current_version z) \<in> set (map version_key (versions demo4))" by code_simp
  with z show "z_current_version z \<in> vids demo4 (z_name z)" by (auto simp: vids_def version_key_def)
qed


text \<open>
  The condition is needed.  The name \<open>w.a.\<close> has its record in version 1 and in version 2, but a query
  whose statements fall on both sides of this run is answered NXDOMAIN; the metadata of the
  zone, read in the same way, is an INTERNAL error with status 400.
\<close>

lemma query_torn_read:
  "reachable demo3 \<and> steps demo3 demo7 \<and>
   (\<exists>b. answer_question (demo_question ''w.a.'' TYPE_A) demo3 = Inr (Reply RCODE_NOERROR (Some b)) \<and> b \<noteq> [] \<and>
     answer_question (demo_question ''w.a.'' TYPE_A) demo7 = Inr (Reply RCODE_NOERROR (Some b))) \<and>
   answer_question_reads (demo_question ''w.a.'' TYPE_A) demo3 demo7 demo7 = Inr (Reply RCODE_NXDOMAIN (Some [])) \<and>
   zone_metadata_reads ''a.'' demo3 demo7 demo7 = Inl (api_error INTERNAL ''SOA missing in snapshot'' 400 [])"
proof -
  let ?q = "demo_question ''w.a.'' TYPE_A"
  have "answer_question ?q demo3 = Inr (Reply RCODE_NOERROR (Some (concat (map (projr \<circ> rr_wire) (rows_named demo3 ''a.'' 1 ''w.a.'')))))"
    "answer_question ?q demo7 = Inr (Reply RCODE_NOERROR (Some (concat (map (projr \<circ> rr_wire) (rows_named demo3 ''a.'' 1 ''w.a.'')))))"
    "concat (map (projr \<circ> rr_wire) (rows_named demo3 ''a.'' 1 ''w.a.'')) \<noteq> []"
    "answer_question_reads ?q demo3 demo7 demo7 = Inr (Reply RCODE_NXDOMAIN (Some []))"
    "zone_metadata_reads ''a.'' demo3 demo7 demo7 = Inl (api_error INTERNAL ''SOA missing in snapshot'' 400 [])"
    by code_simp+
  then show ?thesis using demo_reachable(3) demo_steps_4567(2) by blast
qed

end
