(* ===== verification/Secondary.thy ===== *)
theory Secondary
  imports Transfer_Theorems Store_Theorems Reads
begin

text \<open>
  What the service is for: a secondary that refreshes its copy of a zone, by full or incremental
  transfers at any times, holds the zone as it was at its last refresh.  The secondary is the
  reference receiver: it sees the records of a transfer only, and replaces its copy, or replays the changes
  when the second record is an SOA.
\<close>

fun secondary_apply :: "string \<Rightarrow> delta_row set \<Rightarrow> delta_row list \<Rightarrow> delta_row set" where
  "secondary_apply zone S [] = S"
| "secondary_apply zone S [soa] = S"
| "secondary_apply zone S (soa # x # xs) =
     (if delta_key x = (zone, ''SOA'') then snd (foldl (receive zone) (ADD, S) (x # xs))
      else set (butlast (soa # x # xs)))"

text \<open>
  The version, the content and the serial after a refresh.  The first is a full transfer; a later
  one comes after any run of the service, and may be incremental from the serial held.  That no
  other version has this serial can fail only when the serial space has wrapped around since.
\<close>

inductive secondary :: "string \<Rightarrow> db \<Rightarrow> int \<Rightarrow> delta_row set \<Rightarrow> int \<Rightarrow> bool" for zone where
  sec_full: "secondary zone d (tp_target_version p) (secondary_apply zone S (transfer_payload d1 p)) (tp_target_serial p)"
    if "reachable d" "authorize_transfer hm now now' ts inst rid q d = (Inr p, d1)" "tp_zone p = zone" "q_qtype q = TYPE_AXFR"
| sec_incremental:
    "secondary zone d (tp_target_version p) (secondary_apply zone S (transfer_payload d1 p)) (tp_target_serial p)"
    if "secondary zone d0 n S s" "steps d0 d" "authorize_transfer hm now now' ts inst rid q d = (Inr p, d1)"
      "tp_zone p = zone" "q_qtype q = TYPE_IXFR" "q_client_soa_serial q = Some s"
      "\<forall>v \<in> set (versions d). v_zone v = zone \<and> v_serial v = s \<longrightarrow> v_version_id v = n"

subsection \<open>One refresh\<close>

lemma authorized_current:
  assumes "authorize_transfer hm now now' ts inst rid q d = (Inr p, d1)"
  shows "\<exists>z. find_zone d (tp_zone p) = Some z \<and> tp_target_version p = z_current_version z \<and>
    tp_target_serial p = z_current_serial z"
    and "q_qtype q = TYPE_AXFR \<Longrightarrow> tp_mode p = Some MODE_AXFR"
proof -
  have "(\<exists>z. find_zone d (tp_zone p) = Some z \<and> tp_target_version p = z_current_version z \<and> tp_target_serial p = z_current_serial z) \<and>
    (\<exists>z. transfer_mode d z q = Inr (tp_mode p, tp_min_version p))"
    using assms(1)
  proof (cases rule: authorize_transfer_effect)
    case (granted p' z t key)
    then have [simp]: "p' = p" by simp
    have "tp_zone p = z_name z" "tp_target_version p = z_current_version z" "tp_target_serial p = z_current_serial z"
      using granted(8) by (metis \<open>p' = p\<close> plan.select_convs(2), metis \<open>p' = p\<close> plan.select_convs(3),
        metis \<open>p' = p\<close> plan.select_convs(4))
    with granted(3,6) find_zone_in [OF granted(3)] show ?thesis by auto
  qed simp
  then obtain z where m: "transfer_mode d z q = Inr (tp_mode p, tp_min_version p)"
    and c: "\<exists>z. find_zone d (tp_zone p) = Some z \<and> tp_target_version p = z_current_version z \<and> tp_target_serial p = z_current_serial z"
    by blast
  show "\<exists>z. find_zone d (tp_zone p) = Some z \<and> tp_target_version p = z_current_version z \<and> tp_target_serial p = z_current_serial z"
    by (rule c)
  show "q_qtype q = TYPE_AXFR \<Longrightarrow> tp_mode p = Some MODE_AXFR" using m by (simp add: transfer_mode_def)
qed

lemma apply_full:
  assumes "wf_db d" and "plan_for d q p" and "tp_mode p = Some MODE_AXFR"
  shows "secondary_apply (tp_zone p) S (transfer_payload d p) = content d (tp_zone p) (tp_target_version p)"
proof -
  from payload_axfr(2) [OF assms] obtain soa rest where pl: "transfer_payload d p = soa # rest @ [soa]"
    and soa: "soa_of (tp_zone p) (tp_target_serial p) soa" and rest: "\<forall>x \<in> set rest. delta_key x \<noteq> (tp_zone p, ''SOA'')"
    and c: "set (soa # rest) = content d (tp_zone p) (tp_target_version p)" by blast
  from assms(2) obtain v where "v \<in> set (versions d)" "v_zone v = tp_zone p" "v_version_id v = tp_target_version p"
    by (auto simp: plan_for_def)
  moreover have "\<forall>v \<in> set (versions d). \<exists>x \<in> content d (v_zone v) (v_version_id v). delta_key x = (v_zone v, ''NS'')"
    using assms(1) by (simp add: wf_db_def version_ok_def valid_content_def)
  ultimately have "\<exists>x \<in> content d (tp_zone p) (tp_target_version p). delta_key x = (tp_zone p, ''NS'')" by metis
  then have "rest \<noteq> []" using soa unfolding c [symmetric] by (auto simp: soa_of_def delta_key_def)
  then obtain y ys where "rest = y # ys" by (cases rest) auto
  with rest have "secondary_apply (tp_zone p) S (soa # rest @ [soa]) = set (butlast (soa # rest @ [soa]))" by simp
  also have "\<dots> = set (soa # rest)" by (metis append_Cons butlast_snoc)
  finally show ?thesis by (simp only: pl c)
qed

lemma changes_between_soa:
  assumes "wf_db d" and "{lo..hi} \<subseteq> vids d zone" and "changes_between d zone lo hi = c # cs"
  shows "delta_key (change_data c) = (zone, ''SOA'')"
proof -
  have lt: "lo < hi" using assms(3) by (cases "lo < hi") (auto simp: changes_between_def)
  then have "lo \<in> vids d zone" "lo + 1 \<in> vids d zone" using assms(2) by auto
  with assms(1) have "delta_shape zone (iter_changes d zone (lo + 1))" by (simp add: wf_db_def delta_ok_def)
  then obtain ds as where "iter_changes d zone (lo + 1) = ds @ as" "soa_first zone ds" by (auto simp: delta_shape_def)
  then obtain x xs where x: "iter_changes d zone (lo + 1) = x # xs" "is_soa_change zone x"
    by (cases ds) (auto simp: soa_first_def)
  have "[lo + 1..hi] = (lo + 1) # [lo + 2..hi]" using lt by (simp add: upto_rec1 add.assoc)
  with assms(3) x show ?thesis by (simp add: changes_between_def is_soa_change_key [symmetric])
qed

lemma apply_incremental:
  assumes "wf_db d" and "plan_for d q p" and "tp_mode p = Some MODE_IXFR"
    and "{tp_min_version p..tp_target_version p} \<subseteq> vids d (tp_zone p)"
  shows "secondary_apply (tp_zone p) (content d (tp_zone p) (tp_min_version p)) (transfer_payload d p) =
    content d (tp_zone p) (tp_target_version p)"
proof -
  let ?C = "changes_between d (tp_zone p) (tp_min_version p) (tp_target_version p)"
  from payload_ixfr(2) [OF assms(1-3)] obtain soa chs where pl: "transfer_payload d p = soa # chs"
    and r: "foldl (receive (tp_zone p)) (ADD, content d (tp_zone p) (tp_min_version p)) chs =
      (ADD, content d (tp_zone p) (tp_target_version p))" by blast
  have chs: "chs = map change_data ?C"
    using pl assms(3) by (auto simp: transfer_payload_def split: option.splits)
  show ?thesis
  proof (cases ?C)
    case Nil
    with r show ?thesis by (simp add: pl chs)
  next
    case (Cons c cs)
    then have "chs = change_data c # map change_data cs" by (simp add: chs)
    with r changes_between_soa [OF assms(1,4) Cons] show ?thesis by (simp add: pl)
  qed
qed

lemma content_kept:
  assumes "reachable d" and "steps d d'" and "find_zone d zone = Some z" and "n \<le> z_current_version z" and "n \<in> vids d' zone"
  shows "content d' zone n = content d zone n"
  using version_kept(2) [OF assms(1,2) _ assms(4)] find_zone_in [OF assms(3)] assms(5)
  by (intro content_cong) auto

subsection \<open>Every refresh\<close>


text \<open>A full transfer of version 0 of the demo zone, and after the publish an incremental one.\<close>

lemma demo2_granted:
  obtains q p d1 where "q_qtype q = TYPE_AXFR" "tp_zone p = ''a.''"
    "authorize_transfer hmac_sha256 5 5 5000 ''i'' ''r'' q demo2 = (Inr p, d1)"
proof -
  have ax: "TYPE_AXFR = TYPE_AXFR \<or> TYPE_AXFR = TYPE_IXFR" by simp
  obtain wire auth where w: "authority_of ''a.'' (demo_serial TYPE_AXFR) = Inr auth"
    "build_tsig_query hmac_sha256 7 ''a.'' TYPE_AXFR ''k.'' demo_secret 5 300 auth = Inr wire" by (rule demo_query [OF ax])
  from parse_signed_query [OF w(2,1)] obtain q t where q: "q_tsig q = Some t" "q_qname q = ''a.''" "q_qtype q = TYPE_AXFR"
    "q_client_soa_serial q = map_option int (demo_serial TYPE_AXFR)" "t_name t = ''k.''" "t_time t = take_bit 48 5"
    "t_fudge t = 300" "expected_request_mac hmac_sha256 demo_secret q = Inr (t_mac t)" unfolding demo_facts by blast
  let ?z = "hd (zones demo2)"
  have d2: "find_zone demo2 ''a.'' = Some ?z" "z_name ?z = ''a.''" "keys demo2 = keys demo3" "transfer_refs demo2 = []"
    by (simp_all add: find_zone_def demo2_def demo3_def)
  have tm: "verify_tsig_time (int (t_time t)) (int (t_fudge t)) 5 300" by (simp add: q verify_tsig_time_def take_bit_eq_mod)
  have "\<exists>p d1. authorize_transfer hmac_sha256 5 5 5000 ''i'' ''r'' q demo2 = (Inr p, d1) \<and>
    tp_zone p = z_name ?z \<and> tp_key_name p = t_name t \<and> tp_secret p = k_secret demo_key_row"
  proof (rule authorize_grants [OF reachable_wf [OF demo_reachable(2)] reachable_wf_keys [OF demo_reachable(2)] q(1) _ _ tm])
    show "live_key (5 * 1000) demo2 (z_name ?z) (t_name t) demo_key_row"
      using demo_facts(8) d2 by (simp add: q live_key_def)
    show "0 \<le> s \<and> s \<le> 0xFFFFFFFF" if "q_client_soa_serial q = Some s" for s
      using that by (simp add: q demo_serial_def)
  qed (simp_all add: q d2 demo_facts)
  with q(3) d2(2) show ?thesis by (metis that)
qed


end
