(* ===== verification/Worker.thy ===== *)
theory Worker
  imports Retention_Theorems
begin

text \<open>
  The drain loop of \<open>CleanupWorker.run\<close> of \<open>app/cleaner.py\<close>: tasks are run until
  none can be claimed or the process is asked to stop.  Tokens, clock readings (seconds for the
  lease, milliseconds at the start and the end of a cleanup) and the stop event are sequences, one
  value per round.
\<close>

definition worker_round :: "(nat \<Rightarrow> string) \<Rightarrow> (nat \<Rightarrow> int \<times> int \<times> int) \<Rightarrow> nat \<Rightarrow> db \<Rightarrow> bool \<times> db" where
  "worker_round tok clk i d = (case clk i of (now_s, now, now') \<Rightarrow> run_once (tok i) now_s now now' d)"

partial_function (option) drain ::
  "(nat \<Rightarrow> bool) \<Rightarrow> (nat \<Rightarrow> string) \<Rightarrow> (nat \<Rightarrow> int \<times> int \<times> int) \<Rightarrow> nat \<Rightarrow> db \<Rightarrow> (nat \<times> db) option" where
  [code]: "drain stop tok clk i d =
     (if stop i then Some (i, d)
      else case worker_round tok clk i d of
        (again, d') \<Rightarrow> if again then drain stop tok clk (i + 1) d' else Some (i, d'))"

lemma drain_stop: "stop i \<Longrightarrow> drain stop tok clk i d = Some (i, d)"
  by (subst drain.simps) simp

lemma drain_round:
  "\<not> stop i \<Longrightarrow> worker_round tok clk i d = (again, d') \<Longrightarrow>
    drain stop tok clk i d = (if again then drain stop tok clk (i + 1) d' else Some (i, d'))"
  by (subst drain.simps) simp

subsection \<open>Unfinished tasks\<close>

definition unfinished :: "db \<Rightarrow> nat set" where
  "unfinished d = t_task_id ` {t \<in> set (cleanup_tasks d). t_state t \<noteq> TASK_DONE}"

definition fresh_from :: "nat \<Rightarrow> (nat \<Rightarrow> string) \<Rightarrow> db \<Rightarrow> bool" where
  "fresh_from i tok d \<longleftrightarrow> (\<forall>j \<ge> i. \<forall>u \<in> set (cleanup_tasks d). t_token u \<noteq> Some (tok j))"

lemma finite_unfinished [simp]: "finite (unfinished d)"
  by (simp add: unfinished_def)

lemma claimable_None:
  assumes "claimable now d = None" and "t \<in> set (cleanup_tasks d)"
  shows "t_state t \<noteq> PENDING \<and> \<not> lease_expired now t"
proof -
  have n: "find (\<lambda>t. t_state t = PENDING) (sort_key t_task_id (cleanup_tasks d)) = None"
    using assms(1) by (cases "find (\<lambda>t. t_state t = PENDING) (sort_key t_task_id (cleanup_tasks d))") (simp_all add: claimable_def Let_def)
  with assms(1) have "find (lease_expired now) (sort_key t_task_id (cleanup_tasks d)) = None"
    by (simp add: claimable_def Let_def)
  with n assms(2) show ?thesis by (auto simp: find_None_iff)
qed

lemma claim_None:
  assumes "claim_cleanup_task token now d = (None, d')"
  shows "d' = d \<and> claimable now d = None"
proof (cases "claimable now d")
  case (Some u)
  have "u \<in> set (cleanup_tasks d)" by (rule claimable_Some(1) [OF Some])
  then have "lease_task token now u \<in> set (update_task (t_task_id u) (lease_task token now) (cleanup_tasks d))"
    by (auto simp: update_task_def)
  with assms Some show ?thesis by (auto simp: claim_cleanup_task_def Let_def find_None_iff)
qed (use assms in \<open>simp add: claim_cleanup_task_def\<close>)

lemma fresh_from_Suc:
  assumes "fresh_from i tok d" and "inj tok"
    and "t_token ` set (cleanup_tasks d') \<subseteq> insert (Some (tok i)) (t_token ` set (cleanup_tasks d))"
  shows "fresh_from (i + 1) tok d'"
  unfolding fresh_from_def
proof (intro allI impI ballI)
  fix j u assume j: "i + 1 \<le> j" and "u \<in> set (cleanup_tasks d')"
  then have "t_token u \<in> insert (Some (tok i)) (t_token ` set (cleanup_tasks d))" using assms(3) by blast
  moreover have "tok i \<noteq> tok j" using j assms(2) by (metis Suc_eq_plus1 injD not_less_eq_eq order_refl)
  ultimately show "t_token u \<noteq> Some (tok j)" using assms(1) j by (auto simp: fresh_from_def)
qed

text \<open>A round that finds work finishes one task and leaves the others.\<close>

lemma run_once_tasks:
  assumes run: "run_once token now_s now now' d = (True, d')" and wf: "wf_tasks d"
    and fresh: "\<forall>u \<in> set (cleanup_tasks d). t_token u \<noteq> Some token"
  obtains u n where "claimable now_s d = Some u" "wf_tasks d'"
    "cleanup_tasks d' = map (\<lambda>x. if t_task_id x = t_task_id u
      then (lease_task token now_s x)\<lparr>t_state := TASK_DONE, t_finished_at := Some n\<rparr> else x) (cleanup_tasks d)"
proof -
  from run obtain t d1 where c: "claim_cleanup_task token now_s d = (Some t, d1)"
    and d': "d' = snd (run_cleanup now now' t d1)"
    by (auto simp: run_once_def split: prod.splits option.splits)
  from claim_Some [OF c fresh wf] obtain u where u: "claimable now_s d = Some u" "t = lease_task token now_s u"
    "cleanup_tasks d1 = update_task (t_task_id u) (lease_task token now_s) (cleanup_tasks d)" by blast
  have w1: "wf_tasks d1" using wf_tasks_claim [OF wf, of token now_s] c by simp
  obtain res where r: "run_cleanup now now' t d1 = (res, d')" using d' by (metis prod.collapse)
  from run_cleanup_tasks [OF r] obtain n where n: "cleanup_tasks d' =
      update_task (t_task_id u) (\<lambda>t. t\<lparr>t_state := TASK_DONE, t_finished_at := Some n\<rparr>) (cleanup_tasks d1)"
    by (auto simp: u(2))
  show ?thesis
    by (rule that [OF u(1) wf_tasks_run_cleanup [OF r w1], of n]) (simp add: n u(3) update_task_def)
qed

lemma run_once_True:
  assumes run: "run_once token now_s now now' d = (True, d')" and wf: "wf_tasks d"
    and fresh: "\<forall>u \<in> set (cleanup_tasks d). t_token u \<noteq> Some token"
  obtains i where "i \<in> unfinished d" "unfinished d' = unfinished d - {i}" "wf_tasks d'"
    "t_token ` set (cleanup_tasks d') \<subseteq> insert (Some token) (t_token ` set (cleanup_tasks d))"
proof (rule run_once_tasks [OF assms])
  fix u n assume u: "claimable now_s d = Some u" and w: "wf_tasks d'"
    and ts: "cleanup_tasks d' = map (\<lambda>x. if t_task_id x = t_task_id u
      then (lease_task token now_s x)\<lparr>t_state := TASK_DONE, t_finished_at := Some n\<rparr> else x) (cleanup_tasks d)"
  note um = claimable_Some [OF u]
  have "t_state u \<noteq> TASK_DONE" using um(2) by (auto simp: lease_expired_def)
  with um(1) have "t_task_id u \<in> unfinished d" by (auto simp: unfinished_def)
  moreover have "unfinished d' = unfinished d - {t_task_id u}" by (force simp: unfinished_def ts)
  moreover have "t_token ` set (cleanup_tasks d') \<subseteq> insert (Some token) (t_token ` set (cleanup_tasks d))"
    by (auto simp: ts)
  ultimately show ?thesis using w that by blast
qed

lemma worker_round_True:
  assumes "worker_round tok clk i d = (True, d')" and "wf_tasks d" and "fresh_from i tok d" and "inj tok"
  obtains x where "x \<in> unfinished d" "unfinished d' = unfinished d - {x}" "wf_tasks d'" "fresh_from (i + 1) tok d'"
proof -
  obtain now_s "now" now' where r: "run_once (tok i) now_s now now' d = (True, d')"
    using assms(1) by (auto simp: worker_round_def split: prod.splits)
  have "\<forall>u \<in> set (cleanup_tasks d). t_token u \<noteq> Some (tok i)" using assms(3) by (simp add: fresh_from_def)
  from run_once_True [OF r assms(2) this] fresh_from_Suc [OF assms(3,4)] that show ?thesis by metis
qed

lemma worker_round_False:
  assumes "worker_round tok clk i d = (False, d')"
  shows "d' = d \<and> claimable (fst (clk i)) d = None"
proof -
  obtain now_s "now" now' where c: "clk i = (now_s, now, now')" by (metis surj_pair)
  with assms have "run_once (tok i) now_s now now' d = (False, d')" by (simp add: worker_round_def)
  then have "claim_cleanup_task (tok i) now_s d = (None, d')" by (auto simp: run_once_def split: prod.splits option.splits)
  from claim_None [OF this] c show ?thesis by simp
qed

lemma drain_ends:
  assumes "stop i \<or> \<not> fst (worker_round tok clk i d)"
  shows "drain stop tok clk i d = Some (i, d) \<and> (stop i \<or> claimable (fst (clk i)) d = None)"
proof (cases "stop i")
  case False
  then obtain d' where r: "worker_round tok clk i d = (False, d')"
    using assms by (metis prod.collapse)
  from drain_round [of stop i tok clk d False d', OF False r] worker_round_False [OF r] show ?thesis by simp
qed (simp add: drain_stop)

lemma drain_terminates:
  assumes "card (unfinished d) \<le> n" and "wf_tasks d" and "fresh_from i tok d" and "inj tok"
  shows "\<exists>k d'. drain stop tok clk i d = Some (k, d') \<and> k \<le> i + card (unfinished d) \<and>
    (stop k \<or> claimable (fst (clk k)) d' = None) \<and> unfinished d' \<subseteq> unfinished d"
  using assms
proof (induction n arbitrary: i d)
  case (0 i d)
  then have e: "unfinished d = {}" by simp
  have "\<not> fst (worker_round tok clk i d)"
  proof
    assume "fst (worker_round tok clk i d)"
    then obtain d' where "worker_round tok clk i d = (True, d')"
      by (metis prod.collapse)
    from worker_round_True [OF this "0.prems"(2-4)] e show False by blast
  qed
  then have "stop i \<or> \<not> fst (worker_round tok clk i d)" by simp
  from drain_ends [of stop i tok clk d, OF this] show ?case by (intro exI [of _ i] exI [of _ d]) simp
next
  case (Suc n i d)
  show ?case
  proof (cases "stop i \<or> \<not> fst (worker_round tok clk i d)")
    case True
    from drain_ends [of stop i tok clk d, OF this] show ?thesis by (intro exI [of _ i] exI [of _ d]) simp
  next
    case False
    then obtain d' where rt: "worker_round tok clk i d = (True, d')"
      by (metis prod.collapse)
    obtain x where x: "x \<in> unfinished d" "unfinished d' = unfinished d - {x}" "wf_tasks d'" "fresh_from (i + 1) tok d'"
      by (rule worker_round_True [OF rt Suc.prems(2-4)])
    have c: "card (unfinished d) = Suc (card (unfinished d'))" 
      unfolding x(2) by (rule card_Suc_Diff1 [OF finite_unfinished x(1), symmetric])
    have "card (unfinished d') \<le> n" using Suc.prems(1) c by simp
    from Suc.IH [OF this x(3,4) Suc.prems(4)] obtain k d2 where
      k: "drain stop tok clk (i + 1) d' = Some (k, d2)" "k \<le> i + 1 + card (unfinished d')"
      "stop k \<or> claimable (fst (clk k)) d2 = None" "unfinished d2 \<subseteq> unfinished d'" by blast
    have "drain stop tok clk i d = Some (k, d2)" using drain_round [of stop i tok clk d True d', OF _ rt] False k(1) by simp
    moreover have "k \<le> i + card (unfinished d)" "unfinished d2 \<subseteq> unfinished d" using k(2,4) c x(2) by auto
    ultimately show ?thesis using k(3) by blast
  qed
qed

text \<open>
  The cleanup worker never hangs and leaves no work behind: from a reachable database and with
  distinct unused tokens, its inner loop returns after at most one round per unfinished task,
  and unless it was told to stop, no task is then PENDING or has an expired lease.
\<close>

theorem worker_drains:
  assumes "reachable d" and "inj tok" and "\<forall>j. \<forall>u \<in> set (cleanup_tasks d). t_token u \<noteq> Some (tok j)"
  shows "\<exists>k d'. drain stop tok clk 0 d = Some (k, d') \<and> k \<le> card (unfinished d) \<and> unfinished d' \<subseteq> unfinished d \<and>
    (stop k \<or> (\<forall>t \<in> set (cleanup_tasks d'). t_state t \<noteq> PENDING \<and> \<not> lease_expired (fst (clk k)) t))"
proof -
  have "fresh_from 0 tok d" using assms(3) by (simp add: fresh_from_def)
  from drain_terminates [OF order_refl reachable_wf_tasks [OF assms(1)] this assms(2), of stop clk]
  obtain k d' where "drain stop tok clk 0 d = Some (k, d')" "k \<le> 0 + card (unfinished d)"
    "stop k \<or> claimable (fst (clk k)) d' = None" "unfinished d' \<subseteq> unfinished d" by blast
  then show ?thesis using claimable_None [of "fst (clk k)" d'] by (intro exI [of _ k] exI [of _ d']) auto
qed

theorem worker_drains_witness:
  "\<exists>k d'. drain (\<lambda>i. False) (\<lambda>i. replicate i CHR ''x'') (\<lambda>i. (10, 9000, 9000)) 0 demo3 = Some (k, d') \<and>
    (\<forall>t \<in> set (cleanup_tasks d'). t_state t \<noteq> PENDING)"
proof -
  have i: "inj (\<lambda>i. replicate i CHR ''x'')" by (rule injI) (metis length_replicate)
  have f: "\<forall>j. \<forall>u \<in> set (cleanup_tasks demo3). t_token u \<noteq> Some (replicate j CHR ''x'')" by (simp add: demo3_def)
  from worker_drains [OF demo_reachable(3) i f, of "\<lambda>i. False" "\<lambda>i. (10, 9000, 9000)"] show ?thesis by blast
qed

end
