(* ===== verification/Worker_Run.thy ===== *)
theory Worker_Run
  imports Worker
begin

text \<open>
  \<open>CleanupWorker.run\<close> of \<open>app/cleaner.py\<close> in full, with the failures it survives and the processes
  it runs beside.  The world gives, for each round, what the worker reads and meets: the stop event, a
  fresh token, the clock, how the database behaves, and what other processes commit before
  the next round.  \<open>stop.wait\<close> only lets time pass, which the next readings of the world show.
\<close>

subsection \<open>A round that may fail\<close>

text \<open>
  A database error leaves the claim rolled back, or the task leased with the error recorded; when
  recording it fails as well, or the process is killed and started again, nothing is recorded.
\<close>

datatype outcome = Succeeds | Claim_Fails string | Cleanup_Fails string bool

definition try_once :: "outcome \<Rightarrow> string \<Rightarrow> int \<Rightarrow> int \<Rightarrow> int \<Rightarrow> db \<Rightarrow> (string + bool) \<times> db" where
  "try_once oc token now_s now now' d =
     (case oc of
        Claim_Fails msg \<Rightarrow> (Inl msg, d)
      | Succeeds \<Rightarrow> (case run_once token now_s now now' d of (again, d') \<Rightarrow> (Inr again, d'))
      | Cleanup_Fails msg recorded \<Rightarrow>
        (case claim_cleanup_task token now_s d of
           (None, d') \<Rightarrow> (Inr False, d')
         | (Some task, d') \<Rightarrow> (Inl msg, if recorded then cleanup_failed msg task d' else d')))"

record worker_world =
  ww_stop :: "nat \<Rightarrow> bool"
  ww_token :: "nat \<Rightarrow> string"
  ww_clock :: "nat \<Rightarrow> int \<times> int \<times> int"
  ww_outcome :: "nat \<Rightarrow> outcome"
  ww_others :: "nat \<Rightarrow> db \<Rightarrow> db"

definition attempt :: "worker_world \<Rightarrow> nat \<Rightarrow> db \<Rightarrow> (string + bool) \<times> db" where
  "attempt w i d =
     (case ww_clock w i of (now_s, now, now') \<Rightarrow>
        (case try_once (ww_outcome w i) (ww_token w i) now_s now now' d of (r, d') \<Rightarrow> (r, ww_others w i d')))"

subsection \<open>The two loops\<close>

text \<open>The inner loop ends when it is stopped, when no task is claimable, or with an exception.\<close>

partial_function (option) run_tasks :: "worker_world \<Rightarrow> nat \<Rightarrow> db \<Rightarrow> (string option \<times> nat \<times> db) option" where
  [code]: "run_tasks w i d =
     (if ww_stop w i then Some (None, i, d)
      else case attempt w i d of
        (r, d') \<Rightarrow>
          (case r of
             Inl msg \<Rightarrow> Some (Some msg, i + 1, d')
           | Inr again \<Rightarrow> if again then run_tasks w (i + 1) d' else Some (None, i + 1, d')))"

text \<open>The outer loop catches the exception, prints it, waits and goes on until it is stopped.\<close>

partial_function (option) worker_run :: "worker_world \<Rightarrow> nat \<Rightarrow> db \<Rightarrow> (nat \<times> db) option" where
  [code]: "worker_run w i d =
     (if ww_stop w i then Some (i, d)
      else Option.bind (run_tasks w i d) (\<lambda>r. case r of (error, k, d') \<Rightarrow> worker_run w k d'))"

text \<open>\<open>run_cleaner\<close> returns 0 when the worker does; \<open>CLEAN_INTERVAL\<close> must be a number, else the start fails.\<close>

definition run_cleaner :: "(string \<Rightarrow> bool) \<Rightarrow> string option \<Rightarrow> worker_world \<Rightarrow> db \<Rightarrow> (exn + int \<times> db) option" where
  "run_cleaner is_float clean_interval w d =
     (if \<not> is_float (case clean_interval of None \<Rightarrow> ''2'' | Some s \<Rightarrow> s) then Some (Inl ValueError)
      else Option.bind (worker_run w 0 d) (\<lambda>(i, d'). Some (Inr (0, d'))))"

subsection \<open>Every round is one attempt\<close>

text \<open>The outer loop resumes after an exception where the inner one left off.\<close>

lemma worker_run_stop: "ww_stop w i \<Longrightarrow> worker_run w i d = Some (i, d)"
  by (subst worker_run.simps) simp

lemma worker_run_round:
  assumes "\<not> ww_stop w i"
  shows "worker_run w i d = worker_run w (i + 1) (snd (attempt w i d))"
proof -
  obtain r d' where a: "attempt w i d = (r, d')" by (metis surj_pair)
  have o: "worker_run w i d = Option.bind (run_tasks w i d) (\<lambda>r. case r of (error, k, d') \<Rightarrow> worker_run w k d')"
    using assms by (subst worker_run.simps) simp
  show ?thesis
  proof (cases "r = Inr True")
    case True
    then have i: "run_tasks w i d = run_tasks w (i + 1) d'" using assms a by (subst run_tasks.simps) simp
    show ?thesis
    proof (cases "ww_stop w (i + 1)")
      case True
      then have "run_tasks w (i + 1) d' = Some (None, i + 1, d')" by (subst run_tasks.simps) simp
      with o i a show ?thesis by simp
    next
      case False
      then have "worker_run w (i + 1) d' =
          Option.bind (run_tasks w (i + 1) d') (\<lambda>r. case r of (error, k, d') \<Rightarrow> worker_run w k d')"
        by (subst worker_run.simps) simp
      with o i a show ?thesis by simp
    qed
  next
    case False
    then have "\<exists>e. run_tasks w i d = Some (e, i + 1, d')"
      using assms a by (subst run_tasks.simps) (cases r; simp)
    with o a show ?thesis by auto
  qed
qed

fun rounds :: "worker_world \<Rightarrow> nat \<Rightarrow> db \<Rightarrow> db" where
  "rounds w 0 d = d"
| "rounds w (Suc n) d = snd (attempt w n (rounds w n d))"

lemma worker_run_rounds:
  assumes "\<forall>j < n. \<not> ww_stop w j" and "ww_stop w n"
  shows "worker_run w 0 d = Some (n, rounds w n d)"
proof -
  have "m \<le> n \<Longrightarrow> worker_run w 0 d = worker_run w m (rounds w m d)" for m
    by (induction m) (use assms(1) worker_run_round in \<open>simp_all add: Suc_le_eq\<close>)
  from this [of n] worker_run_stop [OF assms(2)] show ?thesis by simp
qed

subsection \<open>What a round keeps\<close>

lemma try_once_steps:
  assumes "try_once oc token now_s now now' d = (r, d')"
  shows "steps d d'" and "t_token ` set (cleanup_tasks d') \<subseteq> insert (Some token) (t_token ` set (cleanup_tasks d))"
proof -
  obtain t d1 where c: "claim_cleanup_task token now_s d = (t, d1)" by (metis surj_pair)
  note s1 = steps_one [OF step_claim [OF c]]
  have t1: "t_token ` set (cleanup_tasks d1) \<subseteq> insert (Some token) (t_token ` set (cleanup_tasks d))"
    using c by (auto simp: claim_cleanup_task_def Let_def update_task_def split: option.splits)
  have run: "steps d d2 \<and> t_token ` set (cleanup_tasks d2) \<subseteq> insert (Some token) (t_token ` set (cleanup_tasks d))"
    if d2: "d2 = snd (run_cleanup now now' task d1)" for task d2
  proof -
    obtain res where res: "run_cleanup now now' task d1 = (res, d2)" using d2 by (metis prod.collapse)
    from run_cleanup_tasks [OF res] obtain n where "cleanup_tasks d2 =
        update_task (t_task_id task) (\<lambda>t. t\<lparr>t_state := TASK_DONE, t_finished_at := Some n\<rparr>) (cleanup_tasks d1)" by blast
    then have "t_token ` set (cleanup_tasks d2) \<subseteq> t_token ` set (cleanup_tasks d1)"
      by (auto simp: update_task_def)
    with t1 steps_step [OF s1 step_clean [OF res]] show ?thesis by blast
  qed
  have failed: "t_token ` set (cleanup_tasks (cleanup_failed msg task d1)) \<subseteq>
      insert (Some token) (t_token ` set (cleanup_tasks d))" for msg task
    using t1 by (auto simp: cleanup_failed_def update_task_def)
  have "steps d d' \<and> t_token ` set (cleanup_tasks d') \<subseteq> insert (Some token) (t_token ` set (cleanup_tasks d))"
  proof (cases oc)
    case Succeeds
    show ?thesis
    proof (cases t)
      case None
      with Succeeds assms c s1 t1 show ?thesis by (simp add: try_once_def run_once_def)
    next
      case (Some task)
      with Succeeds assms c run [OF refl, of task] show ?thesis by (simp add: try_once_def run_once_def)
    qed
  next
    case (Claim_Fails msg)
    with assms show ?thesis by (auto simp: try_once_def intro: steps_refl)
  next
    case (Cleanup_Fails msg recorded)
    have "d' = d1 \<or> (\<exists>task. d' = cleanup_failed msg task d1)"
      using Cleanup_Fails assms c by (cases t; cases recorded) (simp_all add: try_once_def, blast)
    then show ?thesis using s1 t1 failed [of msg] steps_step [OF s1 step_fail] by (elim disjE exE) simp_all
  qed
  then show "steps d d'" and "t_token ` set (cleanup_tasks d') \<subseteq> insert (Some token) (t_token ` set (cleanup_tasks d))"
    by blast+
qed

text \<open>Other processes commit steps of the service, and do not use the tokens of this worker.\<close>

definition others_commit :: "worker_world \<Rightarrow> bool" where
  "others_commit w \<longleftrightarrow> (\<forall>i d. reachable d \<longrightarrow> steps d (ww_others w i d)) \<and>
     (\<forall>i j d. fresh_from j (ww_token w) d \<longrightarrow> fresh_from j (ww_token w) (ww_others w i d))"

lemma rounds_keep:
  assumes "reachable d" and "others_commit w" and "inj (ww_token w)" and "fresh_from 0 (ww_token w) d"
  shows "reachable (rounds w n d) \<and> fresh_from n (ww_token w) (rounds w n d)"
proof (induction n)
  case (Suc n)
  obtain now_s "now" now' where c: "ww_clock w n = (now_s, now, now')" by (metis surj_pair)
  obtain r d1 where t: "try_once (ww_outcome w n) (ww_token w n) now_s now now' (rounds w n d) = (r, d1)" by (metis surj_pair)
  from steps_reachable [OF try_once_steps(1) [OF t]] Suc have r1: "reachable d1" by blast
  from fresh_from_Suc [OF _ assms(3) try_once_steps(2) [OF t]] Suc have f1: "fresh_from (n + 1) (ww_token w) d1" by blast
  have "steps d1 (ww_others w n d1)" "fresh_from (n + 1) (ww_token w) (ww_others w n d1)"
    using assms(2) r1 f1 by (simp_all add: others_commit_def)
  with steps_reachable [OF _ r1] show ?case by (simp add: attempt_def c t)
qed (use assms in simp)

subsection \<open>Rounds of a quiet world\<close>

definition quiet_at :: "worker_world \<Rightarrow> nat \<Rightarrow> bool" where
  "quiet_at w i \<longleftrightarrow> ww_outcome w i = Succeeds \<and> ww_others w i = id"

lemma quiet_attempt: "quiet_at w i \<Longrightarrow> snd (attempt w i d) = snd (worker_round (ww_token w) (ww_clock w) i d)"
  by (simp add: quiet_at_def attempt_def try_once_def worker_round_def split: prod.splits)

definition leases_until :: "int \<Rightarrow> db \<Rightarrow> bool" where
  "leases_until l d \<longleftrightarrow> (\<forall>t \<in> set (cleanup_tasks d). t_state t = RUNNING \<longrightarrow> (\<exists>e \<le> l. t_lease_expires t = Some e))"

lemma leases_end: "wf_tasks d \<Longrightarrow> \<exists>l. leases_until l d"
proof -
  assume wf: "wf_tasks d"
  let ?l = "Max (insert 0 ((\<lambda>t. the (t_lease_expires t)) ` set (cleanup_tasks d)))"
  have "the (t_lease_expires t) \<le> ?l" if "t \<in> set (cleanup_tasks d)" for t using that by (intro Max_ge) auto
  with wf have "leases_until ?l d" unfolding leases_until_def wf_tasks_def by (metis option.collapse)
  then show ?thesis ..
qed

lemma none_claimable:
  assumes "claimable now d = None" and "leases_until l d" and "l < now"
  shows "unfinished d = {}"
proof -
  have "t_state t = TASK_DONE" if "t \<in> set (cleanup_tasks d)" for t
    using claimable_None [OF assms(1) that] assms(2,3) that
    by (cases "t_state t") (auto simp: leases_until_def lease_expired_def)
  then show ?thesis by (auto simp: unfinished_def)
qed

lemma worker_round_leases:
  assumes "worker_round tok clk i d = (again, d')" and "leases_until l d" and "wf_tasks d" and "fresh_from i tok d"
  shows "leases_until l d'"
proof (cases again)
  case True
  obtain now_s "now" now' where r: "run_once (tok i) now_s now now' d = (True, d')"
    using assms(1) True by (auto simp: worker_round_def split: prod.splits)
  have "\<forall>u \<in> set (cleanup_tasks d). t_token u \<noteq> Some (tok i)" using assms(4) by (simp add: fresh_from_def)
  then show ?thesis
    by (rule run_once_tasks [OF r assms(3)]) (use assms(2) in \<open>auto simp: leases_until_def\<close>)
next
  case False
  with worker_round_False [of tok clk i d d'] assms(1,2) show ?thesis by simp
qed

lemma quiet_rounds:
  assumes "reachable d" and "others_commit w" and "inj (ww_token w)" and "fresh_from 0 (ww_token w) d"
    and "\<And>i. m \<le> i \<Longrightarrow> quiet_at w i" and "leases_until l (rounds w m d)" and "m \<le> n"
  shows "leases_until l (rounds w n d)"
  using assms(7)
proof (induction n rule: dec_induct)
  case (step n)
  note k = rounds_keep [OF assms(1-4), of n]
  have "leases_until l (snd (worker_round (ww_token w) (ww_clock w) n (rounds w n d)))"
    using worker_round_leases [OF prod.collapse [symmetric] step.IH] k reachable_wf_tasks by blast
  then show ?case by (simp add: quiet_attempt [OF assms(5) [OF step.hyps(1)]])
qed (rule assms(6))

text \<open>Once every lease has run out, each round finishes a task or there is none.\<close>

lemma quiet_round_progress:
  assumes "reachable d" and "others_commit w" and "inj (ww_token w)" and "fresh_from 0 (ww_token w) d"
    and "quiet_at w n" and "leases_until l (rounds w n d)" and "l < fst (ww_clock w n)"
  shows "card (unfinished (rounds w (Suc n) d)) \<le> card (unfinished (rounds w n d)) - 1"
proof -
  let ?d = "rounds w n d"
  note k = rounds_keep [OF assms(1-4), of n]
  obtain again d' where r: "worker_round (ww_token w) (ww_clock w) n ?d = (again, d')" by (metis surj_pair)
  have d': "rounds w (Suc n) d = d'" by (simp add: quiet_attempt [OF assms(5)] r)
  show ?thesis
  proof (cases again)
    case True
    have "worker_round (ww_token w) (ww_clock w) n ?d = (True, d')" using r True by simp
    from worker_round_True [OF this] k reachable_wf_tasks assms(3) obtain x where
      "x \<in> unfinished ?d" "unfinished d' = unfinished ?d - {x}" by metis
    then have "card (unfinished d') \<le> card (unfinished ?d) - 1" by (simp add: card_Diff_singleton)
    then show ?thesis unfolding d' .
  next
    case False
    with worker_round_False r have "d' = ?d" "claimable (fst (ww_clock w n)) ?d = None" by auto
    with none_claimable [OF _ assms(6,7)] have "card (unfinished d') \<le> card (unfinished ?d) - 1" by simp
    then show ?thesis unfolding d' .
  qed
qed

text \<open>
  C30.  The worker survives every failure and finishes its work.  Let the database fail in any of the
  ways above, and other processes commit whatever they like, up to some moment; if the clock passes
  every value, there is a number of rounds after which the worker, stopped at any later
  round, has returned normally and left no task unfinished.
\<close>

theorem worker_completes:
  assumes "reachable d" and "others_commit w" and "inj (ww_token w)" and "fresh_from 0 (ww_token w) d"
    and quiet: "\<And>i. Q \<le> i \<Longrightarrow> quiet_at w i" and clock: "\<And>t. \<exists>i. \<forall>j \<ge> i. t < fst (ww_clock w j)"
  shows "\<exists>N. \<forall>n \<ge> N. \<exists>d'. worker_run (w\<lparr>ww_stop := \<lambda>i. n \<le> i\<rparr>) 0 d = Some (n, d') \<and> reachable d' \<and> unfinished d' = {}"
proof -
  note keep = rounds_keep [OF assms(1-4)]
  obtain l where l: "leases_until l (rounds w Q d)" using leases_end reachable_wf_tasks keep by blast
  obtain T where T: "\<forall>j \<ge> T. l < fst (ww_clock w j)" using clock by blast
  define M where "M = max Q T"
  have leases: "leases_until l (rounds w n d)" if "Q \<le> n" for n
    by (rule quiet_rounds [OF assms(1-4) quiet l that])
  have card: "card (unfinished (rounds w (M + k) d)) \<le> card (unfinished (rounds w M d)) - k" for k
  proof (induction k)
    case (Suc k)
    have "card (unfinished (rounds w (Suc (M + k)) d)) \<le> card (unfinished (rounds w (M + k) d)) - 1"
      by (rule quiet_round_progress [OF assms(1-4), of _ l]) (use quiet leases T in \<open>auto simp: M_def\<close>)
    with Suc show ?case by simp
  qed simp
  have same: "rounds (w\<lparr>ww_stop := s\<rparr>) n d = rounds w n d" for s n
    by (induction n) (simp_all add: attempt_def)
  show ?thesis
  proof (intro exI [of _ "M + card (unfinished (rounds w M d))"] allI impI)
    fix n assume n: "M + card (unfinished (rounds w M d)) \<le> n"
    then have "card (unfinished (rounds w n d)) = 0" using card [of "n - M"] by simp
    then have "unfinished (rounds w n d) = {}" by simp
    moreover have "worker_run (w\<lparr>ww_stop := \<lambda>i. n \<le> i\<rparr>) 0 d = Some (n, rounds w n d)"
      using worker_run_rounds [of n "w\<lparr>ww_stop := \<lambda>i. n \<le> i\<rparr>" d] by (simp add: same not_le)
    ultimately show "\<exists>d'. worker_run (w\<lparr>ww_stop := \<lambda>i. n \<le> i\<rparr>) 0 d = Some (n, d') \<and> reachable d' \<and> unfinished d' = {}"
      using keep by blast
  qed
qed

text \<open>
  The first round fails to claim, the second fails in the cleanup and leaves a lease, which the sixth finds expired.
\<close>

definition demo_world :: worker_world where
  "demo_world = \<lparr>ww_stop = (\<lambda>i. False), ww_token = (\<lambda>i. replicate i CHR ''x''),
     ww_clock = (\<lambda>i. (int i * 10, 9000, 9000)),
     ww_outcome = (\<lambda>i. if i = 0 then Claim_Fails ''locked'' else if i = 1 then Cleanup_Fails ''disk'' True else Succeeds),
     ww_others = (\<lambda>i. id)\<rparr>"

theorem worker_completes_witness:
  "\<exists>N. \<forall>n \<ge> N. \<exists>d'. worker_run (demo_world\<lparr>ww_stop := \<lambda>i. n \<le> i\<rparr>) 0 demo3 = Some (n, d') \<and> reachable d' \<and> unfinished d' = {}"
proof -
  have 1: "others_commit demo_world" by (auto simp: others_commit_def demo_world_def intro: steps_refl)
  have 2: "inj (ww_token demo_world)" by (simp add: inj_def demo_world_def)
  have 3: "fresh_from 0 (ww_token demo_world) demo3" by (simp add: fresh_from_def demo_world_def demo3_def)
  have 4: "2 \<le> i \<Longrightarrow> quiet_at demo_world i" for i by (simp add: quiet_at_def demo_world_def)
  have 5: "\<exists>i. \<forall>j \<ge> i. t < fst (ww_clock demo_world j)" for t
    by (intro exI [of _ "nat (max t 0) + 1"]) (auto simp: demo_world_def)
  show ?thesis by (rule worker_completes [OF demo_reachable(3) 1 2 3 4 5])
qed

end
