(* ===== verification/Http_Theorems.thy ===== *)
theory Http_Theorems
  imports Key_Theorems Query_Theorems
begin

text \<open>
  The properties of the HTTP interface: what an error response has changed, what an accepted
  publish request satisfies, and the one field of a create request that is not checked.
\<close>

subsection \<open>The zone a create request answers with\<close>

lemma ns_rows_targets:
  assumes "canonical_form zone"
  shows "ns_rows zone ns seen = Inr rows \<Longrightarrow> \<forall>(t, ttl, rd, w) \<in> set rows. \<exists>tg. rd = Target tg"
proof (induction ns arbitrary: seen rows)
  case (Cons target rest)
  from Cons.prems obtain t where t: "canonical_target target zone = Inr t" by (auto simp: bindE_Inr_iff)
  show ?case
  proof (cases "t \<in> set seen")
    case True
    with Cons t show ?thesis by (auto simp: bindE_Inr_iff)
  next
    case False
    with Cons.prems t obtain rj rw rows' where c: "canonical_rdata ''NS'' (JObj [(''target'', JStr t)]) zone = Inr (rj, rw)"
      and r: "ns_rows zone rest (t # seen) = Inr rows'" and rows: "rows = (''NS'', 3600, rj, rw) # rows'"
      by (auto simp: bindE_Inr_iff)
    from Cons.IH [OF r] canonical_NS [OF c assms] show ?thesis by (auto simp: rows)
  qed
qed simp

lemma mapE_total: "(\<And>x. x \<in> set xs \<Longrightarrow> \<exists>y. f x = Inr y) \<Longrightarrow> \<exists>ys. mapE f xs = Inr ys"
proof (induction xs)
  case (Cons x xs)
  then obtain y ys where "f x = Inr y" "mapE f xs = Inr ys" by fastforce
  then show ?case by simp
qed simp

lemma create_zone_soa:
  assumes wf: "wf_db d" and run: "create_zone ts zone serial soa ns retain d = (Inr (), d')"
  obtains rows ttl sj sw nsr where "create_rows zone serial soa ns = Inr rows"
    "canonical_rdata ''SOA'' (JObj (obj_set ''serial'' (JInt serial) soa)) zone = Inr (sj, sw)"
    "py_int (obj_get soa ''_ttl'' (JInt 3600)) = Inr ttl" "ns_rows zone ns [] = Inr nsr"
    "rows = (''SOA'', ttl, sj, sw) # nsr" "records_of d' zone 0 = map (create_row zone) rows"
    "find_soa d' zone 0 = Some (create_row zone (''SOA'', ttl, sj, sw))"
    "\<exists>z. find_zone d' zone = Some z \<and> z_current_version z = 0"
  using run
proof (rule create_zone_Inr)
  fix rows :: "(string \<times> int \<times> rdata \<times> bytes) list"
  let ?z = "\<lparr>z_name = zone, z_current_serial = serial, z_current_version = 0, z_retain_versions = retain,
      z_record_count = int (length rows), z_rrset_count = 2, z_created_at = ts, z_updated_at = ts\<rparr>"
  assume rows: "create_rows zone serial soa ns = Inr rows" and f: "find_zone d zone = None"
    and d': "d' = d\<lparr>zones := zones d @ [?z],
          versions := versions d @ [\<lparr>v_zone = zone, v_version_id = 0, v_serial = serial,
            v_request_id = ''__create__'', v_created_at = ts\<rparr>],
          records := records d @ map (create_row zone) rows\<rparr>"
  from rows obtain ttl sj sw nsr where r: "rows = (''SOA'', ttl, sj, sw) # nsr" and n: "ns_rows zone ns [] = Inr nsr"
    and c: "canonical_rdata ''SOA'' (JObj (obj_set ''serial'' (JInt serial) soa)) zone = Inr (sj, sw)"
    and t: "py_int (obj_get soa ''_ttl'' (JInt 3600)) = Inr ttl"
    by (auto simp: create_rows_def bindE_Inr_iff obj_get_set)
  have fz: "find_zone d' zone = Some ?z" using f by (simp add: find_zone_def d' find_append_None)
  have "zone \<notin> z_name ` set (zones d)" using f by (auto simp: find_zone_def find_None_iff)
  then have "0 \<notin> vids d zone" using wf by (auto simp: wf_db_def owned_def vids_def)
  then have "records_of d zone 0 = []" using no_orphans wf by (simp add: wf_db_def)
  then have rs: "records_of d' zone 0 = map (create_row zone) rows"
    by (simp add: records_of_def d') (auto simp: create_row_def filter_id_conv split: prod.splits)
  have soa: "find_soa d' zone 0 = Some (create_row zone (''SOA'', ttl, sj, sw))"
    by (simp add: find_soa_def rs r is_apex_soa_def create_row_def)
  show ?thesis by (rule that [OF rows c t n r rs soa]) (simp add: fz)
qed

lemma create_zone_metadata:
  assumes wf: "wf_db d" and run: "create_zone ts zone serial soa ns retain d = (Inr (), d')" and c: "canonical_form zone"
  shows "\<exists>m. zone_metadata zone d' = Inr m"
  using wf run
proof (rule create_zone_soa)
  fix rows ttl sj sw nsr
  assume n: "ns_rows zone ns [] = Inr nsr" and r: "rows = (''SOA'', ttl, sj, sw) # nsr"
    and rs: "records_of d' zone 0 = map (create_row zone) rows"
    and soa: "find_soa d' zone 0 = Some (create_row zone (''SOA'', ttl, sj, sw))"
    and "\<exists>z. find_zone d' zone = Some z \<and> z_current_version z = 0"
  then obtain z where fz: "find_zone d' zone = Some z" "z_current_version z = 0" by blast
  let ?ns = "sort_key r_rdata (filter (\<lambda>r. r_name r = zone \<and> r_rtype r = ''NS'') (records_of d' zone 0))"
  have "\<exists>y. target_of (r_rdata x) = Inr y" if "x \<in> set ?ns" for x
  proof -
    from that obtain y where "y \<in> set nsr" "x = create_row zone y" by (auto simp: rs r create_row_def)
    moreover obtain t tl rd w where "y = (t, tl, rd, w)" by (cases y)
    moreover from calculation obtain tg where "rd = Target tg" using ns_rows_targets [OF c n] by blast
    ultimately show ?thesis by (simp add: create_row_def)
  qed
  then obtain ts where "mapE (\<lambda>r. target_of (r_rdata r)) ?ns = Inr ts" using mapE_total [of ?ns "\<lambda>r. target_of (r_rdata r)"] by blast
  then show ?thesis by (simp add: zone_metadata_def get_zone_row_def fz get_soa_def soa)
qed

lemma create_error:
  assumes wf: "wf_db d" and run: "api_create_zone env body d = (r, d')" and e: "respond r = (status, Error_Body code msg details)"
  shows "d' = d"
proof (cases "check_create body")
  case (Inl e)
  with run show ?thesis by (simp add: api_create_zone_def)
next
  case (Inr c)
  obtain res d1 where cz: "create_zone (a_ts env) (cq_name c) (cq_serial c) (cq_soa c) (cq_ns c) (cq_retain c) d = (res, d1)"
    by (metis surj_pair)
  show ?thesis
  proof (cases res)
    case (Inl e)
    with cz \<open>check_create body = Inr c\<close> run show ?thesis by (auto simp: api_create_zone_def dest: create_zone_Inl)
  next
    case (Inr u)
    with cz have ok: "create_zone (a_ts env) (cq_name c) (cq_serial c) (cq_soa c) (cq_ns c) (cq_retain c) d = (Inr (), d1)" by simp
    from create_zone_metadata [OF wf ok check_create_Inr(1) [OF \<open>check_create body = Inr c\<close>]]
    obtain m where "zone_metadata (cq_name c) d1 = Inr m" by blast
    with run ok \<open>check_create body = Inr c\<close> have "r = Inr (201, Zone_Body m)" by (simp add: api_create_zone_def)
    with e show ?thesis by (simp add: respond_def)
  qed
qed

lemma publish_error:
  assumes run: "api_publish env zn body d = (r, d')" and e: "respond r = (status, Error_Body code msg details)"
  shows "d' = d \<or> (\<exists>row e. p_status row = FAILED e \<and> d' = d\<lparr>publish_requests := publish_requests d @ [row]\<rparr>)"
proof (cases "check_publish (a_sha256 env) zn body")
  case (Inl e)
  with run show ?thesis by (simp add: api_publish_def)
next
  case (Inr b)
  obtain res d1 where c: "publish (a_ts env) (bq_zone b) (bq_request_id b) (bq_base b) (bq_next b) (JList (bq_ops b))
      (bq_fingerprint b) d = (res, d1)" by (metis surj_pair)
  show ?thesis
  proof (cases res)
    case (Inl x)
    with run Inr c have d1: "d' = d1" by (simp add: api_publish_def)
    show ?thesis
      unfolding d1 using c [unfolded Inl]
    proof (cases rule: publish_cases)
      case (failed z a)
      then have "p_status (request_entry (a_ts env) (z_name z) (bq_request_id b) (bq_fingerprint b) (FAILED a) (bq_base b) (bq_next b)) = FAILED a"
        by (simp add: request_entry_def)
      with failed(5) show "d1 = d \<or> (\<exists>row e. p_status row = FAILED e \<and> d1 = d\<lparr>publish_requests := publish_requests d @ [row]\<rparr>)"
        by blast
    qed simp_all
  next
    case (Inr x)
    with run \<open>check_publish (a_sha256 env) zn body = Inr b\<close> c e show ?thesis
      by (auto simp: api_publish_def respond_def)
  qed
qed

lemma post_error:
  assumes wf: "wf_db d" and p: "do_POST env path cl raw d = ((status, Error_Body code msg details), d')"
  shows "d' = d \<or> (\<exists>row e. p_status row = FAILED e \<and> d' = d\<lparr>publish_requests := publish_requests d @ [row]\<rparr>)"
proof (cases "read_json (a_loads env) cl raw")
  case (Inl e)
  with p show ?thesis by (simp add: do_POST_def)
next
  case (Inr body)
  from p Inr obtain r where r: "route_post env path body d = (r, d')" "respond r = (status, Error_Body code msg details)"
    by (auto simp: do_POST_def split: prod.splits)
  consider "d' = d" | "api_create_zone env body d = (r, d')" | zn where "api_publish env zn body d = (r, d')"
    | zn where "api_install_key env zn body d = (r, d')" | zn k where "api_revoke_key env zn k d = (r, d')"
    using r(1) by (auto simp: route_post_def split: list.splits if_splits)
  then show ?thesis
  proof cases
    case 2
    from create_error [OF wf 2 r(2)] show ?thesis by simp
  next
    case (3 zn)
    from publish_error [OF 3 r(2)] show ?thesis .
  next
    case (4 zn)
    with r(2) show ?thesis
      by (auto simp: api_install_key_def respond_def split: sum.splits prod.splits dest: install_key_Inl)
  next
    case (5 zn k)
    with r(2) show ?thesis
      by (auto simp: api_revoke_key_def respond_def split: sum.splits prod.splits dest: revoke_key_Inl)
  qed simp
qed

lemma put_error:
  assumes "do_PUT env path cl raw d = ((status, Error_Body code msg details), d')"
  shows "d' = d"
proof -
  have s: "set_retention now now' zone n d = (Inl e, d1) \<Longrightarrow> d1 = d" for now now' zone n e d1
    by (auto simp: set_retention_def split: sum.splits)
  show ?thesis
    using assms by (auto simp: do_PUT_def api_set_retention_def respond_def Let_def dest!: s
        split: sum.splits list.splits if_splits prod.splits json.splits)
qed

subsection \<open>Properties\<close>

text \<open>
  C27.  An error response of the management API means that nothing happened: after a POST or a PUT
  that is answered with an error, whatever its code, the database is as before, up to one row of
  the publish ledger that records the failure.
\<close>

theorem error_response_changes_nothing:
  assumes "reachable d"
    and "do_POST env path cl raw d = ((status, Error_Body code msg details), d') \<or>
      do_PUT env path cl raw d = ((status, Error_Body code msg details), d')"
  shows "d' = d \<or> (\<exists>row e. p_status row = FAILED e \<and> d' = d\<lparr>publish_requests := publish_requests d @ [row]\<rparr>)"
  using assms(2)
proof
  assume "do_POST env path cl raw d = ((status, Error_Body code msg details), d')"
  from post_error [OF reachable_wf [OF assms(1)] this] show ?thesis .
next
  assume "do_PUT env path cl raw d = ((status, Error_Body code msg details), d')"
  from put_error [OF this] show ?thesis by simp
qed

theorem error_response_changes_nothing_witness:
  "\<exists>code msg details d'. demo_post ''/v1/zones'' demo_create 4000 demo3 = ((409, Error_Body code msg details), d') \<and>
    length (zones d') = length (zones demo3)"
proof -
  have "fst (fst (demo_post ''/v1/zones'' demo_create 4000 demo3)) = 409 \<and>
      (case snd (fst (demo_post ''/v1/zones'' demo_create 4000 demo3)) of Error_Body _ _ _ \<Rightarrow> True | _ \<Rightarrow> False)" by code_simp
  then obtain code msg details d' where
    p: "demo_post ''/v1/zones'' demo_create 4000 demo3 = ((409, Error_Body code msg details), d')"
    by (cases "demo_post ''/v1/zones'' demo_create 4000 demo3") (auto split: api_body.splits)
  from error_response_changes_nothing [OF demo_reachable(3) disjI1 [OF p [unfolded demo_post_def]]] p
  show ?thesis by auto
qed

lemma canon_value_SOA_ttl:
  "canon_value ''SOA'' (obj_set ''serial'' sr (obj_set ''_ttl'' x soa)) zone =
   canon_value ''SOA'' (obj_set ''serial'' sr (obj_set ''_ttl'' y soa)) zone"
  by (simp add: canon_value_def obj_get_set)

lemma create_rows_ttl:
  assumes "create_rows zone serial (obj_set ''_ttl'' (JInt t) soa) ns = Inr rows"
  obtains sj sw nsr where "rows = (''SOA'', t, sj, sw) # nsr"
    "create_rows zone serial (obj_set ''_ttl'' (JInt t') soa) ns = Inr ((''SOA'', t', sj, sw) # nsr)"
proof -
  let ?v = "\<lambda>x. JObj (obj_set ''serial'' (JInt serial) (obj_set ''_ttl'' (JInt x) soa))"
  have c: "canonical_rdata ''SOA'' (?v t') zone = canonical_rdata ''SOA'' (?v t) zone"
    unfolding canonical_rdata_def by (simp add: canon_value_SOA_ttl [of "JInt serial" "JInt t'" soa zone "JInt t"])
  from assms obtain sj sw nsr where "canonical_rdata ''SOA'' (?v t) zone = Inr (sj, sw)" "ns_rows zone ns [] = Inr nsr"
    "rows = (''SOA'', t, sj, sw) # nsr"
    by (auto simp: create_rows_def bindE_Inr_iff obj_get_set)
  with c show ?thesis by (intro that [of sj sw nsr]) (simp_all add: create_rows_def obj_get_set)
qed

lemma create_zone_ttl:
  assumes "create_zone ts zone serial (obj_set ''_ttl'' (JInt t) soa) ns retain d = (Inr (), d')"
  shows "\<exists>d''. create_zone ts zone serial (obj_set ''_ttl'' (JInt t') soa) ns retain d = (Inr (), d'')"
  using assms
proof (rule create_zone_Inr)
  fix rows
  assume r: "create_rows zone serial (obj_set ''_ttl'' (JInt t) soa) ns = Inr rows" and f: "find_zone d zone = None"
    and k: "distinct (map record_key (map (create_row zone) rows))"
      "record_key ` set (map (create_row zone) rows) \<inter> record_key ` set (records d) = {}"
      "(zone, 0) \<notin> version_key ` set (versions d)" "(zone, serial) \<notin> version_serial_key ` set (versions d)"
  from r obtain sj sw nsr where rows: "rows = (''SOA'', t, sj, sw) # nsr"
    and r': "create_rows zone serial (obj_set ''_ttl'' (JInt t') soa) ns = Inr ((''SOA'', t', sj, sw) # nsr)"
    by (rule create_rows_ttl)
  let ?rs = "map (create_row zone) ((''SOA'', t', sj, sw) # nsr)"
  let ?v = "\<lparr>v_zone = zone, v_version_id = 0, v_serial = serial, v_request_id = ''__create__'', v_created_at = ts\<rparr>"
  have "map record_key ?rs = map record_key (map (create_row zone) rows)"
    by (simp add: rows record_key_def create_row_def)
  then have "insert_all record_key ?rs (records d) = Inr (records d @ ?rs)"
    using k(1,2) by (simp only: insert_all_Inr_iff flip: set_map)
  moreover have "insert_version ?v (versions d) = Inr (versions d @ [?v])"
    using k(3,4) by (auto simp: insert_version_def insert_unique_def version_key_def version_serial_key_def)
  ultimately show ?thesis using f by (simp add: create_zone_def r')
qed

definition demo_bad_ttl :: "(string \<times> json) list" where
  "demo_bad_ttl = [(''name'', JStr ''a.''), (''serial'', JInt 1), (''soa'', JObj (demo_soa 1 @ [(''_ttl'', JInt (-1))])),
     (''ns'', JList [JStr ''n.a.''])]"

text \<open>
  The TTL of the SOA record is the one field of a create request that is not checked.  Whether
  a create succeeds does not depend on the integer that the SOA object has as \<open>_ttl\<close>; the
  integer is stored as it is; and the SOA record of the new zone, the first of every transfer,
  encodes exactly when the integer is in the range of a TTL.  The reachable databases therefore
  exclude requests with another one.
\<close>

theorem bad_ttl_zone_unservable:
  assumes d: "reachable d" and z: "canonical_form zone"
    and run: "create_zone ts zone serial (obj_set ''_ttl'' (JInt t) soa) ns retain d = (Inr (), d')"
  shows "(\<exists>d''. create_zone ts zone serial (obj_set ''_ttl'' (JInt t') soa) ns retain d = (Inr (), d'')) \<and>
    (\<exists>r. find_soa d' zone 0 = Some r \<and> r_ttl r = t \<and>
      ((\<exists>w. rr_wire r = Inr w) \<longleftrightarrow> 0 \<le> t \<and> t \<le> 0xFFFFFFFF))"
proof (rule conjI)
  show "\<exists>d''. create_zone ts zone serial (obj_set ''_ttl'' (JInt t') soa) ns retain d = (Inr (), d'')"
    using run by (rule create_zone_ttl)
  from reachable_wf [OF d] have wf: "wf_db d" .
  from wf run obtain rows ttl sj sw nsr where
    r: "create_rows zone serial (obj_set ''_ttl'' (JInt t) soa) ns = Inr rows" "rows = (''SOA'', ttl, sj, sw) # nsr"
    and ttl: "py_int (obj_get (obj_set ''_ttl'' (JInt t) soa) ''_ttl'' (JInt 3600)) = Inr ttl"
    and soa: "find_soa d' zone 0 = Some (create_row zone (''SOA'', ttl, sj, sw))"
    by (rule create_zone_soa)
  from ttl have [simp]: "ttl = t" by (simp add: obj_get_set)
  from r(1) z obtain "length sw \<le> 530" by (rule create_rows_Inr) (use r(2) in auto)
  moreover from supported_type_number [of "''SOA''"] obtain k where "k < 65536" "TYPES_BY_NAME ''SOA'' = Some k"
    by (auto simp: SUPPORTED_TYPES_def)
  moreover obtain n where "encode_name zone = Inr n" using z by (auto simp: canonical_form_def)
  ultimately show "\<exists>r. find_soa d' zone 0 = Some r \<and> r_ttl r = t \<and>
      ((\<exists>w. rr_wire r = Inr w) \<longleftrightarrow> 0 \<le> t \<and> t \<le> 0xFFFFFFFF)"
    by (simp add: soa) (simp add: create_row_def rr_wire_def type_rr_wire_Inr_iff)
qed

text \<open>Through the interface: a request with \<open>_ttl\<close> -1 is answered 201, and a query for the zone raises.\<close>

theorem bad_ttl_zone_unservable_witness:
  "fst (fst (demo_post ''/v1/zones'' demo_bad_ttl 1000 empty_db)) = 201 \<and>
   bindE (parse_query demo_soa_query) (\<lambda>q. answer_question q (snd (demo_post ''/v1/zones'' demo_bad_ttl 1000 empty_db))) =
     Inl (WireError ''u32 out of range'') \<and>
   (\<exists>d' r. create_zone 0 ''a.'' 1 (obj_set ''_ttl'' (JInt (-1)) (demo_soa 1)) [JStr ''n.a.''] 10 empty_db = (Inr (), d') \<and>
     find_soa d' ''a.'' 0 = Some r \<and> \<not> (\<exists>w. rr_wire r = Inr w))"
proof (intro conjI)
  let ?r = "create_zone 0 ''a.'' 1 (obj_set ''_ttl'' (JInt (-1)) (demo_soa 1)) [JStr ''n.a.''] 10 empty_db"
  show "fst (fst (demo_post ''/v1/zones'' demo_bad_ttl 1000 empty_db)) = 201" by code_simp
  show "bindE (parse_query demo_soa_query) (\<lambda>q. answer_question q (snd (demo_post ''/v1/zones'' demo_bad_ttl 1000 empty_db))) =
     Inl (WireError ''u32 out of range'')" by code_simp
  have "fst ?r = Inr ()" by code_simp
  then have run: "?r = (Inr (), snd ?r)" by (metis prod.collapse)
  have "ends_with ''a.'' ''.''" "wire_name_of ''a.'' = ''a.''" "encode_name ''a.'' = Inr [1, 97, 0]" by code_simp+
  then have "canonical_form ''a.''" by (simp add: canonical_form_def)
  from bad_ttl_zone_unservable [OF reach_start this run] run
  show "\<exists>d' r. ?r = (Inr (), d') \<and> find_soa d' ''a.'' 0 = Some r \<and> \<not> (\<exists>w. rr_wire r = Inr w)" by force
qed

end
