(* ===== verification/Fingerprint.thy ===== *)
theory Fingerprint
  imports Http_Theorems "HOL-Library.Multiset"
begin

text \<open>
  The request fingerprint: the JSON text it hashes determines the serials and the normalised
  operations up to their order, and why the order matters.
\<close>

subsection \<open>Self-delimiting texts\<close>

text \<open>
  What the list printer needs of its elements: a text says where it ends, and opens with a
  brace, so that it is not mistaken for the end of the list.
\<close>

locale object_text =
  fixes text_of :: "'a \<Rightarrow> string"
  assumes text_prefix: "text_of a @ x = text_of b @ y \<Longrightarrow> a = b \<and> x = y"
    and text_brace: "\<exists>s. text_of a = CHR ''{'' # s"
begin

definition tail_of :: "'a list \<Rightarrow> string" where
  "tail_of xs = concat (map (\<lambda>a. '','' @ text_of a) xs) @ '']''"

lemma join_tail: "join_on '','' (map text_of (a # xs)) @ '']'' @ x = text_of a @ tail_of xs @ x"
proof (induction xs arbitrary: a)
  case (Cons b xs)
  from Cons [of b] show ?case by (simp add: tail_of_def)
qed (simp add: tail_of_def)

lemma tail_prefix: "tail_of xs @ x = tail_of ys @ y \<Longrightarrow> xs = ys \<and> x = y"
proof (induction xs arbitrary: ys)
  case Nil
  then show ?case by (cases ys) (auto simp: tail_of_def)
next
  case (Cons a xs)
  then obtain b ys' where ys: "ys = b # ys'" by (cases ys) (auto simp: tail_of_def)
  with Cons.prems have "text_of a @ tail_of xs @ x = text_of b @ tail_of ys' @ y" by (simp add: tail_of_def)
  from text_prefix [OF this] Cons.IH [of ys'] ys show ?case by simp
qed

lemma list_prefix:
  assumes "join_on '','' (map text_of xs) @ '']'' @ x = join_on '','' (map text_of ys) @ '']'' @ y"
  shows "xs = ys \<and> x = y"
proof -
  have ne: "text_of a @ s \<noteq> '']'' @ t" for a s t using text_brace [of a] by auto
  show ?thesis
  proof (cases xs)
    case Nil
    show ?thesis
    proof (cases ys)
      case (Cons b ys')
      with assms Nil have "'']'' @ x = text_of b @ tail_of ys' @ y" using join_tail [of b ys' y] by simp
      with ne [of b "tail_of ys' @ y" x] show ?thesis by simp
    qed (use assms Nil in simp)
  next
    case (Cons a xs')
    then have l: "text_of a @ tail_of xs' @ x = join_on '','' (map text_of ys) @ '']'' @ y"
      using assms join_tail [of a xs' x] by simp
    then obtain b ys' where ys: "ys = b # ys'" using ne [of a "tail_of xs' @ x" y] by (cases ys) auto
    with l have "text_of a @ tail_of xs' @ x = text_of b @ tail_of ys' @ y" using join_tail [of b ys' y] by simp
    from text_prefix [OF this] have "a = b" "tail_of xs' @ x = tail_of ys' @ y" by auto
    with tail_prefix [OF this(2)] Cons ys show ?thesis by simp
  qed
qed

end

lemma rdata_text_prefix: "rdata_text a @ x = rdata_text b @ y \<Longrightarrow> a = b \<and> x = y"
proof -
  assume e: "rdata_text a @ x = rdata_text b @ y"
  have sep: "\<not> int_char CHR '',''" "\<not> int_char CHR ''}''"
    by (simp_all add: int_char_def is_digit_def)
  note p = dec_int_prefix [OF _ sep(1) sep(1)] dec_int_prefix [OF _ sep(2) sep(2)]
  show ?thesis
    using e
    by (cases a; cases b)
      (auto simp: json_obj_def json_field_def json_str_prefix dest!: p intro!: soa_data.equality)
qed

interpretation rdata_texts: object_text rdata_text
proof
  show "\<exists>s. rdata_text a = CHR ''{'' # s" for a by (cases a) (simp_all add: json_obj_def)
qed (rule rdata_text_prefix)

lemma norm_op_text_prefix: "norm_op_text a @ x = norm_op_text b @ y \<Longrightarrow> a = b \<and> x = y"
proof -
  assume e: "norm_op_text a @ x = norm_op_text b @ y"
  have sep: "\<not> int_char CHR '',''" by (simp add: int_char_def is_digit_def)
  note p = dec_int_prefix [OF _ sep sep]
  have l: "join_on '','' (map rdata_text rs) @ CHR '']'' # s = join_on '','' (map rdata_text rs') @ CHR '']'' # s' \<Longrightarrow>
      rs = rs' \<and> s = s'" for rs rs' s s'
    using rdata_texts.list_prefix [of rs s rs' s'] by simp
  show ?thesis
    using e
    by (cases "n_replace a"; cases "n_replace b")
      (auto simp: norm_op_text_def json_obj_def json_field_def json_str_prefix
        dest!: p l intro!: norm_op.equality split: prod.splits)
qed

interpretation op_texts: object_text norm_op_text
proof
  show "\<exists>s. norm_op_text a = CHR ''{'' # s" for a by (simp add: norm_op_text_def json_obj_def)
qed (rule norm_op_text_prefix)

subsection \<open>Properties\<close>

text \<open>
  C39.  The text that a request fingerprint hashes identifies the request: two payloads are equal
  exactly when the base serials, the next serials and the normalised operations (name, type,
  action, and TTL with canonical records of a replacement) are equal, the operations up to a
  stable reordering by name, type and action.
\<close>

theorem fingerprint_identifies:
  "fingerprint_payload base nxt ns = fingerprint_payload base' nxt' ns' \<longleftrightarrow>
    base = base' \<and> nxt = nxt' \<and>
    sort_key (\<lambda>n. (n_name n, n_type n, n_action n)) ns = sort_key (\<lambda>n. (n_name n, n_type n, n_action n)) ns'"
    (is "?l = ?r")
proof
  assume e: ?l
  have sep: "\<not> int_char CHR '',''" by (simp add: int_char_def is_digit_def)
  have l: "join_on '','' (map norm_op_text rs) = join_on '','' (map norm_op_text rs') \<Longrightarrow> rs = rs'" for rs rs'
    using op_texts.list_prefix [of rs "[]" rs' "[]"] by simp
  show ?r
    using e unfolding fingerprint_payload_def
    by (auto simp: json_obj_def json_field_def json_str_prefix dest!: dec_int_prefix [OF _ sep sep] l)
next
  assume ?r
  then show ?l by (simp add: fingerprint_payload_def)
qed

lemma norm_op_of_idx: "norm_op_of zone i op = Inr n \<Longrightarrow> norm_op_of zone j op = Inr n"
  by (auto simp: norm_op_of_def Let_def bindE_Inr_iff split: json.splits if_splits)

lemma norm_ops_of_Inr_iff:
  "norm_ops_of zone i ops = Inr ns \<longleftrightarrow> list_all2 (\<lambda>op n. norm_op_of zone 0 op = Inr n) ops ns"
proof (induction ops arbitrary: i ns)
  case (Cons op ops)
  have "norm_op_of zone i op = Inr n \<longleftrightarrow> norm_op_of zone 0 op = Inr n" for n using norm_op_of_idx by blast
  then show ?case by (auto simp: bindE_Inr_iff Cons.IH list_all2_Cons1)
qed auto

lemma norm_ops_of_perm:
  assumes "norm_ops_of zone 0 ops = Inr ns" and p: "mset ops = mset ops'"
  obtains ns' where "norm_ops_of zone 0 ops' = Inr ns'" "mset ns' = mset ns"
  using list_all2_reorder_left_invariance [of "\<lambda>op n. norm_op_of zone 0 op = Inr n" ops ns ops'] assms
  by (auto simp: norm_ops_of_Inr_iff)

definition demo_delete :: json where
  "demo_delete = JObj [(''action'', JStr ''delete''), (''name'', JStr ''w''), (''type'', JStr ''A'')]"

definition demo_replace :: json where
  "demo_replace = JObj [(''action'', JStr ''replace''), (''name'', JStr ''w''), (''type'', JStr ''A''),
     (''records'', JList [JObj [(''address'', JStr ''192.0.2.1'')]])]"

definition rrset_after :: "json list \<Rightarrow> rrset option" where
  "rrset_after ops =
     (case apply_ops ''a.'' (JList ops) (load_rrsets demo3 ''a.'' 1, []) of
        Inl e \<Rightarrow> None | Inr (rs, changed) \<Rightarrow> rr_lookup rs ''w.a.'' ''A'')"

text \<open>
  The fingerprint forgets the order of a changeset: operations that normalise to distinct
  names, types and actions have the same fingerprint in every order, although the changeset is
  applied in order.
\<close>

theorem fingerprint_forgets_order:
  assumes n: "norm_ops_of zone 0 ops = Inr ns" and d: "distinct (map (\<lambda>n. (n_name n, n_type n, n_action n)) ns)"
    and p: "mset ops = mset ops'"
  shows "canonical_fingerprint hash base nxt ops' zone = canonical_fingerprint hash base nxt ops zone"
proof -
  let ?k = "\<lambda>n. (n_name n, n_type n, n_action n)"
  from n p obtain ns' where n': "norm_ops_of zone 0 ops' = Inr ns'" and m: "mset ns' = mset ns"
    by (rule norm_ops_of_perm)
  from d mset_eq_setD [OF m] have "inj_on ?k (set ns')" by (simp add: distinct_map)
  then have "sort_key ?k ns' = sort_key ?k ns" by (intro sort_key_inj_key_eq) (simp_all add: m)
  with n n' show ?thesis by (simp add: canonical_fingerprint_def fingerprint_payload_def)
qed

text \<open>
  Two requests that delete and replace one RRset in opposite orders have the same fingerprint; one
  leaves the RRset in the zone and the other removes it.
\<close>

theorem fingerprint_forgets_order_witness:
  "canonical_fingerprint (\<lambda>s. s) 2 3 [demo_delete, demo_replace] ''a.'' =
     canonical_fingerprint (\<lambda>s. s) 2 3 [demo_replace, demo_delete] ''a.'' \<and>
   rrset_after [demo_replace, demo_delete] = None \<and> rrset_after [demo_delete, demo_replace] \<noteq> None"
proof (intro conjI)
  let ?ops = "[demo_replace, demo_delete]"
  have n: "norm_ops_of ''a.'' 0 ?ops = Inr (projr (norm_ops_of ''a.'' 0 ?ops))" by code_simp
  have d: "distinct (map (\<lambda>n. (n_name n, n_type n, n_action n)) (projr (norm_ops_of ''a.'' 0 ?ops)))" by code_simp
  from fingerprint_forgets_order [OF n d, of "[demo_delete, demo_replace]"]
  show "canonical_fingerprint (\<lambda>s. s) 2 3 [demo_delete, demo_replace] ''a.'' = canonical_fingerprint (\<lambda>s. s) 2 3 ?ops ''a.''"
    by (simp add: add_mset_commute)
  show "rrset_after ?ops = None" "rrset_after [demo_delete, demo_replace] \<noteq> None" by code_simp+
qed

end
