(* ===== verification/Stream_Client.thy ===== *)
theory Stream_Client
  imports Fingerprint Transfer_Theorems
begin

text \<open>
  The receiving side of \<open>app/dnsclient.py\<close>: \<open>_recv\<close>, \<open>tcp_query\<close> and the reading loop
  of \<open>tcp_transfer\<close>, on the bytes that arrive before the connection is closed.  However TCP
  cuts them, \<open>_recv\<close> joins the chunks.  A time-out or a reset, which only ends the loop
  earlier, is not modelled.
\<close>

text \<open>\<open>None\<close> at the end of the stream; a short read at its end is returned as it is.\<close>

definition client_recv :: "nat \<Rightarrow> bytes \<Rightarrow> bytes option \<times> bytes" where
  "client_recv n input = (if n = 0 then (Some [], input) else if input = [] then (None, []) else (Some (take n input), drop n input))"

function tcp_transfer :: "bytes \<Rightarrow> exn + bytes option list" where
  "tcp_transfer input =
     (case client_recv 2 input of
        (None, rest) \<Rightarrow> Inr []
      | (Some head, rest) \<Rightarrow>
        (case unpack16 head of
           Inl e \<Rightarrow> Inl e
         | Inr n \<Rightarrow>
           (case tcp_transfer (snd (client_recv n rest)) of
              Inl e \<Rightarrow> Inl e
            | Inr ms \<Rightarrow> Inr (fst (client_recv n rest) # ms))))"
  by pat_completeness auto
termination
  by (relation "measure length") (auto simp: client_recv_def split: if_splits)

declare tcp_transfer.simps [simp del]

text \<open>
  \<open>tcp_query\<close>: what is sent, and what one framed answer is read as.  At the end of the stream
  \<open>struct.unpack\<close> gets \<open>None\<close>.
\<close>

definition tcp_query_send :: "bytes \<Rightarrow> exn + bytes" where
  "tcp_query_send message = bindE (pack16 (length message)) (\<lambda>l. Inr (l @ message))"

definition tcp_query :: "bytes \<Rightarrow> exn + bytes option" where
  "tcp_query input =
     (case client_recv 2 input of
        (None, rest) \<Rightarrow> Inl TypeError
      | (Some head, rest) \<Rightarrow> bindE (unpack16 head) (\<lambda>n. Inr (fst (client_recv n rest))))"

lemma client_recv_all: "msg \<noteq> [] \<Longrightarrow> client_recv (length msg) (msg @ rest) = (Some msg, rest)"
  by (simp add: client_recv_def)

lemma tcp_query_frame:
  assumes "frame msg = Inr f" and "msg \<noteq> []"
  shows "tcp_query (f @ rest) = Inr (Some msg)" and "tcp_query_send msg = Inr f"
proof -
  from assms(1) have f: "f = be16 (length msg) @ msg" "length msg < 65536"
    by (auto simp: frame_def pack16_def bindE_Inr_iff split: if_splits)
  then show "tcp_query_send msg = Inr f" by (simp add: tcp_query_send_def pack16_def)
  have "client_recv 2 (f @ rest) = (Some (be16 (length msg)), msg @ rest)"
    by (simp add: client_recv_def f be16_def)
  then show "tcp_query (f @ rest) = Inr (Some msg)"
    using f(2) assms(2) by (simp add: tcp_query_def client_recv_all)
qed

lemma tcp_transfer_frame:
  assumes "length msg < 65536" and "msg \<noteq> []"
  shows "tcp_transfer (be16 (length msg) @ msg @ rest) =
    (case tcp_transfer rest of Inl e \<Rightarrow> Inl e | Inr ms \<Rightarrow> Inr (Some msg # ms))"
proof -
  have "be16 (length msg) \<noteq> []" by (simp add: be16_def)
  then have "client_recv 2 (be16 (length msg) @ msg @ rest) = (Some (be16 (length msg)), msg @ rest)"
    by (simp add: client_recv_def)
  then show ?thesis using assms by (subst tcp_transfer.simps) (simp add: client_recv_all split: sum.split)
qed

lemma tcp_transfer_Nil: "tcp_transfer [] = Inr []"
  by (subst tcp_transfer.simps) (simp add: client_recv_def)

lemma parse_message_ne: "parse_message msg = Inr m \<Longrightarrow> msg \<noteq> []"
  by (auto simp: parse_message_def unpack_header_def slice_def split: if_splits)

lemma tcp_transfer_frames:
  "list_all2 frame_reads fs ms \<Longrightarrow>
    \<exists>raws. tcp_transfer (concat fs) = Inr (map Some raws) \<and> map parse_message raws = map Inr ms"
proof (induction fs ms rule: list_all2_induct)
  case (Cons f fs m ms)
  then obtain raws where r: "tcp_transfer (concat fs) = Inr (map Some raws)" "map parse_message raws = map Inr ms" by blast
  from Cons.hyps(1) obtain msg where m: "f = be16 (length msg) @ msg" "length msg \<le> 65535" "parse_message msg = Inr m"
    by (auto simp: frame_reads_def)
  have "tcp_transfer (concat (f # fs)) = Inr (map Some (msg # raws))"
    using tcp_transfer_frame [of msg "concat fs"] parse_message_ne [OF m(3)] m(1,2) r(1) by simp
  with m(3) r(2) show ?case by (intro exI [of _ "msg # raws"]) simp
qed (simp add: tcp_transfer_Nil)

text \<open>
  What the service delivers, the client receives: from the bytes of a delivered transfer, in
  whatever pieces they arrive, the client's reading loop returns the messages one by one, each
  parses, their answer sections together are the records of the payload in order, the first
  verifies against the request MAC and the last against the MAC of the first.
\<close>

theorem client_receives_transfer:
  assumes "delivered hm p q xs fs"
  shows "\<exists>raws ms t mac1 mac2. tcp_transfer (concat fs) = Inr (map Some raws) \<and> map parse_message raws = map Inr ms \<and>
    concat (map m_answers ms) = map data_rr xs \<and> q_tsig q = Some t \<and> ms \<noteq> [] \<and>
    verify_response_mac hm (hd ms) (tp_secret p) (t_mac t) (tp_key_name p) = Inr (Some mac1) \<and>
    (tl ms \<noteq> [] \<longrightarrow> verify_response_mac hm (last ms) (tp_secret p) mac1 (tp_key_name p) = Inr (Some mac2))"
proof -
  from assms obtain t m1 ms xss mac1 mac2 where d: "q_tsig q = Some t" "list_all2 frame_reads fs (m1 # ms)" "concat xss = xs"
    "list_all2 (batch_view (q_id q) (tp_zone p) (transfer_qtype p)) xss (m1 # ms)"
    "verifies hm p m1 (t_mac t) mac1" "ms \<noteq> [] \<longrightarrow> verifies hm p (last ms) mac1 mac2"
    unfolding delivered_def by blast
  from tcp_transfer_frames [OF d(2)] obtain raws where r: "tcp_transfer (concat fs) = Inr (map Some raws)"
    "map parse_message raws = map Inr (m1 # ms)" by blast
  have a: "list_all2 (batch_view (q_id q) (tp_zone p) (transfer_qtype p)) yss ns \<Longrightarrow>
      concat (map m_answers ns) = map data_rr (concat yss)" for yss ns
    by (induction yss ns rule: list_all2_induct) (auto simp: batch_view_def)
  show ?thesis
    using r d a [OF d(4)]
    by (intro exI [of _ raws] exI [of _ "m1 # ms"] exI [of _ t] exI [of _ mac1] exI [of _ mac2]) (simp add: verifies_def)
qed

theorem client_receives_transfer_witness:
  "\<exists>q p d1 fs raws. authorize_transfer hmac_sha256 5 5 5000 ''i'' ''r'' q demo3 = (Inr p, d1) \<and>
    send_transfer hmac_sha256 65000 5 p q d1 = (fs, Inr ()) \<and> tcp_transfer (concat fs) = Inr (map Some raws)"
proof -
  have ax: "TYPE_AXFR = TYPE_AXFR \<or> TYPE_AXFR = TYPE_IXFR" by simp
  obtain wire q p d1 t where g: "parse_query wire = Inr q" "q_qtype q = TYPE_AXFR" "q_tsig q = Some t"
    "authorize_transfer hmac_sha256 5 5 5000 ''i'' ''r'' q demo3 = (Inr p, d1)" "tp_key_name p = ''k.''"
    by (rule demo_granted [OF ax])
  note wf = reachable_wf [OF demo_reachable(3)]
  have wf1: "wf_db d1" using authorized_pin [OF wf g(4)] by simp
  obtain t' where t': "q_tsig q = Some t'" "expected_request_mac hmac_sha256 (tp_secret p) q = Inr (t_mac t')"
    using authorized_tsig [OF g(4)] by blast
  have hm: "\<forall>key m. length (hmac_sha256 key m) = 32" by simp
  have "length (t_mac t') < 65536" using expected_request_mac_length [OF t'(2) hm] by simp
  moreover have "encode_name (tp_key_name p) = Inr [1, 107, 0]" by (simp add: g(5) demo_facts)
  ultimately obtain fs where fs: "send_transfer hmac_sha256 65000 5 p q d1 = (fs, Inr ())"
    "delivered hmac_sha256 p q (transfer_payload d1 p) fs"
    using send_transfer_delivers [OF wf1 authorized_plan_for [OF wf g(4)] authorized_mode [OF g(4) disjI1 [OF g(2)]] t'(1) _
        parse_query_id [OF g(1)] _ _ hm, of "[1, 107, 0]" 65000 5] by auto
  from client_receives_transfer [OF fs(2)] fs(1) g(4) show ?thesis by blast
qed

subsection \<open>What the MACs do not cover\<close>


definition demo_plan :: plan where
  "demo_plan = \<lparr>tp_mode = Some MODE_AXFR, tp_zone = ''a.'', tp_target_version = 1, tp_target_serial = 2, tp_min_version = 1,
     tp_ref_id = ''r'', tp_key_name = ''k.'', tp_secret = [1, 2, 3], tp_qid = 1\<rparr>"

definition demo_signed :: query where
  "demo_signed = demo_unsigned\<lparr>q_tsig := Some \<lparr>t_name = ''k.'', t_algorithm = ''hmac-sha256.'', t_time = 5, t_fudge = 300,
     t_mac = [7], t_orig_id = 1, t_error = 0, t_other = []\<rparr>\<rparr>"


end
