(* ===== verification/Acceptance.thy ===== *)
theory Acceptance
  imports Stream_Client Api_Json
begin

text \<open>
  The harness of the acceptance service \<open>app/verify.py\<close>: the list of edges, the HTTP client
  that goes round them, the counters, and the DNS helpers.  The script runs over a network, a record of
  what a request to a host and port returns and leaves; \<open>Acceptance_Service\<close> instantiates it with
  the handlers of this development.  Of what \<open>check\<close> prints the name and the verdict are kept, not
  the detail.
\<close>

subsection \<open>The edges\<close>

record edge =
  ed_alias :: string
  ed_host :: string
  ed_api_port :: int
  ed_dns_port :: int

definition split_once :: "char \<Rightarrow> string \<Rightarrow> string \<times> string" where
  "split_once c s = (takeWhile (\<lambda>x. x \<noteq> c) s, tl (dropWhile (\<lambda>x. x \<noteq> c) s))"

definition port_of :: "string list \<Rightarrow> nat \<Rightarrow> int \<Rightarrow> exn + int" where
  "port_of parts i fallback =
     (if i < length parts \<and> parts ! i \<noteq> [] then int_of_str (parts ! i) else Inr fallback)"

definition parse_edge :: "int \<Rightarrow> int \<Rightarrow> string \<Rightarrow> exn + edge" where
  "parse_edge api_port dns_port raw =
     (let stripped = py_strip raw;
          (alias, spec) = (if CHR ''@'' \<in> set stripped then split_once CHR ''@'' stripped else ([], stripped));
          parts = split_on CHR '':'' spec; host = hd parts in
      bindE (port_of parts 1 api_port) (\<lambda>api_p.
      bindE (port_of parts 2 dns_port) (\<lambda>dns_p.
        Inr \<lparr>ed_alias = (if alias \<noteq> [] then alias else host), ed_host = host, ed_api_port = api_p,
          ed_dns_port = dns_p\<rparr>)))"

definition parse_edges :: "int \<Rightarrow> int \<Rightarrow> string \<Rightarrow> exn + edge list" where
  "parse_edges api_port dns_port env = mapE (parse_edge api_port dns_port) (split_on CHR '','' env)"

record config =
  cf_edges :: "edge list"
  cf_api_port :: int
  cf_dns_port :: int

definition edge_for :: "config \<Rightarrow> string \<Rightarrow> string \<times> int \<times> int" where
  "edge_for cf key =
     (case find (\<lambda>e. ed_alias e = key) (cf_edges cf) of
        Some e \<Rightarrow> (ed_host e, ed_api_port e, ed_dns_port e)
      | None \<Rightarrow> (key, cf_api_port cf, cf_dns_port cf))"

definition edge_hosts :: "config \<Rightarrow> string list" where
  "edge_hosts cf = map ed_alias (cf_edges cf)"

subsection \<open>The network and the state of the script\<close>

datatype http_reply = Http_Reply int bytes | Unreachable

text \<open>
  A request to a host and a port; \<open>None\<close> is a UDP query that times out.  A TCP exchange returns
  what arrives before the connection is closed.
\<close>

record 'n network =
  n_http :: "string \<Rightarrow> int \<Rightarrow> string \<Rightarrow> string \<Rightarrow> bytes option \<Rightarrow> 'n \<Rightarrow> http_reply \<times> 'n"
  n_udp :: "string \<Rightarrow> int \<Rightarrow> bytes \<Rightarrow> 'n \<Rightarrow> bytes option \<times> 'n"
  n_tcp :: "string \<Rightarrow> int \<Rightarrow> bytes \<Rightarrow> 'n \<Rightarrow> bytes \<times> 'n"
  n_now :: "'n \<Rightarrow> int"
  n_sleep :: "int \<Rightarrow> 'n \<Rightarrow> 'n"

record 'n world =
  w_net :: 'n
  w_rr :: nat
  w_pass :: nat
  w_fail :: nat
  w_log :: "(string \<times> bool) list"

text \<open>The script starts with its counters at 0.\<close>

definition fresh_world :: "'n \<Rightarrow> 'n world" where
  "fresh_world n = \<lparr>w_net = n, w_rr = 0, w_pass = 0, w_fail = 0, w_log = []\<rparr>"

datatype crash = Crash exn | Index_Error | Socket_Timeout | Url_Error | Json_Error | Runtime_Error string

text \<open>A step of the script: an exception that leaves it, or a value, and the world after it.\<close>

type_synonym ('n, 'a) script = "'n world \<Rightarrow> (crash + 'a) \<times> 'n world"

definition bindS :: "('n, 'a) script \<Rightarrow> ('a \<Rightarrow> ('n, 'b) script) \<Rightarrow> ('n, 'b) script" where
  "bindS m k w = (case m w of (Inl e, w') \<Rightarrow> (Inl e, w') | (Inr x, w') \<Rightarrow> k x w')"

definition returnS :: "'a \<Rightarrow> ('n, 'a) script" where
  "returnS x w = (Inr x, w)"

definition raiseS :: "crash \<Rightarrow> ('n, 'a) script" where
  "raiseS e w = (Inl e, w)"

definition liftS :: "crash + 'a \<Rightarrow> ('n, 'a) script" where
  "liftS r w = (r, w)"

definition pyS :: "exn + 'a \<Rightarrow> ('n, 'a) script" where
  "pyS r w = (case r of Inl e \<Rightarrow> Inl (Crash e) | Inr x \<Rightarrow> Inr x, w)"

definition check :: "string \<Rightarrow> bool \<Rightarrow> ('n, unit) script" where
  "check name cond w =
     (Inr (), if cond then w\<lparr>w_pass := w_pass w + 1, w_log := w_log w @ [(name, True)]\<rparr>
      else w\<lparr>w_fail := w_fail w + 1, w_log := w_log w @ [(name, False)]\<rparr>)"

text \<open>A condition whose evaluation may raise.\<close>

definition checkE :: "string \<Rightarrow> crash + bool \<Rightarrow> ('n, unit) script" where
  "checkE name cond = bindS (liftS cond) (check name)"

definition nowS :: "'n network \<Rightarrow> ('n, int) script" where
  "nowS net w = (Inr (n_now net (w_net w)), w)"

definition skipS :: "('n, unit) script" where
  "skipS = returnS ()"

text \<open>Unit steps one after the other.\<close>

definition run_all :: "('n, unit) script list \<Rightarrow> ('n, unit) script" where
  "run_all ms = foldr (\<lambda>m k. bindS m (\<lambda>_. k)) ms skipS"

subsection \<open>JSON values\<close>

fun item :: "string \<Rightarrow> json \<Rightarrow> crash + json" where
  "item k (JObj kvs) = (case map_of kvs k of None \<Rightarrow> Inl (Crash KeyError) | Some v \<Rightarrow> Inr v)"
| "item k _ = Inl (Crash TypeError)"

fun items :: "string list \<Rightarrow> json \<Rightarrow> crash + json" where
  "items [] v = Inr v"
| "items (k # ks) v = bindE (item k v) (items ks)"

definition item_is :: "string list \<Rightarrow> json \<Rightarrow> json \<Rightarrow> crash + bool" where
  "item_is ks expected v = bindE (items ks v) (\<lambda>x. Inr (x = expected))"

text \<open>\<open>xs[0]\<close>, \<open>xs[i]\<close> and \<open>xs[-1]\<close>.\<close>

definition first_of :: "'a list \<Rightarrow> crash + 'a" where
  "first_of xs = (if xs = [] then Inl Index_Error else Inr (hd xs))"

definition nth_of :: "'a list \<Rightarrow> nat \<Rightarrow> crash + 'a" where
  "nth_of xs i = (if i < length xs then Inr (xs ! i) else Inl Index_Error)"

definition last_of :: "'a list \<Rightarrow> crash + 'a" where
  "last_of xs = (if xs = [] then Inl Index_Error else Inr (last xs))"

text \<open>\<open>a and b\<close>: the second is evaluated only when the first holds.\<close>

definition andE :: "crash + bool \<Rightarrow> crash + bool \<Rightarrow> crash + bool" where
  "andE a b = bindE a (\<lambda>x. if x then b else Inr False)"

definition orE :: "crash + bool \<Rightarrow> crash + bool \<Rightarrow> crash + bool" where
  "orE a b = bindE a (\<lambda>x. if x then Inr True else b)"

subsection \<open>http\<close>

definition urlopen :: "'n network \<Rightarrow> string \<Rightarrow> int \<Rightarrow> string \<Rightarrow> string \<Rightarrow> bytes option \<Rightarrow> ('n, http_reply) script" where
  "urlopen net host port meth path body w =
     (case n_http net host port meth path body (w_net w) of (reply, n) \<Rightarrow> (Inr reply, w\<lparr>w_net := n\<rparr>))"

definition loads_payload :: "bytes \<Rightarrow> crash + json" where
  "loads_payload raw =
     (case loads_body (if raw = [] then [0x7B, 0x7D] else raw) of None \<Rightarrow> Inl Json_Error | Some v \<Rightarrow> Inr v)"

definition status_name :: "string \<Rightarrow> string \<Rightarrow> int \<Rightarrow> string" where
  "status_name meth path st = ''HTTP '' @ meth @ '' '' @ path @ '' status '' @ dec_int st"

definition http_host :: "config \<Rightarrow> string option \<Rightarrow> nat \<Rightarrow> string" where
  "http_host cf host rr =
     (case host of
        Some h \<Rightarrow> if h \<noteq> [] then h else edge_hosts cf ! (rr mod length (edge_hosts cf))
      | None \<Rightarrow> edge_hosts cf ! (rr mod length (edge_hosts cf)))"

fun http_attempts ::
  "'n network \<Rightarrow> config \<Rightarrow> nat \<Rightarrow> string \<Rightarrow> string \<Rightarrow> bytes option \<Rightarrow> string option \<Rightarrow> int option \<Rightarrow>
    ('n, int \<times> json) script" where
  "http_attempts net cf 0 meth path body host want w = (Inl (Runtime_Error ''API unreachable''), w)"
| "http_attempts net cf (Suc k) meth path body host want w =
     (case edge_for cf (http_host cf host (w_rr w)) of (real_host, port, _) \<Rightarrow>
      case n_http net real_host port meth path body (w_net w) of (reply, n) \<Rightarrow>
      let w' = w\<lparr>w_rr := w_rr w + 1, w_net := n\<rparr> in
      case reply of
        Unreachable \<Rightarrow>
          http_attempts net cf k meth path body host want (w'\<lparr>w_net := n_sleep net 500 n\<rparr>)
      | Http_Reply st raw \<Rightarrow>
          bindS (liftS (loads_payload raw)) (\<lambda>payload.
          bindS (case want of None \<Rightarrow> returnS () | Some s \<Rightarrow> check (status_name meth path s) (st = s)) (\<lambda>_.
            returnS (st, payload))) w')"

definition http ::
  "'n network \<Rightarrow> config \<Rightarrow> string \<Rightarrow> string \<Rightarrow> json option \<Rightarrow> string option \<Rightarrow> int option \<Rightarrow> ('n, int \<times> json) script" where
  "http net cf meth path body host want =
     http_attempts net cf ((if host = None \<or> host = Some [] then length (edge_hosts cf) else 1) + 2) meth path
       (map_option dumps_body body) host want"

subsection \<open>DNS helpers\<close>

definition udp_query :: "'n network \<Rightarrow> string \<Rightarrow> int \<Rightarrow> bytes \<Rightarrow> ('n, bytes) script" where
  "udp_query net host port message w =
     (case n_udp net host port message (w_net w) of (reply, n) \<Rightarrow>
      (case reply of None \<Rightarrow> Inl Socket_Timeout | Some data \<Rightarrow> Inr (take 4096 data), w\<lparr>w_net := n\<rparr>))"

definition udp_send_raw :: "'n network \<Rightarrow> string \<Rightarrow> int \<Rightarrow> bytes \<Rightarrow> ('n, bytes option) script" where
  "udp_send_raw net host port message w =
     (case n_udp net host port message (w_net w) of (reply, n) \<Rightarrow>
      (Inr (map_option (take 4096) reply), w\<lparr>w_net := n\<rparr>))"

definition tcp_exchange :: "'n network \<Rightarrow> string \<Rightarrow> int \<Rightarrow> bytes \<Rightarrow> ('n, bytes) script" where
  "tcp_exchange net host port sent w =
     (case n_tcp net host port sent (w_net w) of (received, n) \<Rightarrow> (Inr received, w\<lparr>w_net := n\<rparr>))"

text \<open>\<open>parse_message(None)\<close>, after a connection closed in a frame, is a \<open>TypeError\<close>.\<close>

definition parse_received :: "bytes option \<Rightarrow> crash + message" where
  "parse_received m =
     (case m of None \<Rightarrow> Inl (Crash TypeError)
      | Some buf \<Rightarrow> (case parse_message buf of Inl e \<Rightarrow> Inl (Crash e) | Inr msg \<Rightarrow> Inr msg))"

definition ask_udp :: "'n network \<Rightarrow> config \<Rightarrow> string \<Rightarrow> exn + bytes \<Rightarrow> ('n, message) script" where
  "ask_udp net cf edge query =
     bindS (pyS query) (\<lambda>q.
     case edge_for cf edge of (host, _, port) \<Rightarrow>
     bindS (udp_query net host port q) (\<lambda>resp. liftS (parse_received (Some resp))))"

definition ask_tcp :: "'n network \<Rightarrow> config \<Rightarrow> string \<Rightarrow> exn + bytes \<Rightarrow> ('n, message) script" where
  "ask_tcp net cf edge query =
     bindS (pyS query) (\<lambda>q.
     bindS (pyS (tcp_query_send q)) (\<lambda>sent.
     case edge_for cf edge of (host, _, port) \<Rightarrow>
     bindS (tcp_exchange net host port sent) (\<lambda>got.
     bindS (pyS (tcp_query got)) (\<lambda>resp. liftS (parse_received resp)))))"

definition soa_json :: "int \<Rightarrow> (string \<times> json) list" where
  "soa_json serial = [(''mname'', JStr ''ns1.example.''), (''rname'', JStr ''admin.example.''),
     (''serial'', JInt serial), (''refresh'', JInt 7200), (''retry'', JInt 3600), (''expire'', JInt 1209600),
     (''minimum'', JInt 3600)]"

definition replace_op :: "string \<Rightarrow> string \<Rightarrow> int \<Rightarrow> (string \<times> json) list \<Rightarrow> json" where
  "replace_op name rtype ttl rec = JObj [(''action'', JStr ''replace''), (''name'', JStr name),
     (''type'', JStr rtype), (''ttl'', JInt ttl), (''records'', JList [JObj rec])]"

definition soa_ops :: "int \<Rightarrow> json list \<Rightarrow> json list" where
  "soa_ops serial extra = replace_op ''@'' ''SOA'' 3600 (soa_json serial) # extra"

definition a_op :: "string \<Rightarrow> string \<Rightarrow> json" where
  "a_op name addr = replace_op name ''A'' 300 [(''address'', JStr addr)]"

definition zone_path :: "string \<Rightarrow> string \<Rightarrow> string" where
  "zone_path zone rest = ''/v1/zones/'' @ zone @ rest"

text \<open>\<open>base64.b64decode\<close> of a value that is not a string is a \<open>TypeError\<close>.\<close>

fun decode_secret :: "json \<Rightarrow> crash + bytes" where
  "decode_secret (JStr s) = (case b64decode s of None \<Rightarrow> Inl (Crash ValueError) | Some b \<Rightarrow> Inr b)"
| "decode_secret _ = Inl (Crash TypeError)"

definition verify_install_key ::
  "'n network \<Rightarrow> config \<Rightarrow> string \<Rightarrow> string \<Rightarrow> string \<Rightarrow> int \<Rightarrow> ('n, string \<times> bytes) script" where
  "verify_install_key net cf zone key_id key_name retire =
     bindS (http net cf ''POST'' (zone_path zone ''/keys'')
         (Some (JObj ([(''keyId'', JStr key_id), (''keyName'', JStr key_name)] @
            (if retire \<noteq> 0 then [(''retireInSeconds'', JInt retire)] else [])))) None (Some 201)) (\<lambda>(st, resp).
     bindS (liftS (item ''key'' resp)) (\<lambda>key.
     bindS (checkE ''key installed and secret returned once''
         (case key of JObj kvs \<Rightarrow> andE (Inr (py_truthy (obj_get kvs ''secret'' JNull))) (item_is [''state''] (JStr ''ACTIVE'') key)
          | _ \<Rightarrow> Inl (Crash TypeError))) (\<lambda>_.
     bindS (liftS (bindE (item ''secret'' key) decode_secret)) (\<lambda>secret. returnS (key_name, secret)))))"

definition axfr ::
  "mac_fun \<Rightarrow> 'n network \<Rightarrow> config \<Rightarrow> string \<Rightarrow> string \<Rightarrow> bytes \<Rightarrow> string option \<Rightarrow> nat option \<Rightarrow> nat \<Rightarrow>
    ('n, bytes \<times> bytes option list) script" where
  "axfr hm net cf zone key_name secret host ixfr_serial qtype =
     (let h = (case host of Some x \<Rightarrow> if x \<noteq> [] then x else hd (edge_hosts cf) | None \<Rightarrow> hd (edge_hosts cf)) in
      case edge_for cf h of (real_host, _, dport) \<Rightarrow>
      bindS (pyS (authority_of zone ixfr_serial)) (\<lambda>auth.
      bindS (nowS net) (\<lambda>now_ms.
      bindS (pyS (build_tsig_query hm 0x4242 zone qtype key_name secret (nat (now_ms div 1000)) 300 auth)) (\<lambda>q.
      bindS (pyS (tcp_query_send q)) (\<lambda>sent.
      bindS (tcp_exchange net real_host dport sent) (\<lambda>got.
      bindS (pyS (tcp_transfer got)) (\<lambda>msgs. returnS (q, msgs))))))))"

definition parse_all :: "bytes option list \<Rightarrow> crash + message list" where
  "parse_all msgs = mapE parse_received msgs"

definition first_last_name :: "nat \<Rightarrow> string" where
  "first_last_name i = ''message '' @ dec_nat i @ '' TSIG valid (first/last signed)''"

definition middle_name :: "nat \<Rightarrow> string" where
  "middle_name i = ''middle message '' @ dec_nat i @ '' unsigned''"

fun verify_messages :: "mac_fun \<Rightarrow> string \<Rightarrow> bytes \<Rightarrow> nat \<Rightarrow> nat \<Rightarrow> bytes \<Rightarrow> message list \<Rightarrow> ('n, unit) script" where
  "verify_messages hm key_name secret n i prior [] = returnS ()"
| "verify_messages hm key_name secret n i prior (m # ms) =
     (if i = 0 \<or> i + 1 = n then
        (case verify_response_mac hm m secret prior key_name of
           Inr (Some mac) \<Rightarrow>
             bindS (check (first_last_name i) True) (\<lambda>_. verify_messages hm key_name secret n (i + 1) mac ms)
         | _ \<Rightarrow>
             bindS (check (first_last_name i) False) (\<lambda>_. verify_messages hm key_name secret n (i + 1) prior ms))
      else bindS (check (middle_name i) (m_tsig m = None)) (\<lambda>_. verify_messages hm key_name secret n (i + 1) prior ms))"

definition verify_tsig_chain ::
  "mac_fun \<Rightarrow> bytes option list \<Rightarrow> string \<Rightarrow> bytes \<Rightarrow> bytes \<Rightarrow> ('n, unit) script" where
  "verify_tsig_chain hm msgs key_name secret request_mac =
     bindS (liftS (parse_all msgs)) (\<lambda>parsed.
     bindS (check ''transfer has >=1 message'' (1 \<le> length parsed)) (\<lambda>_.
       verify_messages hm key_name secret (length parsed) 0 request_mac parsed))"

definition all_answers :: "bytes option list \<Rightarrow> crash + rr list" where
  "all_answers msgs = bindE (parse_all msgs) (\<lambda>ms. Inr (concat (map m_answers ms)))"

text \<open>\<open>dc.soa_serial\<close> of a record, and the serials of the SOA records of a list.\<close>

definition rr_serial :: "rr \<Rightarrow> crash + nat" where
  "rr_serial r = (case soa_serial (rr_data r) of Inl e \<Rightarrow> Inl (Crash e) | Inr n \<Rightarrow> Inr n)"

definition soa_serials :: "rr list \<Rightarrow> crash + nat list" where
  "soa_serials rs = mapE rr_serial (filter (\<lambda>r. rr_type r = TYPE_SOA) rs)"

end
