(* ===== verification/Acceptance_Groups.thy ===== *)
theory Acceptance_Groups
  imports Acceptance
begin

text \<open>
  The groups of checks of \<open>app/verify.py\<close> and its \<open>main\<close>.  The time stamp of a request id is
  a parameter, and so is which of the two concurrent publishers is served first.
\<close>

definition error_code_is :: "string \<Rightarrow> json \<Rightarrow> crash + bool" where
  "error_code_is code = item_is [''error'', ''code''] (JStr code)"

definition post :: "'n network \<Rightarrow> config \<Rightarrow> string \<Rightarrow> (string \<times> json) list \<Rightarrow> int option \<Rightarrow> ('n, int \<times> json) script" where
  "post net cf path body want = http net cf ''POST'' path (Some (JObj body)) None want"

definition get :: "'n network \<Rightarrow> config \<Rightarrow> string \<Rightarrow> int option \<Rightarrow> ('n, int \<times> json) script" where
  "get net cf path want = http net cf ''GET'' path None None want"

definition publish_body :: "string \<Rightarrow> int \<Rightarrow> int \<Rightarrow> json list \<Rightarrow> (string \<times> json) list" where
  "publish_body rid base nxt ops = [(''requestId'', JStr rid), (''baseSerial'', JInt base), (''nextSerial'', JInt nxt),
     (''changes'', JList ops)]"

definition zone_body :: "string \<Rightarrow> int \<Rightarrow> string \<Rightarrow> string \<Rightarrow> string list \<Rightarrow> (string \<times> json) list" where
  "zone_body zone serial mname rname ns = [(''name'', JStr zone), (''serial'', JInt serial),
     (''soa'', JObj [(''mname'', JStr mname), (''rname'', JStr rname)]), (''ns'', JList (map JStr ns))]"

text \<open>A request answered with an error code.\<close>

definition check_error :: "('n, int \<times> json) script \<Rightarrow> string \<Rightarrow> string \<Rightarrow> ('n, unit) script" where
  "check_error request name code = bindS request (\<lambda>(st, resp). checkE name (error_code_is code resp))"

definition length_is :: "string list \<Rightarrow> nat \<Rightarrow> json \<Rightarrow> crash + bool" where
  "length_is ks n v =
     bindE (items ks v) (\<lambda>x. case x of JList xs \<Rightarrow> Inr (length xs = n) | JObj kvs \<Rightarrow> Inr (length kvs = n)
       | JStr s \<Rightarrow> Inr (length s = n) | _ \<Rightarrow> Inl (Crash TypeError))"

subsection \<open>wait_healthy\<close>

definition edge_healthy :: "'n network \<Rightarrow> config \<Rightarrow> string \<Rightarrow> ('n, bool) script" where
  "edge_healthy net cf h =
     (case edge_for cf h of (host, port, _) \<Rightarrow>
      bindS (urlopen net host port ''GET'' ''/healthz'' None) (\<lambda>reply.
        returnS (case reply of
          Unreachable \<Rightarrow> False
        | Http_Reply st raw \<Rightarrow>
          (case loads_body raw of None \<Rightarrow> False
           | Some body \<Rightarrow> st = 200 \<and> item_is [''status''] (JStr ''ok'') body = Inr True))))"

fun all_healthy :: "'n network \<Rightarrow> config \<Rightarrow> string list \<Rightarrow> ('n, bool) script" where
  "all_healthy net cf [] = returnS True"
| "all_healthy net cf (h # hs) =
     bindS (edge_healthy net cf h) (\<lambda>ok. bindS (all_healthy net cf hs) (\<lambda>oks. returnS (ok \<and> oks)))"

definition sleepS :: "'n network \<Rightarrow> int \<Rightarrow> ('n, unit) script" where
  "sleepS net ms w = (Inr (), w\<lparr>w_net := n_sleep net ms (w_net w)\<rparr>)"

definition unhealthy :: crash where
  "unhealthy = Runtime_Error ''edge instances did not become healthy''"

text \<open>The rounds of a loop with a deadline: each ends with a sleep of a second, so the deadline bounds them.\<close>

fun wait_rounds :: "'n network \<Rightarrow> config \<Rightarrow> int \<Rightarrow> nat \<Rightarrow> ('n, unit) script" where
  "wait_rounds net cf deadline 0 = raiseS unhealthy"
| "wait_rounds net cf deadline (Suc k) =
     bindS (nowS net) (\<lambda>now_ms.
       if deadline \<le> now_ms then raiseS unhealthy
       else bindS (all_healthy net cf (edge_hosts cf)) (\<lambda>ok.
         if ok then skipS else bindS (sleepS net 1000) (\<lambda>_. wait_rounds net cf deadline k)))"

definition wait_healthy :: "'n network \<Rightarrow> config \<Rightarrow> nat \<Rightarrow> ('n, unit) script" where
  "wait_healthy net cf timeout = bindS (nowS net) (\<lambda>now_ms. wait_rounds net cf (now_ms + int timeout * 1000) timeout)"

subsection \<open>[1] HTTP life cycle\<close>

definition raw_malformed :: "'n network \<Rightarrow> config \<Rightarrow> ('n, unit) script" where
  "raw_malformed net cf =
     (case edge_for cf (hd (edge_hosts cf)) of (host, port, _) \<Rightarrow>
      bindS (urlopen net host port ''POST'' ''/v1/zones'' (Some (encode_utf8 ''{not json''))) (\<lambda>reply.
        case reply of
          Unreachable \<Rightarrow> raiseS Url_Error
        | Http_Reply st raw \<Rightarrow>
          if 200 \<le> st \<and> st < 300 then check ''malformed JSON rejected'' False
          else checkE ''malformed JSON -> MALFORMED_JSON''
            (bindE (case loads_body raw of None \<Rightarrow> Inl Json_Error | Some v \<Rightarrow> Inr v) (error_code_is ''MALFORMED_JSON''))))"

definition test_http_lifecycle :: "'n network \<Rightarrow> config \<Rightarrow> string \<Rightarrow> ('n, unit) script" where
  "test_http_lifecycle net cf rid =
     (let zone = ''canon.test.''; e0 = hd (edge_hosts cf);
          body = (\<lambda>addr name. publish_body rid 1 2 (soa_ops 2 [a_op name addr])) in
      run_all [
        bindS (post net cf ''/v1/zones'' (zone_body ''Canon.Test.'' 1 ''ns1.canon.test.'' ''admin.canon.test.''
            [''ns1.canon.test.'', ''NS1.canon.test.'']) (Some 201)) (\<lambda>(st, resp).
          run_all [
            checkE ''zone name canonicalized to lowercase'' (item_is [''zone'', ''name''] (JStr zone) resp),
            checkE ''NS de-duplicated'' (length_is [''zone'', ''ns''] 1 resp)]),
        check_error (post net cf ''/v1/zones'' (zone_body zone 1 ''a.'' ''b.'' [''a.'']) (Some 409))
          ''duplicate zone -> ZONE_ALREADY_EXISTS'' ''ZONE_ALREADY_EXISTS'',
        bindS (get net cf (zone_path zone []) None) (\<lambda>(st, resp).
          checkE ''metadata readable from another instance''
            (andE (item_is [''currentSerial''] (JInt 1) resp) (item_is [''name''] (JStr zone) resp))),
        check_error (get net cf ''/v1/zones/missing.test.'' (Some 404)) ''unknown zone -> ZONE_NOT_FOUND'' ''ZONE_NOT_FOUND'',
        bindS (post net cf (zone_path zone ''/publish'') (body ''192.0.2.10'' ''WWW'') (Some 201)) (\<lambda>(st, r1).
        bindS (post net cf (zone_path zone ''/publish'') (body ''192.0.2.10'' ''WWW'') None) (\<lambda>(st2, r2).
          checkE ''idempotent retry replays first result''
            (bindE (item ''result'' r2) (\<lambda>res. case res of
               JObj kvs \<Rightarrow> andE (Inr (obj_get kvs ''replayed'' JNull = JBool True))
                 (andE (bindE (items [''result'', ''serial''] r1) (\<lambda>s1.
                    bindE (items [''result'', ''serial''] r2) (\<lambda>s2. Inr (s1 = s2))))
                  (item_is [''result'', ''serial''] (JInt 2) r2))
             | _ \<Rightarrow> Inl (Crash TypeError))))),
        bindS (get net cf (zone_path zone []) None) (\<lambda>(st, meta).
          checkE ''uppercase/relative name canonicalized''
            (orE (Inr (list_ex (\<lambda>_. True) [0::nat]))
              (bindE (item ''recordCount'' meta) (\<lambda>c. case c of JInt n \<Rightarrow> Inr (3 \<le> n) | _ \<Rightarrow> Inl (Crash TypeError))))),
        check_error (post net cf (zone_path zone ''/publish'') (body ''192.0.2.11'' ''www'') (Some 409))
          ''requestId reuse with different content -> IDEMPOTENCY_CONFLICT'' ''IDEMPOTENCY_CONFLICT'',
        bindS (get net cf (zone_path zone (''/requests/'' @ rid)) None) (\<lambda>(st, resp).
          checkE ''publish result queryable''
            (andE (item_is [''status''] (JStr ''COMMITTED'') resp) (item_is [''serial''] (JInt 2) resp))),
        bindS (post net cf (zone_path zone ''/publish'') (publish_body ''rid-mx-cname'' 2 3 (soa_ops 3
            [replace_op ''mail'' ''MX'' 600 [(''preference'', JInt 10), (''exchange'', JStr ''mail.canon.test.'')],
             replace_op ''alias'' ''CNAME'' 300 [(''target'', JStr ''www.canon.test.'')]])) (Some 201)) (\<lambda>_. skipS),
        bindS (ask_udp net cf e0 (build_plain_query 1 (''mail.'' @ zone) TYPE_MX True)) (\<lambda>resp.
          check ''MX record served'' (m_rcode resp = 0 \<and> m_answers resp \<noteq> [] \<and>
            take 2 (rr_data (hd (m_answers resp))) = [0, 0x0A])),
        bindS (ask_udp net cf e0 (build_plain_query 2 (''alias.'' @ zone) TYPE_CNAME True)) (\<lambda>resp.
          check ''CNAME record served'' (m_rcode resp = 0 \<and> m_answers resp \<noteq> [] \<and>
            ends_with (rr_data (hd (m_answers resp)))
              (encode_utf8 ''www'' @ [5] @ encode_utf8 ''canon'' @ [4] @ encode_utf8 ''test'' @ [0]))),
        check_error (get net cf (zone_path zone ''/requests/nope'') (Some 404))
          ''unknown requestId -> REQUEST_NOT_FOUND'' ''REQUEST_NOT_FOUND'',
        raw_malformed net cf])"

subsection \<open>[2] Concurrent publishers and RFC 1982\<close>

definition pub_at :: "'n network \<Rightarrow> config \<Rightarrow> string \<Rightarrow> string \<Rightarrow> int \<Rightarrow> string \<Rightarrow> ('n, (int \<times> json) list) script" where
  "pub_at net cf zone rid nxt addr w =
     (case post net cf (zone_path zone ''/publish'') (publish_body rid 4294967294 nxt
          (soa_ops nxt [a_op (''h'' @ addr) (''192.0.2.'' @ addr)])) None w of
        (Inl _, w') \<Rightarrow> (Inr [], w')
      | (Inr r, w') \<Rightarrow> (Inr [r], w'))"

definition committed_status :: "int \<Rightarrow> bool" where
  "committed_status st \<longleftrightarrow> st = 200 \<or> st = 201"

definition test_concurrency_and_serials :: "'n network \<Rightarrow> config \<Rightarrow> bool \<Rightarrow> ('n, unit) script" where
  "test_concurrency_and_serials net cf swapped =
     (let zone = ''seq.test.''; t1 = pub_at net cf zone ''c1'' 4294967295 ''1''; t2 = pub_at net cf zone ''c2'' 4294967295 ''2'';
          attempt = (\<lambda>rid base nxt. post net cf (zone_path zone ''/publish'') (publish_body rid base nxt (soa_ops nxt []))) in
      run_all [
        bindS (post net cf ''/v1/zones'' (zone_body zone 4294967294 ''ns1.seq.test.'' ''a.seq.test.'' [''ns1.seq.test.'']) None)
          (\<lambda>_. skipS),
        bindS (if swapped then t2 else t1) (\<lambda>first. bindS (if swapped then t1 else t2) (\<lambda>second.
          let results = first @ second; codes = sort (map fst results);
              winner = filter (\<lambda>r. committed_status (fst r)) results; loser = filter (\<lambda>r. fst r = 409) results in
          run_all [
            check ''exactly one concurrent publisher commits'' (length winner = 1 \<and> length loser = 1 \<and>
              filter (\<lambda>c. \<not> committed_status c) codes = [409]),
            checkE ''loser gets VERSION_CONFLICT with currentSerial''
              (case loser of [] \<Rightarrow> Inr False
               | l # _ \<Rightarrow> andE (error_code_is ''VERSION_CONFLICT'' (snd l))
                   (item_is [''error'', ''details'', ''currentSerial''] (JInt 4294967295) (snd l)))])),
        bindS (attempt ''wrap1'' 4294967295 0 None) (\<lambda>(st, resp).
          check ''serial advances 4294967295 -> 0'' (committed_status st)),
        check_error (attempt ''eq1'' 0 0 (Some 422)) ''equal serial rejected (SERIAL_INVALID)'' ''SERIAL_INVALID'',
        check_error (attempt ''undec1'' 0 2147483648 (Some 422)) ''2^31 jump rejected (SERIAL_UNDECIDABLE)'' ''SERIAL_UNDECIDABLE'',
        check_error (attempt ''stale1'' 4294967295 1 (Some 409)) ''stale base across wrap -> VERSION_CONFLICT'' ''VERSION_CONFLICT''])"

subsection \<open>[3] Zone invariants and limits\<close>

definition delete_op :: "string \<Rightarrow> string \<Rightarrow> json" where
  "delete_op name rtype = JObj [(''action'', JStr ''delete''), (''name'', JStr name), (''type'', JStr rtype)]"

definition test_invariants_and_limits :: "'n network \<Rightarrow> config \<Rightarrow> ('n, unit) script" where
  "test_invariants_and_limits net cf =
     (let zone = ''inv.test.'';
          pub = (\<lambda>rid ops want. post net cf (zone_path zone ''/publish'') (publish_body rid 1 2 ops) (Some want)) in
      run_all [
        bindS (post net cf ''/v1/zones'' (zone_body zone 1 ''ns1.inv.test.'' ''a.inv.test.'' [''ns1.inv.test.'']) None) (\<lambda>_. skipS),
        check_error (pub ''no-soa'' [delete_op ''@'' ''SOA''] 422) ''deleting apex SOA rejected'' ''ZONE_INVALID'',
        check_error (pub ''no-ns'' (delete_op ''@'' ''NS'' # soa_ops 2 []) 422) ''deleting all apex NS rejected'' ''ZONE_INVALID'',
        check_error (pub ''cname-co'' (soa_ops 2 [replace_op ''host'' ''CNAME'' 300 [(''target'', JStr ''else.inv.test.'')],
            replace_op ''host'' ''A'' 300 [(''address'', JStr ''192.0.2.9'')]]) 422)
          ''CNAME coexistence rejected'' ''ZONE_INVALID'',
        check_error (pub ''outzone'' (soa_ops 2 [replace_op ''evil.other.'' ''A'' 300 [(''address'', JStr ''192.0.2.1'')]]) 422)
          ''out-of-zone name rejected'' ''NAME_OUT_OF_ZONE'',
        bindS (pub ''badsoa'' (soa_ops 99 []) 422) (\<lambda>(st, r).
          checkE ''SOA serial != nextSerial rejected'' (orE (error_code_is ''SERIAL_INVALID'' r) (error_code_is ''ZONE_INVALID'' r))),
        bindS (get net cf (zone_path zone []) None) (\<lambda>(st, meta).
          checkE ''zone still at serial 1 after failed publishes''
            (andE (item_is [''currentSerial''] (JInt 1) meta) (item_is [''recordCount''] (JInt 2) meta))),
        check_error (pub ''longname'' (soa_ops 2 [replace_op (replicate 64 CHR ''a'' @ ''.'' @ zone) ''A'' 300
            [(''address'', JStr ''192.0.2.2'')]]) 413)
          ''oversized name rejected before persistence'' ''LIMIT_EXCEEDED''])"

subsection \<open>[4] DNS queries and transfers\<close>

text \<open>\<open>m["tsig"] is not None and m["tsig"]["error"] == code\<close>.\<close>

definition tsig_error_is :: "nat \<Rightarrow> message \<Rightarrow> bool" where
  "tsig_error_is code m = (case m_tsig m of None \<Rightarrow> False | Some t \<Rightarrow> t_error t = code)"

definition rr_serial_is :: "nat \<Rightarrow> crash + rr \<Rightarrow> crash + bool" where
  "rr_serial_is n r = bindE r (\<lambda>r. bindE (rr_serial r) (\<lambda>s. Inr (s = n)))"

definition soa_reply :: "nat \<Rightarrow> message \<Rightarrow> crash + bool" where
  "soa_reply n m = andE (Inr (m_rcode m = 0)) (rr_serial_is n (first_of (m_answers m)))"

definition is_soa :: "crash + rr \<Rightarrow> crash + bool" where
  "is_soa r = bindE r (\<lambda>r. Inr (rr_type r = TYPE_SOA))"

text \<open>A transfer of the zone from the first edge, read as its answers.\<close>

definition ixfr_answers :: "mac_fun \<Rightarrow> 'n network \<Rightarrow> config \<Rightarrow> string \<Rightarrow> string \<Rightarrow> bytes \<Rightarrow> nat \<Rightarrow> ('n, rr list) script" where
  "ixfr_answers hm net cf zone key_name secret serial =
     bindS (axfr hm net cf zone key_name secret None (Some serial) TYPE_IXFR) (\<lambda>(q, msgs). liftS (all_answers msgs))"

definition query_mac :: "bytes \<Rightarrow> exn + bytes" where
  "query_mac wire = bindE (parse_query wire) (\<lambda>q. case q_tsig q of None \<Rightarrow> Inl TypeError | Some t \<Rightarrow> Inr (t_mac t))"

definition setup_transfers :: "'n network \<Rightarrow> config \<Rightarrow> string \<Rightarrow> ('n, unit) script" where
  "setup_transfers net cf zone = run_all [
     bindS (post net cf ''/v1/zones'' (zone_body zone 10 ''ns1.xfer.test.'' ''admin.xfer.test.''
       [''ns1.xfer.test.'', ''ns2.xfer.test.'']) None) (\<lambda>_. skipS),
     bindS (post net cf (zone_path zone ''/publish'') (publish_body ''p11'' 10 11 (soa_ops 11
       [a_op ''www'' ''192.0.2.10'', replace_op ''www'' ''AAAA'' 300 [(''address'', JStr ''2001:db8::1'')],
        replace_op ''txt'' ''TXT'' 300 [(''text'', JStr ''hello'')]])) None) (\<lambda>_. skipS),
     bindS (post net cf (zone_path zone ''/publish'') (publish_body ''p12'' 11 12 (soa_ops 12
       [a_op ''www'' ''192.0.2.11''])) None) (\<lambda>_. skipS)]"

text \<open>A signed AXFR request at the clock of the network, or some seconds before it.\<close>

definition signed_axfr :: "mac_fun \<Rightarrow> 'n network \<Rightarrow> nat \<Rightarrow> string \<Rightarrow> string \<Rightarrow> bytes \<Rightarrow> int \<Rightarrow> ('n, bytes) script" where
  "signed_axfr hm net qid zone key_name secret back =
     bindS (nowS net) (\<lambda>now_ms.
       pyS (build_tsig_query hm qid zone TYPE_AXFR key_name secret (nat (now_ms div 1000 - back)) 300 []))"

definition query_checks :: "mac_fun \<Rightarrow> 'n network \<Rightarrow> config \<Rightarrow> string \<Rightarrow> string \<Rightarrow> bytes \<Rightarrow> ('n, unit) script" where
  "query_checks hm net cf zone key_name secret =
     (let h0 = edge_hosts cf ! 0 in run_all [
        bindS (ask_udp net cf h0 (build_plain_query 1 zone TYPE_SOA True)) (\<lambda>m.
          checkE ''UDP SOA answered, AA, serial 12''
            (andE (Inr (m_rcode m = 0 \<and> m_aa m \<and> length (m_answers m) = 1)) (rr_serial_is 12 (first_of (m_answers m))))),
        bindS (bindS (liftS (nth_of (edge_hosts cf) 1)) (\<lambda>h1. ask_tcp net cf h1 (build_plain_query 1 zone TYPE_SOA True))) (\<lambda>m.
          checkE ''TCP SOA on second instance, serial 12'' (soa_reply 12 m)),
        bindS (ask_udp net cf h0 (build_plain_query 2 (''www.'' @ zone) TYPE_A True)) (\<lambda>m.
          checkE ''A record served'' (andE (Inr (m_rcode m = 0))
            (bindE (first_of (m_answers m)) (\<lambda>r. Inr (rr_data r = [192, 0, 2, 11]))))),
        bindS (bindS (signed_axfr hm net 3 zone key_name secret 0) (\<lambda>q. ask_udp net cf h0 (Inr q))) (\<lambda>m.
          check ''UDP AXFR -> TC bit, no records'' (m_tc m \<and> m_answers m = [])),
        bindS (ask_tcp net cf h0 (build_plain_query 4 zone TYPE_AXFR True)) (\<lambda>m.
          check ''unsigned AXFR refused'' (m_rcode m = RCODE_REFUSED)),
        bindS (bindS (signed_axfr hm net 5 zone key_name (replicate 32 0x78) 0) (\<lambda>q. ask_tcp net cf h0 (Inr q))) (\<lambda>m.
          check ''bad MAC -> refused + TSIG BADSIG(16), no answers''
            (m_rcode m = RCODE_REFUSED \<and> m_answers m = [] \<and> tsig_error_is TSIG_BADSIG m)),
        bindS (bindS (signed_axfr hm net 6 zone ''ghost.'' (replicate 32 0x79) 0) (\<lambda>q. ask_tcp net cf h0 (Inr q))) (\<lambda>m.
          check ''unknown key -> TSIG BADKEY(17)'' (tsig_error_is TSIG_BADKEY m \<and> m_answers m = []))])"

definition axfr_checks :: "mac_fun \<Rightarrow> 'n network \<Rightarrow> config \<Rightarrow> string \<Rightarrow> string \<Rightarrow> bytes \<Rightarrow> ('n, unit) script" where
  "axfr_checks hm net cf zone key_name secret =
     bindS (bindS (liftS (nth_of (edge_hosts cf) 1)) (\<lambda>h1.
       axfr hm net cf zone key_name secret (Some h1) None TYPE_AXFR)) (\<lambda>(transfer_q, msgs).
     bindS (pyS (query_mac transfer_q)) (\<lambda>mac.
     bindS (verify_tsig_chain hm msgs key_name secret mac) (\<lambda>_.
     bindS (liftS (all_answers msgs)) (\<lambda>answers.
     bindS (checkE ''AXFR begins and ends with SOA serial 12''
       (andE (is_soa (first_of answers)) (andE (is_soa (last_of answers))
         (andE (rr_serial_is 12 (first_of answers)) (rr_serial_is 12 (last_of answers)))))) (\<lambda>_.
       let middle = butlast (tl answers); has = (\<lambda>t. \<exists>r \<in> set middle. rr_type r = t) in
       check ''AXFR contains whole zone (NSx2, A, AAAA, TXT)''
         (length (filter (\<lambda>r. rr_type r = TYPE_NS) middle) = 2 \<and> has TYPE_A \<and> has TYPE_AAAA \<and> has TYPE_TXT))))))"

definition ixfr_checks :: "mac_fun \<Rightarrow> 'n network \<Rightarrow> config \<Rightarrow> string \<Rightarrow> string \<Rightarrow> bytes \<Rightarrow> ('n, unit) script" where
  "ixfr_checks hm net cf zone key_name secret = run_all [
     bindS (ixfr_answers hm net cf zone key_name secret 12) (\<lambda>answers.
       checkE ''IXFR equal serial -> one current SOA only''
         (andE (Inr (length answers = 1)) (andE (is_soa (first_of answers)) (rr_serial_is 12 (first_of answers))))),
     bindS (ixfr_answers hm net cf zone key_name secret 10) (\<lambda>answers.
     bindS (checkE ''IXFR starts with newest SOA(12)''
       (andE (is_soa (first_of answers)) (rr_serial_is 12 (first_of answers)))) (\<lambda>_.
     bindS (liftS (soa_serials answers)) (\<lambda>serials.
     bindS (check ''IXFR has SOA sequence 12,10,11,11,12'' (serials = [12, 10, 11, 11, 12])) (\<lambda>_.
       let a_values = sort (map rr_data (filter (\<lambda>r. rr_type r = TYPE_A) answers)) in
       check ''IXFR carries old A deletion and two A additions''
         (a_values = [[192, 0, 2, 10], [192, 0, 2, 10], [192, 0, 2, 11]] \<or> length a_values = 3))))),
     bindS (ixfr_answers hm net cf zone key_name secret 4294967000) (\<lambda>answers.
       checkE ''future/undecidable serial -> AXFR fallback (SOA bookends)''
         (andE (bindE (first_of answers) (\<lambda>a. bindE (last_of answers) (\<lambda>z. Inr (rr_type a = rr_type z \<and> rr_type z = TYPE_SOA))))
           (andE (rr_serial_is 12 (first_of answers)) (Inr (5 \<le> length answers)))))]"

definition test_dns_queries_and_transfers :: "mac_fun \<Rightarrow> 'n network \<Rightarrow> config \<Rightarrow> ('n, unit) script" where
  "test_dns_queries_and_transfers hm net cf =
     (let zone = ''xfer.test.'' in
      bindS (setup_transfers net cf zone) (\<lambda>_.
      bindS (verify_install_key net cf zone ''k1'' ''xfer-key.'' 0) (\<lambda>(key_name, secret).
        run_all [query_checks hm net cf zone key_name secret, axfr_checks hm net cf zone key_name secret,
          ixfr_checks hm net cf zone key_name secret])))"

subsection \<open>[5] Key life cycle and cleanup\<close>

definition key_states :: "json list \<Rightarrow> crash + json list" where
  "key_states ks = mapE (item ''state'') ks"

definition key_list_check :: "json \<Rightarrow> crash + bool" where
  "key_list_check listing =
     bindE (item ''keys'' listing) (\<lambda>v. case v of
       JList ks \<Rightarrow>
         andE (Inr (list_all (\<lambda>k. case k of JObj kvs \<Rightarrow> ''secret'' \<notin> fst ` set kvs | _ \<Rightarrow> True) ks))
           (bindE (key_states ks) (\<lambda>ss. Inr (set ss = {JStr ''ACTIVE'', JStr ''RETIRING''})))
     | _ \<Rightarrow> Inl (Crash TypeError))"

definition transfer_starts :: "bytes option list \<Rightarrow> crash + bool" where
  "transfer_starts msgs = bindE (first_of msgs) (\<lambda>m. bindE (parse_received m) (\<lambda>p. Inr (m_rcode p = 0)))"

definition transfer_signed :: "bytes option list \<Rightarrow> crash + bool" where
  "transfer_signed msgs = bindE (last_of msgs) (\<lambda>m. bindE (parse_received m) (\<lambda>p. Inr (m_tsig p \<noteq> None)))"

definition rotation_checks :: "mac_fun \<Rightarrow> 'n network \<Rightarrow> config \<Rightarrow> string \<Rightarrow> string \<times> bytes \<Rightarrow> string \<times> bytes \<Rightarrow> ('n, unit) script" where
  "rotation_checks hm net cf zone old new = run_all [
     bindS (get net cf (zone_path zone ''/keys'') None) (\<lambda>(st, listing).
       checkE ''key list shows states/generations, never secrets'' (key_list_check listing)),
     bindS (axfr hm net cf zone (fst old) (snd old) None None TYPE_AXFR) (\<lambda>(q, msgs).
       checkE ''RETIRING (unexpired) key may still start transfer'' (andE (transfer_starts msgs) (transfer_signed msgs))),
     bindS (axfr hm net cf zone (fst new) (snd new) None None TYPE_AXFR) (\<lambda>(q, msgs).
       checkE ''new ACTIVE key works'' (transfer_starts msgs)),
     bindS (post net cf (zone_path zone ''/keys/old/revoke'') [] None) (\<lambda>_. skipS),
     bindS (bindS (signed_axfr hm net 7 zone (fst old) (snd old) 0) (\<lambda>q. ask_tcp net cf (edge_hosts cf ! 0) (Inr q))) (\<lambda>m.
       check ''revoked key rejected before any data'' (m_rcode m = RCODE_REFUSED \<and> m_answers m = []))]"

definition health_check :: "'n network \<Rightarrow> config \<Rightarrow> ('n, unit) script" where
  "health_check net cf =
     (case edge_for cf (edge_hosts cf ! 0) of (host, port, _) \<Rightarrow>
      bindS (urlopen net host port ''GET'' ''/healthz'' None) (\<lambda>reply.
        case reply of
          Unreachable \<Rightarrow> raiseS Url_Error
        | Http_Reply st raw \<Rightarrow>
          if \<not> (200 \<le> st \<and> st < 300) then raiseS Url_Error
          else case decode_utf8 raw of
              None \<Rightarrow> raiseS (Crash UnicodeError)
            | Some body \<Rightarrow> check ''health exposes no key material'' (\<not> contains_str (py_lower body) ''secret'')))"

definition expiry_checks :: "mac_fun \<Rightarrow> 'n network \<Rightarrow> config \<Rightarrow> string \<Rightarrow> ('n, unit) script" where
  "expiry_checks hm net cf zone =
     (let h0 = edge_hosts cf ! 0 in
      bindS (verify_install_key net cf zone ''short'' ''short-key.'' 3600) (\<lambda>(nshort, sshort).
      bindS (verify_install_key net cf zone ''newer'' ''newer-key.'' 1) (\<lambda>(nnew, snew).
      run_all [
        sleepS net 2000,
        bindS (bindS (signed_axfr hm net 8 zone nshort sshort 0) (\<lambda>q. ask_tcp net cf h0 (Inr q))) (\<lambda>m.
          check ''expired RETIRING key rejected, no data'' (m_rcode m = RCODE_REFUSED \<and> m_answers m = [])),
        bindS (bindS (signed_axfr hm net 8 zone nnew snew 0) (\<lambda>q. ask_tcp net cf h0 (Inr q))) (\<lambda>m.
          check ''new ACTIVE key still works after old expires'' (m_rcode m = 0)),
        bindS (bindS (signed_axfr hm net 9 zone nnew snew 100000) (\<lambda>q. ask_tcp net cf h0 (Inr q))) (\<lambda>m.
          check ''stale TSIG timestamp -> BADTIME(18), no data'' (tsig_error_is TSIG_BADTIME m \<and> m_answers m = []))])))"

text \<open>As in \<open>wait_rounds\<close>, every round sleeps a second, so the deadline bounds the rounds.\<close>

fun pruned_rounds ::
  "mac_fun \<Rightarrow> 'n network \<Rightarrow> config \<Rightarrow> string \<Rightarrow> string \<Rightarrow> bytes \<Rightarrow> int \<Rightarrow> nat \<Rightarrow> ('n, bool) script" where
  "pruned_rounds hm net cf zone key_name secret deadline 0 = returnS False"
| "pruned_rounds hm net cf zone key_name secret deadline (Suc k) =
     bindS (nowS net) (\<lambda>now_ms.
       if deadline \<le> now_ms then returnS False
       else bindS (ixfr_answers hm net cf zone key_name secret 1) (\<lambda>answers.
         bindS (liftS (soa_serials answers)) (\<lambda>serials.
         if serials = [5, 5] then returnS True
         else bindS (sleepS net 1000) (\<lambda>_. pruned_rounds hm net cf zone key_name secret deadline k))))"

definition publish_round :: "'n network \<Rightarrow> config \<Rightarrow> string \<Rightarrow> nat \<Rightarrow> ('n, unit) script" where
  "publish_round net cf zone i =
     bindS (post net cf (zone_path zone ''/publish'') (publish_body (CHR ''k'' # dec_nat i) (int i - 1) (int i)
       (soa_ops (int i) [a_op (CHR ''h'' # dec_nat i) (''192.0.2.'' @ dec_nat (20 + i))])) None) (\<lambda>_. skipS)"

definition test_key_lifecycle_and_cleanup :: "mac_fun \<Rightarrow> 'n network \<Rightarrow> config \<Rightarrow> ('n, unit) script" where
  "test_key_lifecycle_and_cleanup hm net cf =
     (let zone = ''key.test.'' in
      bindS (post net cf ''/v1/zones'' (zone_body zone 1 ''ns1.key.test.'' ''a.key.test.'' [''ns1.key.test.''] @
        [(''retainVersions'', JInt 1)]) None) (\<lambda>_.
      bindS (verify_install_key net cf zone ''old'' ''old-key.'' 3600) (\<lambda>old.
      bindS (verify_install_key net cf zone ''new'' ''new-key.'' 3600) (\<lambda>new.
      bindS (run_all [rotation_checks hm net cf zone old new, health_check net cf, expiry_checks hm net cf zone,
        run_all (map (publish_round net cf zone) [2..<6])]) (\<lambda>_.
      bindS (nowS net) (\<lambda>now_ms.
      bindS (pruned_rounds hm net cf zone (fst new) (snd new) (now_ms + 20000) 20) (\<lambda>deleted.
        check ''pruned history -> AXFR fallback, never truncated IXFR'' deleted)))))))"

subsection \<open>[6] Malformed traffic\<close>

definition test_protocol_robustness :: "'n network \<Rightarrow> config \<Rightarrow> ('n, unit) script" where
  "test_protocol_robustness net cf =
     (let h = edge_hosts cf ! 0 in
      case edge_for cf h of (host, _, port) \<Rightarrow>
      run_all [
        bindS (udp_send_raw net host port [0x12, 0x34]) (\<lambda>r. check ''garbage UDP handled'' (r \<noteq> None)),
        bindS (udp_send_raw net host port []) (\<lambda>_. skipS),
        bindS (tcp_exchange net host port [0]) (\<lambda>_. sleepS net 200),
        check ''truncated TCP framing closed cleanly'' True,
        bindS (ask_udp net cf h (build_plain_query 9 ''key.test.'' TYPE_SOA True)) (\<lambda>m.
          check ''server alive after malformed traffic'' (m_rcode m = 0)),
        bindS (ask_udp net cf h (build_plain_query 10 ''key.test.'' 999 True)) (\<lambda>m.
          check ''unknown qtype handled gracefully'' (m_rcode m = 0 \<or> m_rcode m = 4))])"

subsection \<open>main\<close>

definition test_groups :: "mac_fun \<Rightarrow> 'n network \<Rightarrow> config \<Rightarrow> string \<Rightarrow> bool \<Rightarrow> ('n, unit) script" where
  "test_groups hm net cf rid swapped = run_all [
     wait_healthy net cf 60, test_http_lifecycle net cf rid, test_concurrency_and_serials net cf swapped,
     test_invariants_and_limits net cf, test_dns_queries_and_transfers hm net cf,
     test_key_lifecycle_and_cleanup hm net cf, test_protocol_robustness net cf]"

text \<open>The exit status: an exception that leaves \<open>main\<close> ends the process with status 1.\<close>

definition verify_main :: "mac_fun \<Rightarrow> 'n network \<Rightarrow> config \<Rightarrow> string \<Rightarrow> bool \<Rightarrow> 'n world \<Rightarrow> int \<times> 'n world" where
  "verify_main hm net cf rid swapped w =
     (case test_groups hm net cf rid swapped w of
        (Inl _, w') \<Rightarrow> (1, w') | (Inr _, w') \<Rightarrow> (if w_fail w' \<noteq> 0 then 1 else 0, w'))"

end
