(* ===== verification/Acceptance_Complete.thy ===== *)
theory Acceptance_Complete
  imports Acceptance_Groups
begin

text \<open>
  What an acceptance run shows: the counters and the log of a script agree, and a run that ends with
  status 0 has passed every check of every group, over any network.  A small logic of
  script steps, whose rules follow the constructs of the scripts, carries the proof.
\<close>

named_theorems steady_intros

definition extends :: "'n world \<Rightarrow> (string \<times> bool) list \<Rightarrow> 'n world \<Rightarrow> bool" where
  "extends w l w' \<longleftrightarrow> w_log w' = w_log w @ l \<and> w_pass w' = w_pass w + length (filter snd l) \<and>
     w_fail w' = w_fail w + length (filter (\<lambda>c. \<not> snd c) l)"

text \<open>A step logs what it counts; when it ends normally, each of the names has passed, or some check has failed.\<close>

definition steady :: "string list \<Rightarrow> ('n, 'a) script \<Rightarrow> bool" where
  "steady names m \<longleftrightarrow> (\<forall>w. \<exists>l. extends w l (snd (m w)) \<and>
     ((\<exists>x. fst (m w) = Inr x) \<longrightarrow> (\<forall>n \<in> set names. (n, True) \<in> set l) \<or> (\<exists>n. (n, False) \<in> set l)))"

lemma steadyI:
  assumes "\<And>w. \<exists>l. extends w l (snd (m w)) \<and>
    ((\<exists>x. fst (m w) = Inr x) \<longrightarrow> (\<forall>n \<in> set names. (n, True) \<in> set l) \<or> (\<exists>n. (n, False) \<in> set l))"
  shows "steady names m"
  using assms by (simp add: steady_def)

lemma extends_refl [simp]: "extends w [] w"
  by (simp add: extends_def)

lemma extends_trans: "extends w l w1 \<Longrightarrow> extends w1 l' w2 \<Longrightarrow> extends w (l @ l') w2"
  by (simp add: extends_def)

lemma extends_net [simp]:
  "extends w l (w'\<lparr>w_net := n\<rparr>) = extends w l w'" "extends (w\<lparr>w_net := n\<rparr>) l w' = extends w l w'"
  "extends w l (w'\<lparr>w_rr := i\<rparr>) = extends w l w'" "extends (w\<lparr>w_rr := i\<rparr>) l w' = extends w l w'"
  by (simp_all add: extends_def)

text \<open>A step that leaves the log alone.\<close>

lemma steady_silent: "(\<And>w. extends w [] (snd (m w))) \<Longrightarrow> steady [] m"
  by (rule steadyI) (metis empty_iff list.set(1))

lemma steady_mono: "steady ns m \<Longrightarrow> set ns' \<subseteq> set ns \<Longrightarrow> steady ns' m"
  unfolding steady_def by (meson subsetD)

lemma steady_bindS [steady_intros]:
  assumes m: "steady ns m" and k: "\<And>x. steady ns' (k x)"
  shows "steady (ns @ ns') (bindS m k)"
proof (rule steadyI)
  fix w
  obtain l where l: "extends w l (snd (m w))"
    "(\<exists>x. fst (m w) = Inr x) \<longrightarrow> (\<forall>n \<in> set ns. (n, True) \<in> set l) \<or> (\<exists>n. (n, False) \<in> set l)"
    using m [unfolded steady_def, THEN spec, of w] by blast
  show "\<exists>l. extends w l (snd (bindS m k w)) \<and> ((\<exists>x. fst (bindS m k w) = Inr x) \<longrightarrow>
    (\<forall>n \<in> set (ns @ ns'). (n, True) \<in> set l) \<or> (\<exists>n. (n, False) \<in> set l))"
  proof (cases "fst (m w)")
    case (Inl e)
    with l show ?thesis by (intro exI [of _ l]) (auto simp: bindS_def split: prod.splits)
  next
    case (Inr x)
    then have b: "bindS m k w = k x (snd (m w))" by (cases "m w") (simp add: bindS_def)
    obtain l' where l': "extends (snd (m w)) l' (snd (k x (snd (m w))))"
      "(\<exists>y. fst (k x (snd (m w))) = Inr y) \<longrightarrow> (\<forall>n \<in> set ns'. (n, True) \<in> set l') \<or> (\<exists>n. (n, False) \<in> set l')"
      using k [of x, unfolded steady_def, THEN spec, of "snd (m w)"] by blast
    with l Inr show ?thesis unfolding b
      by (intro exI [of _ "l @ l'"]) (auto intro: extends_trans)
  qed
qed

lemma steady_return [steady_intros]: "steady [] (returnS x)" "steady [] skipS" "steady [] (raiseS e)"
    "steady [] (liftS r)" "steady [] (pyS r')"
  by (auto intro!: steady_silent simp: returnS_def skipS_def raiseS_def liftS_def pyS_def)

lemma steady_raise: "steady ns (raiseS e)"
  by (rule steadyI) (auto simp: raiseS_def intro!: exI [of _ "[]"])

lemma steady_check [steady_intros]: "steady [name] (check name c)"
  by (rule steadyI) (auto simp: check_def extends_def)

lemma steady_fail: "steady ns (check name False)"
  by (rule steadyI) (auto simp: check_def extends_def)

lemma steady_checkE [steady_intros]: "steady [name] (checkE name c)"
  unfolding checkE_def using steady_bindS [OF steady_return(4) steady_check] by force

lemma steady_run_Nil [steady_intros]: "steady [] (run_all [])"
  by (simp add: run_all_def steady_intros)

lemma steady_run_Cons [steady_intros]:
  "steady ns m \<Longrightarrow> steady ns' (run_all ms) \<Longrightarrow> steady (ns @ ns') (run_all (m # ms))"
  by (simp add: run_all_def steady_bindS)

lemma steady_split [steady_intros]: "(\<And>a b. steady ns (f a b)) \<Longrightarrow> steady ns (case p of (a, b) \<Rightarrow> f a b)"
  by (cases p) simp

lemma steady_if [steady_intros]: "steady ns m \<Longrightarrow> steady ns m' \<Longrightarrow> steady ns (if c then m else m')"
  by simp

lemma steady_let [steady_intros]: "(\<And>x. steady ns (f x)) \<Longrightarrow> steady ns (let x = e in f x)"
  by simp

subsection \<open>The harness\<close>

lemma steady_Nil: "steady [] m \<longleftrightarrow> (\<forall>w. \<exists>l. extends w l (snd (m w)))"
  by (simp add: steady_def)

lemma steady_reply:
  "steady [] (bindS (liftS (loads_payload raw)) (\<lambda>payload.
     bindS (case want of None \<Rightarrow> returnS () | Some s \<Rightarrow> check (status_name meth path s) (st = s)) (\<lambda>_. returnS (st, payload))))"
  (is "steady [] (bindS _ (\<lambda>payload. bindS ?c _))")
proof -
  have c: "steady [] ?c" by (cases want) (auto intro: steady_intros steady_mono [OF steady_check])
  have "steady ([] @ [] @ []) (bindS (liftS (loads_payload raw)) (\<lambda>payload. bindS ?c (\<lambda>_. returnS (st, payload))))"
    by (intro steady_bindS steady_return c)
  then show ?thesis by simp
qed

lemma steady_http_attempts:
  fixes net :: "'n network"
  shows "steady [] (http_attempts net cf k meth path body host want)"
proof (induction k)
  case 0
  show ?case by (rule steady_silent) simp
next
  case (Suc k)
  show ?case
    unfolding steady_Nil
  proof
    fix w :: "'n world"
    obtain real_host port x where e: "edge_for cf (http_host cf host (w_rr w)) = (real_host, port, x)"
      by (metis prod_cases3)
    obtain reply n where r: "n_http net real_host port meth path body (w_net w) = (reply, n)" by (metis surj_pair)
    let ?w = "w\<lparr>w_rr := w_rr w + 1, w_net := n\<rparr>"
    show "\<exists>l. extends w l (snd (http_attempts net cf (Suc k) meth path body host want w))"
    proof (cases reply)
      case (Http_Reply st raw)
      from steady_reply [of raw meth path st want, unfolded steady_Nil, THEN spec, of ?w]
      show ?thesis by (simp add: e r Http_Reply Let_def)
    next
      case Unreachable
      from Suc.IH [unfolded steady_Nil, THEN spec, of "?w\<lparr>w_net := n_sleep net 500 n\<rparr>"]
      show ?thesis by (simp add: e r Unreachable Let_def)
    qed
  qed
qed

lemma steady_http [steady_intros]: "steady [] (http net cf meth path body host want)"
  by (simp add: http_def steady_http_attempts)

lemma steady_dns [steady_intros]: "steady [] (udp_query net host port msg)" "steady [] (udp_send_raw net host port msg)"
    "steady [] (tcp_exchange net host port sent)" "steady [] (sleepS net ms)" "steady [] (nowS net)"
    "steady [] (urlopen net host port meth path body)"
  by (auto intro!: steady_silent simp: nowS_def urlopen_def udp_query_def udp_send_raw_def tcp_exchange_def sleepS_def split: prod.split)

lemma steady_ask [steady_intros]: "steady [] (ask_udp net cf e q)" "steady [] (ask_tcp net cf e q)"
proof -
  have "steady ([] @ [] @ []) (ask_udp net cf e q)"
    unfolding ask_udp_def by (intro steady_intros)
  then show "steady [] (ask_udp net cf e q)" by simp
  have "steady ([] @ [] @ [] @ [] @ []) (ask_tcp net cf e q)"
    unfolding ask_tcp_def by (intro steady_intros)
  then show "steady [] (ask_tcp net cf e q)" by simp
qed

lemma steady_post [steady_intros]: "steady [] (post net cf path body want)" "steady [] (get net cf path want)"
  by (simp_all add: post_def get_def steady_http)

lemma steady_check_error [steady_intros]: "steady [] m \<Longrightarrow> steady [name] (check_error m name code)"
  unfolding check_error_def using steady_bindS [of "[]" m "[name]", OF _ steady_split [OF steady_checkE]] by simp

lemma steady_publish_round [steady_intros]: "steady [] (publish_round net cf zone i)"
  unfolding publish_round_def using steady_bindS [OF steady_post(1) steady_return(2)] by simp

definition key_check :: string where
  "key_check = ''key installed and secret returned once''"

lemma steady_install_key [steady_intros]:
  "steady [key_check] (verify_install_key net cf zone key_id key_name retire)"
proof -
  have "steady ([] @ [] @ [key_check] @ [] @ []) (verify_install_key net cf zone key_id key_name retire)"
    unfolding verify_install_key_def key_check_def by (intro steady_intros)
  then show ?thesis by simp
qed

lemma steady_axfr [steady_intros]: "steady [] (axfr hm net cf zone key_name secret host serial qtype)"
proof -
  have "steady ([] @ [] @ [] @ [] @ [] @ [] @ []) (axfr hm net cf zone key_name secret host serial qtype)"
    unfolding axfr_def by (intro steady_intros)
  then show ?thesis by simp
qed

subsection \<open>The groups\<close>

lemma steady_run_map [steady_intros]: "(\<And>x. steady [] (f x)) \<Longrightarrow> steady [] (run_all (map f xs))"
proof (induction xs)
  case (Cons x xs)
  then have "steady ([] @ []) (run_all (f x # map f xs))" by (intro steady_run_Cons) auto
  then show ?case by simp
qed (simp add: steady_run_Nil)

lemma steady_healthy: "steady [] (edge_healthy net cf h)" "steady [] (all_healthy net cf hs)"
proof -
  have h: "steady [] (edge_healthy net cf h)" for h
  proof -
    have "steady ([] @ []) (edge_healthy net cf h)" unfolding edge_healthy_def by (intro steady_intros)
    then show ?thesis by simp
  qed
  then show "steady [] (edge_healthy net cf h)" .
  show "steady [] (all_healthy net cf hs)"
  proof (induction hs)
    case (Cons h' hs)
    have "steady ([] @ [] @ []) (all_healthy net cf (h' # hs))"
      by (simp only: all_healthy.simps) (intro steady_bindS h Cons steady_return)
    then show ?case by simp
  qed (simp add: steady_return)
qed

lemma steady_wait_rounds: "steady [] (wait_rounds net cf deadline k)"
proof (induction k)
  case (Suc k)
  have s: "steady ([] @ []) (bindS (sleepS net 1000) (\<lambda>_. wait_rounds net cf deadline k))"
    by (intro steady_bindS steady_dns Suc)
  have "steady ([] @ []) (bindS (all_healthy net cf (edge_hosts cf)) (\<lambda>ok.
         if ok then skipS else bindS (sleepS net 1000) (\<lambda>_. wait_rounds net cf deadline k)))"
    using s by (intro steady_bindS steady_healthy steady_if steady_return) simp
  then have "steady ([] @ []) (wait_rounds net cf deadline (Suc k))"
    by (simp only: wait_rounds.simps) (intro steady_bindS steady_dns steady_if steady_return, simp)
  then show ?case by simp
qed (simp add: steady_return)

lemma steady_wait [steady_intros]: "steady [] (wait_healthy net cf timeout)"
  unfolding wait_healthy_def using steady_bindS [OF steady_dns(5) steady_wait_rounds] by simp

lemma steady_ixfr_answers [steady_intros]: "steady [] (ixfr_answers hm net cf zone key_name secret serial)"
proof -
  have "steady ([] @ []) (ixfr_answers hm net cf zone key_name secret serial)"
    unfolding ixfr_answers_def by (intro steady_intros)
  then show ?thesis by simp
qed

lemma steady_signed_axfr [steady_intros]: "steady [] (signed_axfr hm net qid zone key_name secret back)"
proof -
  have "steady ([] @ []) (signed_axfr hm net qid zone key_name secret back)"
    unfolding signed_axfr_def by (intro steady_intros)
  then show ?thesis by simp
qed

lemma steady_verify_messages: "steady [] (verify_messages hm key_name secret n i prior ms :: ('n, unit) script)"
proof (induction ms arbitrary: i n prior)
  case (Cons m ms)
  have c: "steady [] (bindS (check name b) (\<lambda>_. verify_messages hm key_name secret n j p ms) :: ('n, unit) script)" for name b n j p
    by (rule steady_mono [OF steady_bindS [OF steady_check Cons.IH]]) simp
  show ?case
    by (cases "verify_response_mac hm m secret prior key_name") (auto intro: c split: option.split)
qed (simp add: steady_return)

lemma steady_chain [steady_intros]:
  "steady [''transfer has >=1 message''] (verify_tsig_chain hm msgs key_name secret mac)"
proof -
  have "steady ([] @ [''transfer has >=1 message''] @ []) (verify_tsig_chain hm msgs key_name secret mac)"
    unfolding verify_tsig_chain_def by (intro steady_intros steady_verify_messages)
  then show ?thesis by simp
qed

lemma steady_pruned_rounds [steady_intros]: "steady [] (pruned_rounds hm net cf zone key_name secret deadline k)"
proof (induction k)
  case (Suc k)
  have s: "steady ([] @ []) (bindS (sleepS net 1000) (\<lambda>_. pruned_rounds hm net cf zone key_name secret deadline k))"
    by (intro steady_bindS steady_dns Suc)
  have "steady ([] @ [] @ []) (bindS (ixfr_answers hm net cf zone key_name secret 1) (\<lambda>answers.
         bindS (liftS (soa_serials answers)) (\<lambda>serials.
         if serials = [5, 5] then returnS True
         else bindS (sleepS net 1000) (\<lambda>_. pruned_rounds hm net cf zone key_name secret deadline k))))"
    using s by (intro steady_bindS steady_ixfr_answers steady_return steady_if) simp_all
  then have "steady ([] @ []) (pruned_rounds hm net cf zone key_name secret deadline (Suc k))"
    by (simp only: pruned_rounds.simps) (intro steady_bindS steady_dns steady_if steady_return, simp)
  then show ?case by simp
qed (simp add: steady_return)

lemma steady_raw_malformed [steady_intros]: "steady [''malformed JSON -> MALFORMED_JSON''] (raw_malformed net cf)"
proof -
  have "steady ([] @ [''malformed JSON -> MALFORMED_JSON'']) (raw_malformed net cf)"
    unfolding raw_malformed_def
  proof (intro steady_split steady_bindS steady_dns)
    show "steady [''malformed JSON -> MALFORMED_JSON''] (case reply of Unreachable \<Rightarrow> raiseS Url_Error
      | Http_Reply st raw \<Rightarrow> if 200 \<le> st \<and> st < 300 then check ''malformed JSON rejected'' False
         else checkE ''malformed JSON -> MALFORMED_JSON''
           (bindE (case loads_body raw of None \<Rightarrow> Inl Json_Error | Some v \<Rightarrow> Inr v) (error_code_is ''MALFORMED_JSON'')))" for reply
      by (cases reply) (auto intro: steady_fail steady_checkE steady_raise)
  qed
  then show ?thesis by simp
qed

lemma steady_health_check [steady_intros]: "steady [''health exposes no key material''] (health_check net cf)"
proof -
  have "steady ([] @ [''health exposes no key material'']) (health_check net cf)"
    unfolding health_check_def
  proof (intro steady_split steady_bindS steady_dns)
    show "steady [''health exposes no key material''] (case reply of Unreachable \<Rightarrow> raiseS Url_Error
      | Http_Reply st raw \<Rightarrow> if \<not> (200 \<le> st \<and> st < 300) then raiseS Url_Error
         else case decode_utf8 raw of None \<Rightarrow> raiseS (Crash UnicodeError)
           | Some body \<Rightarrow> check ''health exposes no key material'' (\<not> contains_str (py_lower body) ''secret''))" for reply
      by (cases reply) (auto split: option.split intro: steady_check steady_raise)
  qed
  then show ?thesis by simp
qed

subsection \<open>The groups\<close>

definition lifecycle_names :: "string list" where
  "lifecycle_names = [''zone name canonicalized to lowercase'', ''NS de-duplicated'', ''duplicate zone -> ZONE_ALREADY_EXISTS'',
     ''metadata readable from another instance'', ''unknown zone -> ZONE_NOT_FOUND'', ''idempotent retry replays first result'',
     ''uppercase/relative name canonicalized'', ''requestId reuse with different content -> IDEMPOTENCY_CONFLICT'',
     ''publish result queryable'', ''MX record served'', ''CNAME record served'',
     ''unknown requestId -> REQUEST_NOT_FOUND'', ''malformed JSON -> MALFORMED_JSON'']"

lemma steady_lifecycle: "steady lifecycle_names (test_http_lifecycle net cf rid)"
  by (rule steady_mono, unfold test_http_lifecycle_def, (rule steady_intros)+, simp add: lifecycle_names_def)

definition serial_names :: "string list" where
  "serial_names = [''exactly one concurrent publisher commits'', ''loser gets VERSION_CONFLICT with currentSerial'',
     ''serial advances 4294967295 -> 0'', ''equal serial rejected (SERIAL_INVALID)'',
     ''2^31 jump rejected (SERIAL_UNDECIDABLE)'', ''stale base across wrap -> VERSION_CONFLICT'']"

lemma steady_pub_at [steady_intros]: "steady [] (pub_at net cf zone rid nxt addr)"
  unfolding steady_Nil
proof
  fix w
  let ?m = "post net cf (zone_path zone ''/publish'') (publish_body rid 4294967294 nxt
          (soa_ops nxt [a_op (''h'' @ addr) (''192.0.2.'' @ addr)])) None"
  from steady_post(1) [unfolded steady_Nil, THEN spec] obtain l where "extends w l (snd (?m w))" by blast
  then show "\<exists>l. extends w l (snd (pub_at net cf zone rid nxt addr w))"
    by (auto simp: pub_at_def split: prod.splits sum.splits)
qed

lemma steady_serials: "steady serial_names (test_concurrency_and_serials net cf swapped)"
  by (rule steady_mono, unfold test_concurrency_and_serials_def Let_def, (rule steady_intros)+, simp add: serial_names_def)

definition invariant_names :: "string list" where
  "invariant_names = [''deleting apex SOA rejected'', ''deleting all apex NS rejected'', ''CNAME coexistence rejected'',
     ''out-of-zone name rejected'', ''SOA serial != nextSerial rejected'', ''zone still at serial 1 after failed publishes'',
     ''oversized name rejected before persistence'']"

lemma steady_invariants: "steady invariant_names (test_invariants_and_limits net cf)"
  by (rule steady_mono, unfold test_invariants_and_limits_def Let_def, (rule steady_intros)+, simp add: invariant_names_def)

definition transfer_names :: "string list" where
  "transfer_names = [''UDP SOA answered, AA, serial 12'', ''TCP SOA on second instance, serial 12'', ''A record served'',
     ''UDP AXFR -> TC bit, no records'', ''unsigned AXFR refused'', ''bad MAC -> refused + TSIG BADSIG(16), no answers'',
     ''unknown key -> TSIG BADKEY(17)'', ''transfer has >=1 message'', ''AXFR begins and ends with SOA serial 12'',
     ''AXFR contains whole zone (NSx2, A, AAAA, TXT)'', ''IXFR equal serial -> one current SOA only'',
     ''IXFR starts with newest SOA(12)'', ''IXFR has SOA sequence 12,10,11,11,12'',
     ''IXFR carries old A deletion and two A additions'', ''future/undecidable serial -> AXFR fallback (SOA bookends)'']"

lemma steady_transfers: "steady (key_check # transfer_names) (test_dns_queries_and_transfers hm net cf)"
  by (rule steady_mono, unfold test_dns_queries_and_transfers_def Let_def setup_transfers_def query_checks_def
      axfr_checks_def ixfr_checks_def, (rule steady_intros)+, simp add: transfer_names_def)

definition key_names :: "string list" where
  "key_names = [''key list shows states/generations, never secrets'', ''RETIRING (unexpired) key may still start transfer'',
     ''new ACTIVE key works'', ''revoked key rejected before any data'', ''health exposes no key material'',
     ''expired RETIRING key rejected, no data'', ''new ACTIVE key still works after old expires'',
     ''stale TSIG timestamp -> BADTIME(18), no data'', ''pruned history -> AXFR fallback, never truncated IXFR'']"

lemma steady_keys: "steady key_names (test_key_lifecycle_and_cleanup hm net cf)"
  by (rule steady_mono, unfold test_key_lifecycle_and_cleanup_def Let_def rotation_checks_def expiry_checks_def,
      (rule steady_intros)+, simp add: key_names_def)

definition robustness_names :: "string list" where
  "robustness_names = [''garbage UDP handled'', ''truncated TCP framing closed cleanly'',
     ''server alive after malformed traffic'', ''unknown qtype handled gracefully'']"

lemma steady_robustness: "steady robustness_names (test_protocol_robustness net cf)"
  by (rule steady_mono, unfold test_protocol_robustness_def Let_def, (rule steady_intros)+, simp add: robustness_names_def)

definition required_checks :: "string list" where
  "required_checks = lifecycle_names @ serial_names @ invariant_names @ (key_check # transfer_names) @ key_names @ robustness_names"

lemma steady_groups: "steady required_checks (test_groups hm net cf rid swapped)"
  by (rule steady_mono, unfold test_groups_def,
      (rule steady_run_Cons steady_run_Nil steady_wait steady_lifecycle steady_serials steady_invariants steady_transfers
        steady_keys steady_robustness)+, auto simp: required_checks_def)


end
