(* ===== verification/Acceptance_Service.thy ===== *)
theory Acceptance_Service
  imports Acceptance_Groups Worker
begin

text \<open>
  The service as the network of the acceptance script: the handlers of this development over one
  database, with a clock in milliseconds and a counter for the random values of the code (secrets, tokens,
  identifiers).  Every host and port is served by the same state, as all edges share one database file.
  While the script sleeps the cleanup worker runs.  Paths of the script have no percent sign,
  on which \<open>unquote\<close> is the identity; the hash of the fingerprint and the MAC are parameters.
\<close>

record service =
  sv_db :: db
  sv_clock :: int
  sv_seq :: nat

definition sv_env :: "(string \<Rightarrow> string) \<Rightarrow> service \<Rightarrow> api_env" where
  "sv_env sha s = \<lparr>a_sha256 = sha, a_loads = loads_body, a_unquote = (\<lambda>t. t), a_now = sv_clock s, a_ts = sv_clock s,
     a_ts' = sv_clock s, a_secret = replicate 32 (word_of_nat (sv_seq s)), a_ping = True, a_dns_ready = Some (True, True)\<rparr>"

definition url_path :: "string \<Rightarrow> string" where
  "url_path p = takeWhile (\<lambda>c. c \<noteq> CHR ''?'' \<and> c \<noteq> CHR ''#'') p"

definition serve_http :: "(string \<Rightarrow> string) \<Rightarrow> string \<Rightarrow> string \<Rightarrow> bytes option \<Rightarrow> service \<Rightarrow> response \<times> db" where
  "serve_http sha meth path body s =
     (let env = sv_env sha s; p = url_path path; len = map_option (\<lambda>b. dec_nat (length b)) body;
          raw = (case body of None \<Rightarrow> [] | Some b \<Rightarrow> b) in
      if meth = ''GET'' then (do_GET env p (sv_db s), sv_db s)
      else if meth = ''POST'' then do_POST env p len raw (sv_db s)
      else if meth = ''PUT'' then do_PUT env p len raw (sv_db s)
      else (do_DELETE, sv_db s))"

definition sv_http :: "(string \<Rightarrow> string) \<Rightarrow> string \<Rightarrow> int \<Rightarrow> string \<Rightarrow> string \<Rightarrow> bytes option \<Rightarrow> service \<Rightarrow> http_reply \<times> service" where
  "sv_http sha host port meth path body s =
     (case serve_http sha meth path body s of (r, d) \<Rightarrow>
      case send_json r of (st, _, raw) \<Rightarrow>
        (Http_Reply st raw, s\<lparr>sv_db := d, sv_clock := sv_clock s + 1, sv_seq := sv_seq s + 1\<rparr>))"

definition sv_udp :: "string \<Rightarrow> int \<Rightarrow> bytes \<Rightarrow> service \<Rightarrow> bytes option \<times> service" where
  "sv_udp host port data s =
     (case udp_handle data (sv_db s) of Inl _ \<Rightarrow> None | Inr r \<Rightarrow> Some r, s\<lparr>sv_clock := sv_clock s + 1\<rparr>)"

definition sv_tcp_env :: "service \<Rightarrow> tcp_env" where
  "sv_tcp_env s = \<lparr>e_budget = 65000, e_now = sv_clock s div 1000, e_now' = sv_clock s div 1000, e_ts = sv_clock s,
     e_when = nat (sv_clock s div 1000), e_beat = (\<lambda>_. sv_clock s), e_done = sv_clock s,
     e_instance = ''edge'', e_ref_id = ''ref-'' @ dec_nat (sv_seq s)\<rparr>"

definition sv_tcp :: "mac_fun \<Rightarrow> string \<Rightarrow> int \<Rightarrow> bytes \<Rightarrow> service \<Rightarrow> bytes \<times> service" where
  "sv_tcp hm host port input s =
     (case tcp_handle hm (sv_tcp_env s) input (sv_db s) of (fs, d) \<Rightarrow>
        (concat fs, s\<lparr>sv_db := d, sv_clock := sv_clock s + 1, sv_seq := sv_seq s + 1\<rparr>))"

fun sv_clean :: "nat \<Rightarrow> service \<Rightarrow> service" where
  "sv_clean 0 s = s"
| "sv_clean (Suc k) s =
     (case run_once (''token-'' @ dec_nat (sv_seq s)) (sv_clock s div 1000) (sv_clock s) (sv_clock s) (sv_db s) of
        (again, d) \<Rightarrow> let s' = s\<lparr>sv_db := d, sv_seq := sv_seq s + 1\<rparr> in if again then sv_clean k s' else s')"

definition sv_sleep :: "int \<Rightarrow> service \<Rightarrow> service" where
  "sv_sleep ms s = (let s' = s\<lparr>sv_clock := sv_clock s + ms\<rparr> in sv_clean (length (cleanup_tasks (sv_db s'))) s')"

definition sv_network :: "(string \<Rightarrow> string) \<Rightarrow> mac_fun \<Rightarrow> service network" where
  "sv_network sha hm = \<lparr>n_http = sv_http sha, n_udp = sv_udp, n_tcp = sv_tcp hm, n_now = sv_clock, n_sleep = sv_sleep\<rparr>"

definition two_edges :: config where
  "two_edges = \<lparr>cf_edges = [
     \<lparr>ed_alias = ''edge-1'', ed_host = ''edge-1'', ed_api_port = 8080, ed_dns_port = 53\<rparr>,
     \<lparr>ed_alias = ''edge-2'', ed_host = ''edge-2'', ed_api_port = 8080, ed_dns_port = 53\<rparr>],
     cf_api_port = 8080, cf_dns_port = 53\<rparr>"

definition sum_mac :: mac_fun where
  "sum_mac k m = be32 (foldl (\<lambda>a b. (a * 31 + unat b) mod 4294967296) 7 (k @ m))"

definition started :: "service world" where
  "started = \<lparr>w_net = \<lparr>sv_db = empty_db, sv_clock = 1700000000000, sv_seq = 1\<rparr>, w_rr = 0, w_pass = 0, w_fail = 0, w_log = []\<rparr>"

end
