(* ===== verification/Acceptance_Theorems.thy ===== *)
theory Acceptance_Theorems
  imports Acceptance_Service Store_Theorems
begin

text \<open>
  The acceptance script against the service of this development: what the client sends as JSON reaches
  the handler as the same value, and what the handler returns is what the script reads; a retried
  publish, the verification of a transfer, the health wait and the last group hold in every state.
\<close>

subsection \<open>A number in a header\<close>

lemma digits_us_digits: "ds \<noteq> [] \<Longrightarrow> \<forall>c \<in> set ds. is_digit c \<Longrightarrow> digits_us ds = Some ds"
  by (induction ds rule: digits_us.induct) (auto simp: is_digit_def split: if_splits)

lemma digit_not_space: "is_digit c \<Longrightarrow> \<not> int_space b c"
  by (auto simp: is_digit_def int_space_def Let_def)

lemma int_strip_digits: "\<forall>c \<in> set ds. is_digit c \<Longrightarrow> int_strip ds = ds"
proof -
  assume d: "\<forall>c \<in> set ds. is_digit c"
  have "dropWhile (int_space b) xs = xs" if "\<forall>c \<in> set xs. is_digit c" for b xs
    using that digit_not_space by (cases xs) auto
  then show ?thesis using d by (simp add: int_strip_def)
qed

lemma length_dec_nat: "n < 10 ^ Suc k \<Longrightarrow> length (dec_nat n) \<le> Suc k"
proof (induction k arbitrary: n)
  case (Suc k)
  show ?case
  proof (cases "n < 10")
    case False
    with Suc.IH [of "n div 10"] Suc.prems show ?thesis
      by (subst dec_nat.simps) (simp add: less_mult_imp_div_less mult.commute)
  qed (subst dec_nat.simps, simp)
qed (subst dec_nat.simps, simp)

lemma int_of_str_dec_nat:
  assumes "n < 10000000"
  shows "int_of_str (dec_nat n) = Inr (int n)"
proof -
  have d: "\<forall>c \<in> set (dec_nat n). is_digit c" using dec_nat_digits by blast
  obtain c cs where c: "dec_nat n = c # cs" using dec_nat_ne by (cases "dec_nat n") auto
  with d have "c \<noteq> CHR ''-''" "c \<noteq> CHR ''+''" by (auto simp: is_digit_def)
  moreover have "digits_us (c # cs) = Some (dec_nat n)" using digits_us_digits [of "dec_nat n"] d c by simp
  moreover have "length (dec_nat n) \<le> 4300" using length_dec_nat [of n 6] assms by simp
  ultimately show ?thesis using int_strip_digits [OF d] c dec_value_dec_nat [of n] by (simp add: int_of_str_def Let_def)
qed

subsection \<open>Requests over the wire\<close>

definition plain_path :: "string \<Rightarrow> bool" where
  "plain_path p \<longleftrightarrow> CHR ''?'' \<notin> set p \<and> CHR ''#'' \<notin> set p"

definition body_fits :: "(string \<times> json) list \<Rightarrow> bool" where
  "body_fits kvs \<longleftrightarrow> json_plain (JObj kvs) \<and> length (dumps_body (JObj kvs)) \<le> 4 * 1024 * 1024"

text \<open>The check of the status, when one is asked for.\<close>

definition logged_status :: "int option \<Rightarrow> string \<Rightarrow> string \<Rightarrow> int \<Rightarrow> 'n world \<Rightarrow> 'n world" where
  "logged_status want meth path st w =
     (case want of None \<Rightarrow> w | Some s \<Rightarrow> snd (check (status_name meth path s) (st = s) w))"

definition served :: "db \<Rightarrow> service world \<Rightarrow> service world" where
  "served d w = w\<lparr>w_rr := w_rr w + 1, w_net := (w_net w)\<lparr>sv_db := d, sv_clock := sv_clock (w_net w) + 1,
     sv_seq := sv_seq (w_net w) + 1\<rparr>\<rparr>"

lemma url_path_plain: "plain_path p \<Longrightarrow> url_path p = p"
  by (auto simp: plain_path_def url_path_def takeWhile_eq_all_conv)

lemma dumps_body_ne: "dumps_body (JObj kvs) \<noteq> []"
proof -
  have "utf8_char CHR ''{'' \<noteq> []" by code_simp
  then show ?thesis by (simp add: dumps_body_def encode_utf8_def)
qed

lemma serve_post:
  assumes "body_fits kvs" and "plain_path path"
  shows "serve_http sha ''POST'' path (Some (dumps_body (JObj kvs))) s =
    (case route_post (sv_env sha s) path kvs (sv_db s) of (r, d') \<Rightarrow> (respond r, d'))"
proof -
  let ?b = "dumps_body (JObj kvs)"
  have n: "int_of_str (dec_nat (length ?b)) = Inr (int (length ?b))"
    using assms(1) by (intro int_of_str_dec_nat) (simp add: body_fits_def)
  have "read_json loads_body (Some (dec_nat (length ?b))) ?b = Inr kvs"
    using assms(1) dumps_body_ne [of kvs] loads_dumps_body [of "JObj kvs"]
    by (simp add: read_json_def n body_fits_def)
  then show ?thesis
    by (simp add: serve_http_def Let_def url_path_plain [OF assms(2)] do_POST_def sv_env_def)
qed

lemma payload_read:
  assumes "json_plain v"
  shows "loads_payload (dumps_body v) = Inr v"
proof -
  have "loads_body [] = None" by code_simp
  then have "dumps_body v \<noteq> []" using loads_dumps_body [OF assms] by auto
  then show ?thesis by (simp add: loads_payload_def loads_dumps_body [OF assms])
qed

lemma http_reply:
  assumes "serve_http sha meth path (map_option dumps_body body) (w_net w) = (r, d')" and "json_plain (response_json r)"
  shows "http (sv_network sha hm) cf meth path body host want w =
    (Inr (fst r, response_json r), logged_status want meth path (fst r) (served d' w))"
proof -
  obtain h p x where e: "edge_for cf (http_host cf host (w_rr w)) = (h, p, x)" by (metis prod_cases3)
  have n: "sv_http sha h p meth path (map_option dumps_body body) (w_net w) =
      (Http_Reply (fst r) (dumps_body (response_json r)), w_net (served d' w))"
    using assms(1) by (simp add: sv_http_def send_json_def Let_def served_def)
  show ?thesis
    by (cases "host = None \<or> host = Some []"; cases want)
      (simp_all add: http_def numeral_2_eq_2 e sv_network_def n bindS_def liftS_def returnS_def
        payload_read [OF assms(2)] logged_status_def check_def served_def)
qed


lemma result_route:
  assumes "route_post env path body d = (Inr (st, Result_Body r), d1)"
  obtains zone where "api_publish env zone body d = (Inr (st, Result_Body r), d1)"
    and "\<And>env' d'. a_unquote env' = a_unquote env \<Longrightarrow> route_post env' path body d' = api_publish env' zone body d'"
proof -
  let ?parts = "path_parts env path"
  have "\<exists>a b zone c. ?parts = [a, b, zone, c] \<and> a = ''v1'' \<and> b = ''zones'' \<and> c = ''publish''"
    using assms
    by (auto simp: route_post_def api_create_zone_def api_install_key_def api_revoke_key_def bindE_Inr_iff
        split: list.splits if_splits sum.splits prod.splits)
  then obtain zone where p: "?parts = [''v1'', ''zones'', zone, ''publish'']" by blast
  have r: "route_post env' path body d' = api_publish env' zone body d'" if "a_unquote env' = a_unquote env" for env' d'
  proof -
    have "path_parts env' path = ?parts" using that by (simp add: path_parts_def)
    then show ?thesis using p by (simp add: route_post_def)
  qed
  show ?thesis using that [OF _ r] r [of env d] assms by simp
qed

lemma api_publish_committed:
  assumes "api_publish env zone body d = (Inr (201, Result_Body r), d1)"
  obtains b where "check_publish (a_sha256 env) zone body = Inr b"
    "publish (a_ts env) (bq_zone b) (bq_request_id b) (bq_base b) (bq_next b) (JList (bq_ops b)) (bq_fingerprint b) d = (Inr r, d1)"
    "\<not> pr_replayed r"
  using assms by (auto simp: api_publish_def split: sum.splits prod.splits if_splits)

text \<open>
  C18.  A publish is exactly once for a client that retries: when the service has committed a
  publish, whether or not its answer arrived, the same request sent again at any later time by the
  client's \<open>http\<close>, to any edge, is answered 200 with the first result marked as a replay,
  and the database stays as it is.
\<close>

theorem retry_replayed:
  assumes "route_post (sv_env sha s) path body (sv_db s) = (Inr (201, Result_Body r), d1)" and "reachable d1"
    and "steps d1 (sv_db (w_net w))" and "body_fits body" and "plain_path path"
  shows "http (sv_network sha hm) cf ''POST'' path (Some (JObj body)) host want w =
    (Inr (200, JObj [(''result'', result_json (r\<lparr>pr_replayed := True\<rparr>))]),
     logged_status want ''POST'' path 200 (served (sv_db (w_net w)) w))"
proof -
  let ?env = "sv_env sha (w_net w)" and ?d = "sv_db (w_net w)"
  obtain zone where z: "api_publish (sv_env sha s) zone body (sv_db s) = (Inr (201, Result_Body r), d1)"
    "\<And>env' d'. a_unquote env' = a_unquote (sv_env sha s) \<Longrightarrow> route_post env' path body d' = api_publish env' zone body d'"
    using assms(1) by (rule result_route) blast
  from z(1) obtain b where b: "check_publish (a_sha256 (sv_env sha s)) zone body = Inr b"
    "publish (a_ts (sv_env sha s)) (bq_zone b) (bq_request_id b) (bq_base b) (bq_next b) (JList (bq_ops b)) (bq_fingerprint b)
       (sv_db s) = (Inr r, d1)" "\<not> pr_replayed r"
    by (rule api_publish_committed)
  let ?r = "r\<lparr>pr_replayed := True\<rparr>"
  have "publish (a_ts ?env) (bq_zone b) (bq_request_id b) (bq_base b) (bq_next b) (JList (bq_ops b)) (bq_fingerprint b) ?d =
      (Inr ?r, ?d)"
    using replayed_later [OF assms(2) b(2,3) assms(3)] by simp
  then have "api_publish ?env zone body ?d = (Inr (200, Result_Body ?r), ?d)"
    using b(1) by (simp add: api_publish_def sv_env_def)
  then have "route_post ?env path body ?d = (Inr (200, Result_Body ?r), ?d)"
    using z(2) [of ?env "?d"] by (simp add: sv_env_def)
  with serve_post [OF assms(4,5), where s = "w_net w"]
  have "serve_http sha ''POST'' path (map_option dumps_body (Some (JObj body))) (w_net w) = ((200, Result_Body ?r), ?d)"
    by (simp add: respond_def)
  from http_reply [OF this response_json_plain] show ?thesis by (simp add: response_json_def)
qed

subsection \<open>Transfers\<close>

definition passed :: "string list \<Rightarrow> 'n world \<Rightarrow> 'n world" where
  "passed names w = w\<lparr>w_pass := w_pass w + length names, w_log := w_log w @ map (\<lambda>n. (n, True)) names\<rparr>"

definition chain_name :: "nat \<Rightarrow> nat \<Rightarrow> string" where
  "chain_name n i = (if i = 0 \<or> i + 1 = n then first_last_name i else middle_name i)"

definition chain_names :: "nat \<Rightarrow> string list" where
  "chain_names n = ''transfer has >=1 message'' # map (chain_name n) [0..<n]"

lemma check_True: "check name True w = (Inr (), passed [name] w)"
  by (simp add: check_def passed_def)

lemma passed_append [simp]: "passed ns (passed ms w) = passed (ms @ ns) w"
  by (simp add: passed_def)

lemma passed_Nil [simp]: "passed [] w = w"
  by (simp add: passed_def)

lemma bind_check_True: "bindS (check name True) (\<lambda>_. m) w = m (passed [name] w)"
  by (simp add: bindS_def check_True)

lemma bind_check_return: "bindS (check name True) returnS w = (Inr (), passed [name] w)"
  by (simp add: bindS_def check_True returnS_def)

lemma verify_messages_pass:
  assumes "\<forall>m \<in> set (butlast ms). m_tsig m = None" and "0 < i" and "n = i + length ms"
    and "ms \<noteq> [] \<longrightarrow> verify_response_mac hm (last ms) secret prior kn = Inr (Some mac)"
  shows "verify_messages hm kn secret n i prior ms w = (Inr (), passed (map (chain_name n) [i..<n]) w)"
  using assms
proof (induction ms arbitrary: i w)
  case (Cons m ms)
  have u: "[i..<n] = i # [i + 1..<n]" using Cons.prems(3) upt_conv_Cons [of i n] by simp
  show ?case
  proof (cases "ms = []")
    case True
    with Cons.prems u show ?thesis by (simp add: bind_check_return chain_name_def)
  next
    case False
    then have "verify_messages hm kn secret n (i + 1) prior ms (passed [middle_name i] w) =
        (Inr (), passed (map (chain_name n) [i + 1..<n]) (passed [middle_name i] w))"
      using Cons.prems by (intro Cons.IH) auto
    moreover have "i + 1 \<noteq> n" "m_tsig m = None" using False Cons.prems by auto
    moreover from this have "chain_name n i = middle_name i" using Cons.prems(2) by (simp add: chain_name_def)
    ultimately show ?thesis using Cons.prems(2) u by (simp add: bind_check_True)
  qed
qed (simp add: returnS_def)

lemma verify_response_wire_name:
  assumes "verify_response_mac hm m secret prior (wire_name_of kn) = Inr (Some mac)" and "encode_name kn = Inr kw"
  shows "verify_response_mac hm m secret prior kn = Inr (Some mac)"
proof -
  have "encode_name (wire_name_of kn) = Inr kw" using encode_wire_name [OF assms(2)] .
  then have "tsig_variables (wire_name_of kn) a b c e f = tsig_variables kn a b c e f" for a b c e f
    using assms(2) by (simp add: tsig_variables_def)
  then show ?thesis using assms(1) by (cases "m_tsig m") (simp_all add: verify_response_mac_def)
qed

lemma delivered_chain:
  assumes d: "delivered hm p q xs fs" and n: "tp_key_name p = wire_name_of kn" "encode_name kn = Inr kw"
  shows "\<exists>msgs t. tcp_transfer (concat fs) = Inr msgs \<and> q_tsig q = Some t \<and> all_answers msgs = Inr (map data_rr xs) \<and>
    (\<forall>w. verify_tsig_chain hm msgs kn (tp_secret p) (t_mac t) (w :: 'n world) = (Inr (), passed (chain_names (length msgs)) w))"
proof -
  from d obtain t m1 ms xss mac1 mac2 where d: "q_tsig q = Some t" "list_all2 frame_reads fs (m1 # ms)" "concat xss = xs"
    "list_all2 (batch_view (q_id q) (tp_zone p) (transfer_qtype p)) xss (m1 # ms)"
    "verifies hm p m1 (t_mac t) mac1" "\<forall>m \<in> set (butlast ms). m_tsig m = None" "ms \<noteq> [] \<longrightarrow> verifies hm p (last ms) mac1 mac2"
    unfolding delivered_def by blast
  from tcp_transfer_frames [OF d(2)] obtain raws where r: "tcp_transfer (concat fs) = Inr (map Some raws)"
    "map parse_message raws = map Inr (m1 # ms)" by blast
  have pa: "parse_all (map Some rs) = Inr ns" if "map parse_message rs = map Inr ns" for rs ns
    using that by (induction rs arbitrary: ns) (auto simp: parse_all_def parse_received_def Cons_eq_map_conv)
  have a: "list_all2 (batch_view i z ty) yss ns \<Longrightarrow> concat (map m_answers ns) = map data_rr (concat yss)" for yss ns i z ty
    by (induction yss ns rule: list_all2_induct) (auto simp: batch_view_def)
  have v: "verify_response_mac hm m1 (tp_secret p) (t_mac t) kn = Inr (Some mac1)"
    "ms \<noteq> [] \<longrightarrow> verify_response_mac hm (last ms) (tp_secret p) mac1 kn = Inr (Some mac2)"
    using d(5,7) verify_response_wire_name [OF _ n(2)] by (auto simp: verifies_def n(1))
  have len: "length raws = Suc (length ms)" using map_eq_imp_length_eq [OF r(2)] by simp
  have u: "[0..<Suc (length ms)] = 0 # [1..<Suc (length ms)]" using upt_conv_Cons [of 0 "Suc (length ms)"] by simp
  have "verify_messages hm kn (tp_secret p) (Suc (length ms)) 0 (t_mac t) (m1 # ms) w =
      (Inr (), passed (map (chain_name (Suc (length ms))) [0..<Suc (length ms)]) w)" for w :: "'n world"
    using verify_messages_pass [OF d(6) _ _ v(2), of 1 "Suc (length ms)" "passed [first_last_name 0] w"] v(1) u
    by (simp add: bind_check_True chain_name_def del: upt_Suc)
  then have "verify_tsig_chain hm (map Some raws) kn (tp_secret p) (t_mac t) w =
      (Inr (), passed (chain_names (length (map Some raws))) w)" for w :: "'n world"
    by (simp add: verify_tsig_chain_def pa [OF r(2)] bindS_def liftS_def check_True len chain_names_def del: upt_Suc verify_messages.simps)
  then show ?thesis using r(1) d(1) a [OF d(4)] d(3) pa [OF r(2)] by (auto simp: all_answers_def)
qed

lemma axfr_exchange:
  assumes "authority_of zone serial = Inr auth" and "length wire \<le> 65535"
    and "build_tsig_query hm 0x4242 zone qt kn secret (nat (sv_clock (w_net w) div 1000)) 300 auth = Inr wire"
    and "tcp_handle hm (sv_tcp_env (w_net w)) (be16 (length wire) @ wire) (sv_db (w_net w)) = (fs, d')"
    and "tcp_transfer (concat fs) = Inr msgs"
  shows "axfr hm (sv_network sha hm) cf zone kn secret host serial qt w =
    (Inr (wire, msgs), w\<lparr>w_net := (w_net w)\<lparr>sv_db := d', sv_clock := sv_clock (w_net w) + 1, sv_seq := sv_seq (w_net w) + 1\<rparr>\<rparr>)"
proof -
  obtain h a p where e: "edge_for cf (case host of Some x \<Rightarrow> if x \<noteq> [] then x else hd (edge_hosts cf) | None \<Rightarrow> hd (edge_hosts cf)) = (h, a, p)"
    by (metis prod_cases3)
  have "tcp_query_send wire = Inr (be16 (length wire) @ wire)"
    using assms(2) by (simp add: tcp_query_send_def pack16_def)
  then show ?thesis
    using assms by (simp add: axfr_def Let_def e bindS_def pyS_def nowS_def tcp_exchange_def sv_network_def sv_tcp_def returnS_def)
qed

text \<open>
  C12.  Every transfer passes the acceptance test of its signatures: for every reachable state of the
  service and every live key, \<open>axfr\<close> of the script sends a request that is served, the messages it
  reads pass every check of \<open>verify_tsig_chain\<close> with the MAC of the request, and their answer sections
  together are the payload of the transfer; the tables of the service stay as they are.
\<close>

theorem transfer_accepted:
  assumes "reachable (sv_db (w_net w))" and "find_zone (sv_db (w_net w)) (wire_name_of zone) = Some z"
    and "live_key (sv_clock (w_net w) div 1000 * 1000) (sv_db (w_net w)) (z_name z) (wire_name_of kn) k"
    and "authority_of zone serial = Inr auth" and "qt = TYPE_AXFR \<or> qt = TYPE_IXFR"
    and "build_tsig_query hmac_sha256 0x4242 zone qt kn (k_secret k) (nat (sv_clock (w_net w) div 1000)) 300 auth = Inr wire"
    and "encode_name kn = Inr kw" and "length kw \<le> 255" and "length wire \<le> 65535"
    and "0 \<le> sv_clock (w_net w)" and "sv_clock (w_net w) div 1000 < 2 ^ 48"
    and "''ref-'' @ dec_nat (sv_seq (w_net w)) \<notin> f_ref_id ` set (transfer_refs (sv_db (w_net w)))"
  shows "\<exists>msgs mac q p d1 s'. axfr hmac_sha256 (sv_network sha hmac_sha256) cf zone kn (k_secret k) host serial qt w =
      (Inr (wire, msgs), w\<lparr>w_net := s'\<rparr>) \<and> same_tables (sv_db (w_net w)) (sv_db s') \<and> query_mac wire = Inr mac \<and>
    (\<forall>v :: service world. verify_tsig_chain hmac_sha256 msgs kn (k_secret k) mac v = (Inr (), passed (chain_names (length msgs)) v)) \<and>
    parse_query wire = Inr q \<and> authorize_transfer hmac_sha256 (sv_clock (w_net w) div 1000) (sv_clock (w_net w) div 1000)
      (sv_clock (w_net w)) ''edge'' (''ref-'' @ dec_nat (sv_seq (w_net w))) q (sv_db (w_net w)) = (Inr p, d1) \<and>
    all_answers msgs = Inr (map data_rr (transfer_payload d1 p))"
proof -
  let ?s = "w_net w" and ?env = "sv_tcp_env (w_net w)" and ?now = "sv_clock (w_net w) div 1000"
  have e: "e_now ?env = ?now" "e_now' ?env = ?now" "e_ts ?env = sv_clock ?s" "e_instance ?env = ''edge''"
    "e_ref_id ?env = ''ref-'' @ dec_nat (sv_seq ?s)" by (simp_all add: sv_tcp_env_def)
  have "take_bit 48 (nat ?now) = nat ?now" using assms(10,11) by (simp add: take_bit_eq_mod nat_less_iff)
  then have tm: "verify_tsig_time (int (take_bit 48 (nat ?now))) (int 300) (e_now ?env) 300"
    using assms(10) by (simp add: verify_tsig_time_def e)
  have hm: "\<forall>key m. length (hmac_sha256 key m) = 32" by simp
  obtain q p d1 fs d' where t: "parse_query wire = Inr q"
    "authorize_transfer hmac_sha256 ?now ?now (sv_clock ?s) ''edge'' (''ref-'' @ dec_nat (sv_seq ?s)) q (sv_db ?s) = (Inr p, d1)"
    "tp_key_name p = wire_name_of kn" "tp_secret p = k_secret k"
    "tcp_handle hmac_sha256 ?env (be16 (length wire) @ wire) (sv_db ?s) = (fs, d')"
    "delivered hmac_sha256 p q (transfer_payload d1 p) fs" "same_tables (sv_db ?s) d'"
    using signed_transfer_delivered [OF reachable_wf [OF assms(1)] reachable_wf_keys [OF assms(1)] assms(2) _ assms(6,4,5,7,8,9) tm _ hm]
      assms(3,12) unfolding e by blast
  from delivered_chain [OF t(6,3) assms(7), where 'n = service] obtain msgs u where c: "tcp_transfer (concat fs) = Inr msgs" "q_tsig q = Some u"
    "all_answers msgs = Inr (map data_rr (transfer_payload d1 p))"
    "\<forall>v :: service world. verify_tsig_chain hmac_sha256 msgs kn (tp_secret p) (t_mac u) v = (Inr (), passed (chain_names (length msgs)) v)"
    by blast
  have "query_mac wire = Inr (t_mac u)" by (simp add: query_mac_def t(1) c(2))
  with axfr_exchange [OF assms(4,9,6) t(5) c(1), where cf = cf and host = host] t c show ?thesis by fastforce
qed

subsection \<open>The health wait\<close>

lemma service_edge_healthy:
  "edge_healthy (sv_network sha hm) cf h w = (Inr True, w\<lparr>w_net := w_net (served (sv_db (w_net w)) w)\<rparr>)"
proof -
  obtain host p x where e: "edge_for cf h = (host, p, x)" by (metis prod_cases3)
  let ?c = "\<lparr>h_persistence = True, h_dns_udp = True, h_dns_tcp = True\<rparr>"
  have r: "serve_http sha ''GET'' ''/healthz'' None (w_net w) = ((200, Health_Body ?c), sv_db (w_net w))"
    by (simp add: serve_http_def url_path_def do_GET_def route_get_def api_health_def sv_env_def respond_def)
  have b: "loads_body (dumps_body (health_json ?c)) = Some (health_json ?c)"
    by (rule loads_dumps_body) (simp add: health_json_def ok_or_down_def)
  have "item_is [''status''] (JStr ''ok'') (health_json ?c) = Inr True"
    by (simp add: item_is_def health_json_def ok_or_down_def Let_def)
  then show ?thesis
    by (simp add: edge_healthy_def e urlopen_def bindS_def returnS_def sv_network_def sv_http_def r send_json_def
        response_json_def b Let_def served_def)
qed

lemma service_all_healthy:
  "\<exists>s. all_healthy (sv_network sha hm) cf hs w = (Inr True, w\<lparr>w_net := s\<rparr>) \<and> sv_db s = sv_db (w_net w)"
proof (induction hs arbitrary: w)
  case Nil
  show ?case by (intro exI [of _ "w_net w"]) (simp add: returnS_def)
next
  case (Cons h hs)
  let ?w = "w\<lparr>w_net := w_net (served (sv_db (w_net w)) w)\<rparr>"
  obtain s where s: "all_healthy (sv_network sha hm) cf hs ?w = (Inr True, ?w\<lparr>w_net := s\<rparr>)" "sv_db s = sv_db (w_net ?w)"
    using Cons.IH [of ?w] by blast
  then show ?case
    by (intro exI [of _ s]) (simp add: bindS_def service_edge_healthy returnS_def served_def)
qed

text \<open>
  A running service is found healthy at once: whatever its state, the first round of
  \<open>wait_healthy\<close> finds every edge healthy, and changes nothing in the database.
\<close>

theorem service_healthy:
  "\<exists>s. wait_healthy (sv_network sha hm) cf (Suc timeout) w = (Inr (), w\<lparr>w_net := s\<rparr>) \<and> sv_db s = sv_db (w_net w)"
proof -
  obtain s where "all_healthy (sv_network sha hm) cf (edge_hosts cf) w = (Inr True, w\<lparr>w_net := s\<rparr>)" "sv_db s = sv_db (w_net w)"
    using service_all_healthy by blast
  then show ?thesis
    by (intro exI [of _ s]) (simp add: wait_healthy_def bindS_def nowS_def skipS_def returnS_def)
qed

subsection \<open>The rounds of the waiting loops are enough\<close>

text \<open>
  Over a network whose clock does not run backwards and whose sleep lasts as long as asked, the
  bounded rounds of the two waiting loops are the unbounded loops of the code: further rounds never run.
\<close>

locale clocked_network =
  fixes net :: "'n network"
  assumes sleep_clock: "0 \<le> ms \<Longrightarrow> n_now net n + ms \<le> n_now net (n_sleep net ms n)"
    and http_clock: "n_now net n \<le> n_now net (snd (n_http net host port meth path body n))"
    and tcp_clock: "n_now net n \<le> n_now net (snd (n_tcp net host port sent n))"
begin

abbreviation clock :: "'n world \<Rightarrow> int" where
  "clock w \<equiv> n_now net (w_net w)"

definition forward :: "('n, 'a) script \<Rightarrow> bool" where
  "forward m \<longleftrightarrow> (\<forall>w. clock w \<le> clock (snd (m w)))"

lemma forward_bindS:
  assumes m: "forward m" and k: "\<And>x. forward (k x)"
  shows "forward (bindS m k)"
  unfolding forward_def
proof
  fix w
  obtain r w1 where 1: "m w = (r, w1)" by (metis surj_pair)
  have c: "clock w \<le> clock w1" using m [unfolded forward_def, THEN spec, of w] 1 by simp
  show "clock w \<le> clock (snd (bindS m k w))"
  proof (cases r)
    case (Inr x)
    with k [of x, unfolded forward_def, THEN spec, of w1] c 1 show ?thesis by (simp add: bindS_def)
  qed (use c 1 in \<open>simp add: bindS_def\<close>)
qed

lemma forward_silent: "forward (returnS x)" "forward (liftS r)" "forward (pyS r')" "forward (nowS net)"
  by (simp_all add: forward_def returnS_def liftS_def pyS_def nowS_def)

lemma forward_urlopen: "forward (urlopen net host port meth path body)"
  unfolding forward_def
proof
  fix w
  show "clock w \<le> clock (snd (urlopen net host port meth path body w))"
    using http_clock [of "w_net w" host port meth path body]
    by (cases "n_http net host port meth path body (w_net w)") (simp add: urlopen_def)
qed

lemma forward_tcp: "forward (tcp_exchange net host port sent)"
  unfolding forward_def
proof
  fix w
  show "clock w \<le> clock (snd (tcp_exchange net host port sent w))"
    using tcp_clock [of "w_net w" host port sent]
    by (cases "n_tcp net host port sent (w_net w)") (simp add: tcp_exchange_def)
qed

lemma forward_split: "(\<And>a b. forward (f a b)) \<Longrightarrow> forward (case p of (a, b) \<Rightarrow> f a b)"
  by (cases p) simp

lemma forward_healthy: "forward (edge_healthy net cf h)"
  unfolding edge_healthy_def by (intro forward_split forward_bindS forward_urlopen forward_silent)

lemma forward_ixfr: "forward (ixfr_answers hm net cf zone kn secret serial)"
  unfolding ixfr_answers_def axfr_def Let_def
  by (intro forward_split forward_bindS forward_tcp forward_silent)

lemma all_healthy_clock: "\<exists>ok w'. all_healthy net cf hs w = (Inr ok, w') \<and> clock w \<le> clock w'"
proof (induction hs arbitrary: w)
  case (Cons h hs)
  obtain host port x where "edge_for cf h = (host, port, x)" by (metis prod_cases3)
  then have "\<exists>ok w1. edge_healthy net cf h w = (Inr ok, w1)"
    by (cases "n_http net host port ''GET'' ''/healthz'' None (w_net w)")
      (auto simp: edge_healthy_def urlopen_def bindS_def returnS_def)
  then obtain ok w1 where 1: "edge_healthy net cf h w = (Inr ok, w1)" by blast
  obtain oks w2 where 2: "all_healthy net cf hs w1 = (Inr oks, w2)" "clock w1 \<le> clock w2" using Cons.IH by blast
  have "clock w \<le> clock w1" using forward_healthy [of cf h, unfolded forward_def, THEN spec, of w] 1 by simp
  with 1 2 show ?case by (intro exI [of _ "ok \<and> oks"] exI [of _ w2]) (simp add: bindS_def returnS_def)
qed (auto simp: returnS_def)

lemma wait_enough:
  "deadline \<le> clock w + 1000 * int k \<Longrightarrow> wait_rounds net cf deadline (k + j) w = wait_rounds net cf deadline k w"
proof (induction k arbitrary: w)
  case 0
  then show ?case by (cases j) (simp_all add: bindS_def nowS_def)
next
  case (Suc k)
  obtain ok w1 where h: "all_healthy net cf (edge_hosts cf) w = (Inr ok, w1)" "clock w \<le> clock w1"
    using all_healthy_clock by blast
  let ?w = "w1\<lparr>w_net := n_sleep net 1000 (w_net w1)\<rparr>"
  have "clock w1 + 1000 \<le> clock ?w" using sleep_clock by simp
  then have "wait_rounds net cf deadline (k + j) ?w = wait_rounds net cf deadline k ?w"
    using Suc.prems h(2) by (intro Suc.IH) (simp add: algebra_simps)
  then show ?case by (simp add: bindS_def nowS_def h(1) sleepS_def)
qed

lemma pruned_enough:
  "deadline \<le> clock w + 1000 * int k \<Longrightarrow>
    pruned_rounds hm net cf zone kn secret deadline (k + j) w = pruned_rounds hm net cf zone kn secret deadline k w"
proof (induction k arbitrary: w)
  case 0
  then show ?case by (cases j) (simp_all add: bindS_def nowS_def)
next
  case (Suc k)
  obtain r w1 where h: "ixfr_answers hm net cf zone kn secret 1 w = (r, w1)" by (metis surj_pair)
  have "clock w \<le> clock w1"
    using forward_ixfr [of hm cf zone kn secret 1, unfolded forward_def, THEN spec, of w] h by simp
  let ?w = "w1\<lparr>w_net := n_sleep net 1000 (w_net w1)\<rparr>"
  have "clock w1 + 1000 \<le> clock ?w" using sleep_clock by simp
  then have "pruned_rounds hm net cf zone kn secret deadline (k + j) ?w = pruned_rounds hm net cf zone kn secret deadline k ?w"
    using Suc.prems \<open>clock w \<le> clock w1\<close> by (intro Suc.IH) (simp add: algebra_simps)
  then show ?case using h by (auto simp: bindS_def nowS_def sleepS_def liftS_def returnS_def split: sum.split)
qed

end

lemma sv_clean_clock [simp]: "sv_clock (sv_clean k s) = sv_clock s"
  by (induction k arbitrary: s) (auto simp: Let_def split: prod.split)

interpretation service_clock: clocked_network "sv_network sha hm" for sha hm
  by unfold_locales
    (auto simp: sv_network_def sv_sleep_def sv_http_def sv_tcp_def Let_def split: prod.split)

subsection \<open>Witnesses\<close>

definition demo_service :: "db \<Rightarrow> service world" where
  "demo_service d = fresh_world \<lparr>sv_db = d, sv_clock = 5000, sv_seq = 1\<rparr>"

lemma demo_bodies: "body_fits demo_create" "body_fits (demo_publish 2)" "plain_path ''/v1/zones''" "plain_path ''/v1/zones/a./publish''"
  unfolding body_fits_def by code_simp+

lemma demo_retry_run:
  "route_post (sv_env (\<lambda>_. ''f'') (w_net (fresh_world \<lparr>sv_db = demo2, sv_clock = 3000, sv_seq = 1\<rparr>)))
     ''/v1/zones/a./publish'' (demo_publish 2) demo2 =
    (Inr (201, Result_Body \<lparr>pr_zone = ''a.'', pr_request_id = ''r1'', pr_version_id = 1, pr_serial = 2, pr_replayed = False\<rparr>), demo3)"
proof -
  have c: "check_publish (\<lambda>_. ''f'') ''a.'' (demo_publish 2) = Inr \<lparr>bq_zone = ''a.'', bq_request_id = ''r1'', bq_base = 1, bq_next = 2,
      bq_ops = demo_ops 2, bq_fingerprint = ''f''\<rparr>" by code_simp
  have p: "split_on CHR ''/'' (strip_slash ''/v1/zones/a./publish'') = [''v1'', ''zones'', ''a.'', ''publish'']" by code_simp
  show ?thesis
    using demo_publish_run by (simp add: route_post_def path_parts_def p sv_env_def fresh_world_def api_publish_def c)
qed

theorem retry_replayed_witness:
  "\<exists>j w'. http (sv_network (\<lambda>_. ''f'') hmac_sha256) two_edges ''POST'' ''/v1/zones/a./publish'' (Some (JObj (demo_publish 2))) None None
     (demo_service demo3) = (Inr (200, j), w')"
proof -
  have r: "route_post (sv_env (\<lambda>_. ''f'') \<lparr>sv_db = demo2, sv_clock = 3000, sv_seq = 1\<rparr>) ''/v1/zones/a./publish'' (demo_publish 2)
      (sv_db \<lparr>sv_db = demo2, sv_clock = 3000, sv_seq = 1\<rparr>) =
    (Inr (201, Result_Body \<lparr>pr_zone = ''a.'', pr_request_id = ''r1'', pr_version_id = 1, pr_serial = 2, pr_replayed = False\<rparr>), demo3)"
    using demo_retry_run by (simp add: fresh_world_def)
  have s: "steps demo3 (sv_db (w_net (demo_service demo3)))"
    by (simp add: demo_service_def fresh_world_def steps.intros)
  from retry_replayed [OF r demo_reachable(3) s demo_bodies(2,4)] show ?thesis by blast
qed


theorem transfer_accepted_witness:
  "\<exists>wire msgs w'. axfr hmac_sha256 (sv_network (\<lambda>t. t) hmac_sha256) two_edges ''a.'' ''k.'' demo_secret None None TYPE_AXFR
     (demo_service demo3) = (Inr (wire, msgs), w') \<and> (\<exists>xs. all_answers msgs = Inr xs)"
proof -
  have ax: "TYPE_AXFR = TYPE_AXFR \<or> TYPE_AXFR = TYPE_IXFR" by simp
  obtain wire auth where w: "authority_of ''a.'' (demo_serial TYPE_AXFR) = Inr auth"
    "build_tsig_query hmac_sha256 0x4242 ''a.'' TYPE_AXFR ''k.'' demo_secret 5 300 auth = Inr wire" "length wire \<le> 65535"
    by (rule demo_query_id [OF ax, where qid = "0x4242"]) simp_all
  have n: "demo_serial TYPE_AXFR = None" by (simp add: demo_serial_def)
  have d: "w_net (demo_service demo3) = \<lparr>sv_db = demo3, sv_clock = 5000, sv_seq = 1\<rparr>"
    by (simp add: demo_service_def fresh_world_def)
  have "\<exists>msgs mac q p d1 s'. axfr hmac_sha256 (sv_network (\<lambda>t. t) hmac_sha256) two_edges ''a.'' ''k.'' (k_secret demo_key_row) None None TYPE_AXFR
      (demo_service demo3) = (Inr (wire, msgs), (demo_service demo3)\<lparr>w_net := s'\<rparr>) \<and>
      same_tables (sv_db (w_net (demo_service demo3))) (sv_db s') \<and> query_mac wire = Inr mac \<and>
    (\<forall>v :: service world. verify_tsig_chain hmac_sha256 msgs ''k.'' (k_secret demo_key_row) mac v = (Inr (), passed (chain_names (length msgs)) v)) \<and>
    parse_query wire = Inr q \<and> authorize_transfer hmac_sha256 (sv_clock (w_net (demo_service demo3)) div 1000) (sv_clock (w_net (demo_service demo3)) div 1000)
      (sv_clock (w_net (demo_service demo3))) ''edge'' (''ref-'' @ dec_nat (sv_seq (w_net (demo_service demo3)))) q (sv_db (w_net (demo_service demo3))) = (Inr p, d1) \<and>
    all_answers msgs = Inr (map data_rr (transfer_payload d1 p))"
  proof (rule transfer_accepted [where z = demo_zone, OF _ _ _ w(1) [unfolded n] ax])
    show "build_tsig_query hmac_sha256 0x4242 ''a.'' TYPE_AXFR ''k.'' (k_secret demo_key_row)
        (nat (sv_clock (w_net (demo_service demo3)) div 1000)) 300 auth = Inr wire"
      using w(2) by (simp add: d demo_facts)
    show "encode_name ''k.'' = Inr [1, 107, 0]" by (rule demo_facts)
  qed (use w(3) demo_reachable(3) in \<open>simp_all add: d demo_facts\<close>)
  then show ?thesis unfolding demo_facts by blast
qed

end
