(* ===== verification/Acceptance_Run.thy ===== *)
theory Acceptance_Run
  imports Acceptance_Theorems
begin

text \<open>
  A run of the last group of the acceptance script against the service, evaluated in the kernel: the zone is
  created by the POST handler, the requests and their answers are the bytes on the wire.
\<close>

definition key_zone_db :: db where
  "key_zone_db = snd (route_post (sv_env (\<lambda>t. t) (w_net (demo_service empty_db))) ''/v1/zones''
     (zone_body ''key.test.'' 1 ''ns1.key.test.'' ''a.key.test.'' [''ns1.key.test.'']) empty_db)"

lemma robustness_passes:
  "(case test_protocol_robustness (sv_network (\<lambda>t. t) sum_mac) two_edges (demo_service key_zone_db) of
     (r, w) \<Rightarrow> r = Inr () \<and> w_pass w = 4 \<and> w_fail w = 0)"
  by code_simp

end
