(* ===== verification/Spec2Isabelle.thy ===== *)
theory Spec2Isabelle
  imports Publish_Progress Process Secrecy Secondary Worker_Run Acceptance_Complete Acceptance_Run
begin

text \<open>
  Verification development of the authoritative DNS zone distribution service under
  \<open>app/\<close>.

  The program.  Instances of the service share one SQLite database.  The management API
  (\<open>api.py\<close>) creates zones, publishes changesets, installs and revokes TSIG keys and sets
  retention counts through the store (\<open>storage.py\<close>), which canonicalises names and records
  (\<open>canonical.py\<close>) and keeps each version of a zone as a full snapshot with the delta from its
  predecessor.  The DNS endpoints (\<open>dns_server.py\<close>) answer queries and stream AXFR and IXFR
  transfers in the wire format of \<open>dnswire.py\<close>, comparing serials by \<open>serial.py\<close>; a
  transfer is authenticated by a TSIG record and pins the versions it reads.  The cleanup worker
  (\<open>cleaner.py\<close>) removes versions that are neither retained nor pinned.  The client
  (\<open>dnsclient.py\<close>) builds signed requests and verifies responses.  At start \<open>server.py\<close> chooses the
  role of the process and the store applies the migrations; the acceptance service (\<open>verify.py\<close>) drives
  the running instances over HTTP and DNS and counts the checks that fail.

  Modelling conventions (\<open>Prelude\<close>).  A fallible operation returns \<open>exn + 'a\<close>, with one
  constructor of \<open>exn\<close> per exception the source raises or lets through.  An operation that
  writes takes the database and returns it: each is one \<open>BEGIN IMMEDIATE\<close> transaction, so a
  result is \<open>(exn + 'a) \<times> db\<close>, and a rollback returns the old database.  A table is a list
  of rows in insertion order; keys and unique indexes are tested on insert and raise
  \<open>IntegrityError\<close>.  A read snapshot is the database value at its start.  A \<open>str\<close> is a list of
  characters, the code points up to 255; a Python \<open>int\<close> is an \<open>int\<close>, and a field of a message is
  a number that \<open>struct.pack\<close> rejects outside its width; bytes are 8-bit words.  A clock reading
  is an argument of the operation that takes it, one per call where the source reads the clock
  twice.

  The model, in the order of the code:
  \<^item> \<open>Prelude\<close>, \<open>Py_Values\<close>: exceptions and error codes of \<open>errors.py\<close>,
    JSON values, and Python's conversions (\<open>int\<close>, \<open>str\<close>, \<open>repr\<close>, \<open>strip\<close>,
    \<open>ipaddress\<close>, \<open>json.dumps\<close>) on the values the code meets.
  \<^item> \<open>Serial_Arith\<close>: \<open>compare\<close> and \<open>is_forward\<close> of \<open>serial.py\<close> (\<open>valid_u32\<close> is in \<open>Api\<close>).
  \<^item> \<open>Wire_Names\<close>, \<open>Message\<close>, \<open>Tsig\<close>: \<open>dnswire.py\<close>, names with compression pointers,
    records, headers, the query parser, error responses, and the TSIG digests and signatures.
    HMAC-SHA256 is an argument; \<open>Sha256\<close> is an executable definition of it, which the
    theorems on delivered transfers use.
  \<^item> \<open>Canonical\<close>: the limits of \<open>config.py\<close>, and \<open>canonical.py\<close> with \<open>encode_rdata\<close>.
  \<^item> \<open>Store\<close>, \<open>Publish\<close>, \<open>Keys\<close>, \<open>Cleanup\<close>: the tables of \<open>migrations/0001_init.sql\<close> and
    the operations of \<open>Database\<close>; \<open>Cleanup\<close> also has \<open>run_once\<close>.  \<open>Worker\<close> has the
    inner loop of \<open>CleanupWorker.run\<close> in a quiet world, and \<open>Worker_Run\<close> both loops, with the failures of
    the database they survive, the transactions of other processes between the rounds, and \<open>run_cleaner\<close>.
  \<^item> \<open>Zone_Transfer\<close>, \<open>Endpoints\<close>: \<open>DNSLogic\<close>, \<open>UDPHandler\<close> and \<open>TCPHandler\<close>.  A connection
    is a function of the bytes the peer sends, and returns the frames written, how it ended,
    and the database.
  \<^item> \<open>Client\<close>, \<open>Stream_Client\<close>: \<open>dnsclient.py\<close>, with \<open>tcp_query\<close> and the loop of
    \<open>tcp_transfer\<close> on the bytes of the connection.
  \<^item> \<open>Api\<close>: the routes, checks, handlers and the request fingerprint of \<open>api.py\<close>.  The
    record \<open>api_env\<close> holds what a handler gets from outside: \<open>json.loads\<close>, percent-decoding,
    the clock, the random secret, SHA-256 and the state of the servers.  \<open>Json_Text\<close> defines
    \<open>json.dumps\<close> and \<open>json.loads\<close> on texts, and \<open>Api_Json\<close> the dictionaries the handlers return, so
    that \<open>send_json\<close> is the response to the byte.
  \<^item> \<open>Reads\<close>: \<open>answer_question\<close> and \<open>zone_metadata\<close> again, with one database for each of their
    statements, since a read outside a transaction sees the newest commit at each.
  \<^item> \<open>Migrations\<close>, \<open>Process\<close>: \<open>Database._init_schema\<close>, as the sequence of its committed statements, and
    the choice of the role in \<open>server.py\<close>; the settings of \<open>config.py\<close>, and \<open>run_edge\<close> with
    \<open>build_dns_servers\<close> and \<open>build_api_server\<close> as a state machine of the main thread, which performs
    actions that may raise, and of signals that arrive between them.
  \<^item> \<open>Acceptance\<close>, \<open>Acceptance_Groups\<close>: \<open>verify.py\<close>, its HTTP client, its DNS helpers, the six
    groups of checks and \<open>main\<close>, over a network that is a parameter.  A script takes the state of
    the network, the counters and the log, and returns a value or the exception that leaves it.
    \<open>Acceptance_Service\<close> is the network made of the handlers above over one database.
  \<^item> \<open>System\<close>: the whole service as a step relation on the database.  A step is one committed
    transaction of any process; \<open>reachable\<close> is what any interleaving of them leads to from the
    empty database.  A create request whose SOA object has a \<open>_ttl\<close> outside the range of a TTL is
    excluded, since it leaves a zone that cannot be served (see the findings below).

  The library of lemmas:
  \<^item> \<open>Canonical_Sound\<close>, \<open>Rrsets\<close>, \<open>Snapshot\<close>, \<open>Zone_Valid\<close>, \<open>Publish_Effect\<close>: canonical values
    are servable; the RRset dictionaries refine finite maps; a delta leads from a snapshot to
    the next; a publish ends in one of four ways.
  \<^item> \<open>Db_Inv\<close>, \<open>Isolation\<close>, \<open>Queue\<close>, \<open>History\<close>: the invariants of the zone tables, the keys
    and the tasks, and that every step keeps them; what a live pin protects; what no run of
    the service takes back.
  \<^item> \<open>Replay\<close>, \<open>Stream_Wire\<close>, \<open>Delivery\<close>, \<open>Auth\<close>, \<open>Responses\<close>: the abstract receiver of a
    transfer; the streams on the wire and their signatures; which requests are granted.
  \<^item> \<open>Publish_Spec\<close>: the abstract publish, a list of edits of an RRset map.
  \<^item> \<open>Demo\<close>, \<open>Demo_Transfer\<close>: a concrete run, evaluated in the kernel, for the witnesses.
  Interfaces are locales: tables with a key, chains of versions linked by deltas, the name
  codec, texts that say where they end, operations that do not look at key secrets, networks
  whose clock does not run backwards; each is interpreted on the definitions of the model in the
  theory that provides them.

  The properties:
  \<^item> \<open>Transfer_Theorems\<close>: a valid request is served completely, in order and signed, and whatever
    happens meanwhile does not change it; AXFR carries the version and IXFR replays to it; which
    requests are authorised, and that a denial discloses nothing.
  \<^item> \<open>Secondary\<close>: a secondary that refreshes its copy by full and incremental transfers, at any times, holds
    the current version after each of them.
  \<^item> \<open>Store_Theorems\<close>, \<open>Publish_Progress\<close>: the invariant of the history, refinement of the abstract
    publish, lost updates, exactly-once requests, failures, progress, immutable snapshots.
  \<^item> \<open>Retention_Theorems\<close>, \<open>Worker\<close>, \<open>Worker_Run\<close>, \<open>Key_Theorems\<close>: what a cleanup keeps and removes,
    exclusive leases, the end of the worker's loops and that its tasks are finished in the end, whatever
    failed before; key tables, rotation and revocation.
  \<^item> \<open>Wire_Theorems\<close>, \<open>Query_Theorems\<close>, \<open>Stream_Client\<close>: parsers that return on every input,
    round trips, size limits, exact answers, and what a client reads and verifies.
  \<^item> \<open>Reads\<close>: a query is linearizable as long as the version it answers from is retained, and a run that
    removes that version between two statements, after which the query is answered NXDOMAIN.
  \<^item> \<open>Http_Theorems\<close>, \<open>Secrecy\<close>, \<open>Fingerprint\<close>, \<open>Migrations\<close>, \<open>Process\<close>: error responses, key
    secrets, the fingerprint, crash recovery of the start, what the health check says of an edge
    process; serial arithmetic below.
  \<^item> \<open>Acceptance_Complete\<close>: a logic of script steps, and that a run with status 0 has passed every
    check, over any network.  \<open>Acceptance_Theorems\<close>: against the service, a JSON request and its answer
    arrive as the values they are, a retried publish is a replay, every transfer passes the checks of its
    signatures, a running service is healthy.  \<open>Acceptance_Run\<close> evaluates the last group.

  Termination and bounds.  The JSON parser recurses on fuel; \<open>json_loads\<close> starts it with the length of the
  text, and \<open>json_loads_fuel\<close> shows that this is enough whenever some fuel is.  The two waiting loops of the
  acceptance script take their time-out in seconds as the bound of their rounds, which sleep a second
  each; \<open>wait_enough\<close> and \<open>pruned_enough\<close> show that further rounds would never run.  Elsewhere there
  is no fuel.  The name decoder recurses on the positions not
  yet visited, since a pointer may be followed to each position once; the client's loop on the
  bytes left, since every frame takes two at least; both are total.  The worker's loops are
  partial functions of the sequences of tokens, clock readings and failures, and are proved to return.
  A transfer budget is capped at 65000, and a message with its signature is proved to fit the 65535
  bytes of a frame.

  What modelling showed.  A query or a metadata request that overlaps a publish and a cleanup may read the
  records of a version that is gone.  The messages between the first and the last of a transfer are not
  authenticated, against the comment of \<open>sign_response\<close>.  ANCOUNT of an ordinary answer is 1
  whatever the number of records.  The fingerprint ignores the order of a changeset, which
  \<open>_apply_ops\<close> does not.  \<open>create_zone\<close> stores an unchecked \<open>_ttl\<close>.  A serial that wraps onto
  a retained one ends in an unledgered \<open>IntegrityError\<close>.  A query name that is not ASCII gets no
  UDP reply.  A label may end in a newline.  A key name without a final dot never
  authenticates.  IXFR streams lack the closing SOA of RFC 1995.  A migration is run before its name
  is recorded, against the comment.  The acceptance run does not stop at the first failure, against
  its documentation, and two of its checks pass whatever the service does.

  Not modelled.  Threads, sockets and their time-outs, which only end an exchange early; the
  connections and PRAGMAs of SQLite, and its failures other than those that the
  cleanup worker survives; the effect of a migration script, a parameter that is one step although a crash may cut
  it short; the threads that serve requests, whose transactions are the steps of \<open>System\<close>,
  and the death of a \<open>serve_forever\<close> loop other than by \<open>shutdown\<close>; the text the acceptance run prints, apart from the names and verdicts of its checks; percent-decoding; limits other
  than the defaults of \<open>config.py\<close>, which the environment can override (\<open>config_limits\<close>); code points above 255 in
  strings.
\<close>

text \<open>
  \<open>compare\<close> of any two Python integers is the comparison of their difference as a
  32-bit machine word: equal, ahead by less than half the space, behind, or exactly half.
\<close>

theorem compare_word:
  "compare s1 s2 =
     (let w = (word_of_int (s2 - s1) :: 32 word) in
      if w = 0 then EQUAL else if w < 0x80000000 then GREATER
      else if w = 0x80000000 then UNDECIDABLE else LESS)"
proof -
  have u: "uint (word_of_int (s2 - s1) :: 32 word) = (s2 - s1) mod 2 ^ 32"
    by (simp only: uint_word_of_int word_size len_num1 len_bit0) (simp)
  show ?thesis
    unfolding compare_delta Let_def word_less_def word_uint_eq_iff u by simp
qed

end
